(* ===== verification/Akiro_Prelude.thy ===== *)
theory Akiro_Prelude
  imports Main "HOL-Library.Word" "HOL-Library.Multiset"
begin

text \<open>
  The shared vocabulary of the development: the machine integers of the Rust code, the
  operations of the Rust standard library the program uses on integers, strings and byte
  slices, the \<open>?\<close> operator on results, and the generic lemmas on lists and words
  that the component theories use.

  A Rust \<open>String\<close>, \<open>&str\<close>, \<open>Vec<u8>\<close> and \<open>&[u8]\<close> are all a
  \<^typ>\<open>string\<close>: the list of the bytes of its (UTF-8) contents, a \<^typ>\<open>char\<close> being one
  byte. So \<open>length\<close> is Rust's \<open>len()\<close>, and a character outside ASCII is several
  elements. Rust's \<open>usize\<close> is the \<open>u64\<close> of the 64-bit targets the program is built
  for; additions on it wrap, as the release profile sets \<open>overflow-checks = false\<close>.
\<close>

unbundle bit_operations_syntax

named_theorems builder_simps \<open>equations of the configuration builders\<close>
named_theorems rust_simps \<open>equations of the modelled standard library\<close>

type_synonym u8 = "8 word"
type_synonym u32 = "32 word"
type_synonym u64 = "64 word"
type_synonym usize = "64 word"
type_synonym bytes = string
type_synonym path = string
type_synonym env = "string \<Rightarrow> string option"

section \<open>Integers\<close>

text \<open>\<open>u64::saturating_add\<close>, \<open>saturating_mul\<close> and \<open>saturating_sub\<close>, at any width.\<close>

definition saturating_add :: "'a::len word \<Rightarrow> 'a word \<Rightarrow> 'a word" where
  "saturating_add a b = (if unat a + unat b < 2 ^ LENGTH('a) then a + b else - 1)"

definition saturating_mul :: "'a::len word \<Rightarrow> 'a word \<Rightarrow> 'a word" where
  "saturating_mul a b = (if unat a * unat b < 2 ^ LENGTH('a) then a * b else - 1)"

definition saturating_sub :: "'a::len word \<Rightarrow> 'a word \<Rightarrow> 'a word" where
  "saturating_sub a b = (if b \<le> a then a - b else 0)"

text \<open>Division of signed integers truncates towards zero.\<close>

definition trunc_div :: "int \<Rightarrow> int \<Rightarrow> int" where
  "trunc_div a b = sgn a * sgn b * (\<bar>a\<bar> div \<bar>b\<bar>)"

section \<open>Results\<close>

text \<open>Rust's \<open>?\<close>: an error returns at once, a value goes on.\<close>

definition bind_result :: "'e + 'a \<Rightarrow> ('a \<Rightarrow> 'e + 'b) \<Rightarrow> 'e + 'b" where
  "bind_result r f = (case r of Inl e \<Rightarrow> Inl e | Inr x \<Rightarrow> f x)"

definition map_err :: "('e \<Rightarrow> 'f) \<Rightarrow> 'e + 'a \<Rightarrow> 'f + 'a" where
  "map_err f r = (case r of Inl e \<Rightarrow> Inl (f e) | Inr x \<Rightarrow> Inr x)"

section \<open>Bytes and strings\<close>

text \<open>\<open>u8::is_ascii_whitespace\<close>: space, tab, line feed, form feed, carriage return.\<close>

definition is_ascii_whitespace :: "char \<Rightarrow> bool" where
  "is_ascii_whitespace c \<longleftrightarrow> c \<in> {CHR 0x09, CHR 0x0A, CHR 0x0C, CHR 0x0D, CHR '' ''}"

text \<open>
  \<open>str::trim\<close> removes the characters with the Unicode property \<open>White_Space\<close>. On the
  bytes of a valid UTF-8 string these are the following sequences; none is a proper
  prefix or suffix of another, and no other character ends in one of them.
\<close>

definition unicode_white_space :: "string list" where
  "unicode_white_space =
     [[CHR 0x09], [CHR 0x0A], [CHR 0x0B], [CHR 0x0C], [CHR 0x0D], [CHR 0x20],
      [CHR 0xC2, CHR 0x85], [CHR 0xC2, CHR 0xA0],
      [CHR 0xE1, CHR 0x9A, CHR 0x80],
      [CHR 0xE2, CHR 0x80, CHR 0x80], [CHR 0xE2, CHR 0x80, CHR 0x81],
      [CHR 0xE2, CHR 0x80, CHR 0x82], [CHR 0xE2, CHR 0x80, CHR 0x83],
      [CHR 0xE2, CHR 0x80, CHR 0x84], [CHR 0xE2, CHR 0x80, CHR 0x85],
      [CHR 0xE2, CHR 0x80, CHR 0x86], [CHR 0xE2, CHR 0x80, CHR 0x87],
      [CHR 0xE2, CHR 0x80, CHR 0x88], [CHR 0xE2, CHR 0x80, CHR 0x89],
      [CHR 0xE2, CHR 0x80, CHR 0x8A], [CHR 0xE2, CHR 0x80, CHR 0xA8],
      [CHR 0xE2, CHR 0x80, CHR 0xA9], [CHR 0xE2, CHR 0x80, CHR 0xAF],
      [CHR 0xE2, CHR 0x81, CHR 0x9F], [CHR 0xE3, CHR 0x80, CHR 0x80]]"

fun strip_prefix :: "'a list \<Rightarrow> 'a list \<Rightarrow> 'a list option" where
  "strip_prefix [] s = Some s"
| "strip_prefix (p # ps) [] = None"
| "strip_prefix (p # ps) (c # s) = (if p = c then strip_prefix ps s else None)"

fun first_prefix :: "'a list list \<Rightarrow> 'a list \<Rightarrow> 'a list option" where
  "first_prefix [] s = None"
| "first_prefix (w # ws) s =
     (case strip_prefix w s of Some r \<Rightarrow> Some r | None \<Rightarrow> first_prefix ws s)"

lemma strip_prefix_eq_Some [simp]: "strip_prefix p s = Some r \<longleftrightarrow> s = p @ r"
  by (induction p s rule: strip_prefix.induct) auto

lemma first_prefix_Some:
  "first_prefix ws s = Some r \<Longrightarrow> \<exists>w \<in> set ws. s = w @ r"
  by (induction ws) (auto split: option.splits)

text \<open>Stripping sequences of a list of nonempty ones, again and again, from the front.\<close>

function strip_while :: "'a list list \<Rightarrow> 'a list \<Rightarrow> 'a list" where
  "strip_while ws s =
     (case first_prefix ws s of
        None \<Rightarrow> s
      | Some r \<Rightarrow> if length r < length s then strip_while ws r else s)"
  by pat_completeness auto
termination
  by (relation "measure (\<lambda>(ws, s). length s)") auto

declare strip_while.simps [simp del]

definition trim_start :: "string \<Rightarrow> string" where
  "trim_start s = strip_while unicode_white_space s"

definition trim_end :: "string \<Rightarrow> string" where
  "trim_end s = rev (strip_while (map rev unicode_white_space) (rev s))"

definition trim :: "string \<Rightarrow> string" where
  "trim s = trim_end (trim_start s)"

text \<open>\<open>char::to_ascii_lowercase\<close> on one byte, and on a string.\<close>

definition ascii_lower :: "char \<Rightarrow> char" where
  "ascii_lower c =
     (let n = (of_char c :: nat) in if 65 \<le> n \<and> n \<le> 90 then char_of (n + 32) else c)"

definition to_ascii_lowercase :: "string \<Rightarrow> string" where
  "to_ascii_lowercase = map ascii_lower"

text \<open>
  \<open>str::to_lowercase\<close> maps every character to its Unicode lower case. The program only
  compares its result with ASCII literals. U+212A KELVIN SIGN is the one character outside
  ASCII whose lower case is an ASCII letter (\<open>k\<close>); U+0130 becomes \<open>i\<close> followed by a
  combining dot, and every other one stays outside ASCII. So the model maps ASCII letters
  and the Kelvin sign, and leaves the other bytes, which match no ASCII literal before or
  after, as they are.
\<close>

function to_lowercase :: "string \<Rightarrow> string" where
  "to_lowercase s =
     (case s of
        [] \<Rightarrow> []
      | c # t \<Rightarrow>
          (case strip_prefix [CHR 0xE2, CHR 0x84, CHR 0xAA] s of
             Some r \<Rightarrow> CHR ''k'' # to_lowercase r
           | None \<Rightarrow> ascii_lower c # to_lowercase t))"
  by pat_completeness auto
termination
  by (relation "measure length") (auto split: if_splits)

declare to_lowercase.simps [simp del]

text \<open>\<open>str::split(c)\<close> for one ASCII character: always at least one piece.\<close>

fun split_on :: "'a \<Rightarrow> 'a list \<Rightarrow> 'a list list" where
  "split_on c [] = [[]]"
| "split_on c (x # xs) =
     (if x = c then [] # split_on c xs
      else (case split_on c xs of
              [] \<Rightarrow> [[x]]
            | p # ps \<Rightarrow> (x # p) # ps))"

text \<open>
  \<open>str::lines\<close>: the pieces between line feeds, without a trailing carriage return, and
  without the empty piece after a final line feed.
\<close>

definition strip_cr :: "string \<Rightarrow> string" where
  "strip_cr l = (if l \<noteq> [] \<and> last l = CHR 0x0D then butlast l else l)"

definition rust_lines :: "string \<Rightarrow> string list" where
  "rust_lines s =
     (let ps = split_on (CHR 0x0A) s
      in map strip_cr (if last ps = [] then butlast ps else ps))"

text \<open>\<open>str::split_whitespace\<close>: the nonempty pieces between white space.\<close>

function split_whitespace_from :: "string \<Rightarrow> string \<Rightarrow> string list" where
  "split_whitespace_from cur s =
     (case s of
        [] \<Rightarrow> if cur = [] then [] else [rev cur]
      | c # t \<Rightarrow>
          (case first_prefix unicode_white_space s of
             Some r \<Rightarrow>
               if length r < length s
               then (if cur = [] then [] else [rev cur]) @ split_whitespace_from [] r
               else []
           | None \<Rightarrow> split_whitespace_from (c # cur) t))"
  by pat_completeness auto
termination
  by (relation "measure (\<lambda>(cur, s). length s)") auto

declare split_whitespace_from.simps [simp del]

definition split_whitespace :: "string \<Rightarrow> string list" where
  "split_whitespace s = split_whitespace_from [] s"

section \<open>Decimal numbers\<close>

definition digit_char :: "nat \<Rightarrow> char" where
  "digit_char d = char_of (48 + d)"

definition digit_val :: "char \<Rightarrow> nat option" where
  "digit_val c = (let n = (of_char c :: nat) in if 48 \<le> n \<and> n \<le> 57 then Some (n - 48) else None)"

text \<open>\<open>Display\<close> of an unsigned integer (\<open>to_string\<close>, \<open>format!("{}")\<close>).\<close>

fun show_nat :: "nat \<Rightarrow> string" where
  "show_nat n = (if n < 10 then [digit_char n] else show_nat (n div 10) @ [digit_char (n mod 10)])"

declare show_nat.simps [simp del]

fun digits_val :: "nat \<Rightarrow> string \<Rightarrow> nat option" where
  "digits_val acc [] = Some acc"
| "digits_val acc (c # s) =
     (case digit_val c of None \<Rightarrow> None | Some d \<Rightarrow> digits_val (10 * acc + d) s)"

text \<open>
  \<open>str::parse\<close> for an unsigned type of \<open>w\<close> bits: an optional \<open>+\<close>, at least one ASCII
  digit and nothing else, and a value that fits; \<open>None\<close> is \<open>Err(ParseIntError)\<close>.
\<close>

definition parse_uint :: "nat \<Rightarrow> string \<Rightarrow> nat option" where
  "parse_uint w s =
     (let t = (case s of c # r \<Rightarrow> if c = CHR ''+'' then r else s | [] \<Rightarrow> s)
      in if t = [] then None
         else (case digits_val 0 t of
                 None \<Rightarrow> None
               | Some n \<Rightarrow> if n < 2 ^ w then Some n else None))"

text \<open>\<open>Display\<close> of the \<open>ParseIntError\<close>: the first offending character decides.\<close>

fun parse_digits_error :: "nat \<Rightarrow> nat \<Rightarrow> string \<Rightarrow> string" where
  "parse_digits_error w acc [] = ''invalid digit found in string''"
| "parse_digits_error w acc (c # s) =
     (case digit_val c of
        None \<Rightarrow> ''invalid digit found in string''
      | Some d \<Rightarrow>
          if 10 * acc + d < 2 ^ w then parse_digits_error w (10 * acc + d) s
          else ''number too large to fit in target type'')"

definition parse_uint_error :: "nat \<Rightarrow> string \<Rightarrow> string" where
  "parse_uint_error w s =
     (if s = [] then ''cannot parse integer from empty string''
      else parse_digits_error w 0 (if hd s = CHR ''+'' then tl s else s))"

definition parse_u64 :: "string \<Rightarrow> u64 option" where
  "parse_u64 s = map_option of_nat (parse_uint 64 s)"

text \<open>\<open>str::parse\<close> for \<open>i32\<close>: a sign of either kind is accepted.\<close>

definition parse_i32 :: "string \<Rightarrow> int option" where
  "parse_i32 s =
     (let (neg, t) = (case s of
          c # r \<Rightarrow> if c = CHR ''-'' then (True, r) else if c = CHR ''+'' then (False, r) else (False, s)
        | [] \<Rightarrow> (False, s))
      in if t = [] then None
         else (case digits_val 0 t of
                 None \<Rightarrow> None
               | Some n \<Rightarrow>
                   if neg then (if n \<le> 2 ^ 31 then Some (- int n) else None)
                   else (if n < 2 ^ 31 then Some (int n) else None)))"

definition parse_u32 :: "string \<Rightarrow> u32 option" where
  "parse_u32 s = map_option of_nat (parse_uint 32 s)"

section \<open>Facts about integers\<close>

lemma unat_u64_less [simp]: "unat (x :: u64) < 18446744073709551616"
  using unsigned_less[of x, where 'a = nat] by simp

lemma unat_u64_le [simp]: "unat (x :: u64) \<le> 18446744073709551615"
proof -
  have "unat x < 18446744073709551616" by (rule unat_u64_less)
  then show ?thesis by linarith
qed

lemma Suc_0_le_unat: "Suc 0 \<le> unat x \<longleftrightarrow> x \<noteq> 0"
  by (metis Suc_le_eq gr0I unat_gt_0 less_irrefl)

lemma unat_max_word: "unat (- 1 :: 'a::len word) = 2 ^ LENGTH('a) - 1"
  by (simp add: unsigned_minus_1_eq_mask mask_eq_exp_minus_1)

lemma unat_saturating_add [rust_simps]:
  "unat (saturating_add (a :: 'a::len word) b) = min (unat a + unat b) (2 ^ LENGTH('a) - 1)"
  by (auto simp: saturating_add_def unat_word_ariths unat_max_word)

lemma unat_saturating_mul [rust_simps]:
  "unat (saturating_mul (a :: 'a::len word) b) = min (unat a * unat b) (2 ^ LENGTH('a) - 1)"
  by (auto simp: saturating_mul_def unat_word_ariths unat_max_word)

lemma unat_saturating_sub [rust_simps]:
  "unat (saturating_sub (a :: 'a::len word) b) = unat a - unat b"
  by (auto simp: saturating_sub_def unat_sub_if_size word_le_nat_alt)

section \<open>Facts about results\<close>

lemma bind_result_simps [simp]:
  "bind_result (Inl e) f = Inl e"
  "bind_result (Inr x) f = f x"
  by (simp_all add: bind_result_def)

lemma bind_result_eq_Inr:
  "bind_result r f = Inr y \<longleftrightarrow> (\<exists>x. r = Inr x \<and> f x = Inr y)"
  by (cases r) auto

lemma map_err_simps [simp]:
  "map_err f (Inl e) = Inl (f e)"
  "map_err f (Inr x) = Inr x"
  by (simp_all add: map_err_def)

lemma map_err_eq_Inr [simp]: "map_err f r = Inr x \<longleftrightarrow> r = Inr x"
  by (cases r) auto

section \<open>Facts about decimal numbers\<close>

lemma of_char_char_of_small: "n < 256 \<Longrightarrow> of_char (char_of n) = (n :: nat)"
  by simp

lemma digit_val_digit_char [simp]: "d < 10 \<Longrightarrow> digit_val (digit_char d) = Some d"
  by (simp add: digit_val_def digit_char_def)

lemma digits_val_append:
  "digits_val acc (xs @ ys) = (case digits_val acc xs of None \<Rightarrow> None | Some a \<Rightarrow> digits_val a ys)"
  by (induction acc xs rule: digits_val.induct) (auto split: option.splits)

lemma show_nat_nonempty [simp]: "show_nat n \<noteq> []"
  by (subst show_nat.simps) simp

lemma show_nat_digits: "c \<in> set (show_nat n) \<Longrightarrow> \<exists>d < 10. c = digit_char d"
proof (induction n arbitrary: c rule: show_nat.induct)
  case (1 n)
  show ?case
  proof (cases "n < 10")
    case True
    with "1.prems" show ?thesis by (subst (asm) show_nat.simps) auto
  next
    case False
    with "1.prems" have "c \<in> set (show_nat (n div 10)) \<or> c = digit_char (n mod 10)"
      by (subst (asm) show_nat.simps) auto
    with "1.IH"[OF False] show ?thesis by force
  qed
qed

lemma digits_val_show_nat [simp]: "digits_val 0 (show_nat n) = Some n"
proof (induction n rule: show_nat.induct)
  case (1 n)
  show ?case
  proof (cases "n < 10")
    case True
    then show ?thesis by (subst show_nat.simps) simp
  next
    case False
    with 1 show ?thesis by (subst show_nat.simps) (simp add: digits_val_append)
  qed
qed

lemma digit_char_of_nat: "d < 10 \<Longrightarrow> (of_char (digit_char d) :: nat) = 48 + d"
  by (simp add: digit_char_def)

lemma digit_char_neq:
  assumes "d < 10" and "(of_char c :: nat) < 48 \<or> 57 < (of_char c :: nat)"
  shows "digit_char d \<noteq> c"
proof
  assume "digit_char d = c"
  with assms(1) have "(of_char c :: nat) = 48 + d" by (auto simp: digit_char_of_nat)
  with assms show False by linarith
qed

text \<open>Printing and parsing a number that fits the width is the identity.\<close>

lemma parse_uint_show_nat [simp]: "n < 2 ^ w \<Longrightarrow> parse_uint w (show_nat n) = Some n"
proof -
  assume n: "n < 2 ^ w"
  obtain c r where s: "show_nat n = c # r" by (cases "show_nat n") auto
  then obtain d where "d < 10" "c = digit_char d"
    using show_nat_digits[of c n] by auto
  then have "c \<noteq> CHR ''+''" using digit_char_neq[of d "CHR ''+''"] by simp
  with s have "(case show_nat n of c # r \<Rightarrow> if c = CHR ''+'' then r else show_nat n
      | [] \<Rightarrow> show_nat n) = show_nat n"
    by simp
  with n show ?thesis
    by (simp add: parse_uint_def)
qed

lemma parse_u64_show_nat [simp]: "parse_u64 (show_nat (unat n)) = Some n"
proof -
  have "unat n < 2 ^ 64" using unsigned_less[of n, where 'a = nat] by simp
  then have "parse_uint 64 (show_nat (unat n)) = Some (unat n)" by (rule parse_uint_show_nat)
  then show ?thesis by (simp add: parse_u64_def)
qed

lemma parse_uint_bound: "parse_uint w s = Some n \<Longrightarrow> n < 2 ^ w"
  by (auto simp: parse_uint_def Let_def split: if_splits option.splits list.splits)

section \<open>Facts about trimming\<close>

lemma first_prefix_None:
  assumes "\<forall>w \<in> set ws. w \<noteq> [] \<and> hd w \<noteq> c"
  shows "first_prefix ws (c # s) = None"
proof (rule ccontr)
  assume "first_prefix ws (c # s) \<noteq> None"
  then obtain r where "first_prefix ws (c # s) = Some r" by auto
  then obtain w where "w \<in> set ws" "c # s = w @ r" using first_prefix_Some by blast
  with assms show False by (cases w) auto
qed

lemma strip_while_id:
  assumes "\<forall>w \<in> set ws. w \<noteq> [] \<and> hd w \<noteq> c"
  shows "strip_while ws (c # s) = c # s"
  using first_prefix_None[OF assms, of s] by (subst strip_while.simps) simp

lemma strip_while_Nil: "[] \<notin> set ws \<Longrightarrow> strip_while ws [] = []"
  by (subst strip_while.simps) (auto split: option.splits)

text \<open>The bytes that begin or end a white-space character.\<close>

definition ws_edge :: "char \<Rightarrow> bool" where
  "ws_edge c \<longleftrightarrow> c \<in> hd ` set unicode_white_space \<union> last ` set unicode_white_space"

lemma unicode_white_space_nonempty: "w \<in> set unicode_white_space \<Longrightarrow> w \<noteq> []"
  by (auto simp: unicode_white_space_def)

lemma trim_start_id: "\<not> ws_edge c \<Longrightarrow> trim_start (c # s) = c # s"
  unfolding trim_start_def
  by (rule strip_while_id) (auto simp: ws_edge_def dest: unicode_white_space_nonempty)

lemma trim_end_id: "\<not> ws_edge c \<Longrightarrow> trim_end (s @ [c]) = s @ [c]"
proof -
  assume "\<not> ws_edge c"
  then have "strip_while (map rev unicode_white_space) (c # rev s) = c # rev s"
    by (intro strip_while_id) (auto simp: ws_edge_def hd_rev dest: unicode_white_space_nonempty)
  then show ?thesis by (simp add: trim_end_def)
qed

lemma trim_id:
  assumes "s \<noteq> []" and "\<not> ws_edge (hd s)" and "\<not> ws_edge (last s)"
  shows "trim s = s"
proof -
  have "trim_start s = s" using assms(1,2) trim_start_id[of "hd s" "tl s"] by simp
  moreover have "trim_end s = s"
    using assms(1,3) trim_end_id[of "last s" "butlast s"] by simp
  ultimately show ?thesis by (simp add: trim_def)
qed

lemma trim_Nil [simp]: "trim [] = []"
  by (simp add: trim_def trim_start_def trim_end_def strip_while_Nil unicode_white_space_def)

lemma ws_edge_code:
  "ws_edge c \<longleftrightarrow> (of_char c :: nat) \<in> {9, 10, 11, 12, 13, 32, 0xC2, 0xE1, 0xE2, 0xE3, 0x85, 0xA0,
     0x80, 0x81, 0x82, 0x83, 0x84, 0x86, 0x87, 0x88, 0x89, 0x8A, 0xA8, 0xA9, 0xAF, 0x9F}"
proof -
  have "ws_edge c \<longleftrightarrow> of_char c \<in> (of_char :: char \<Rightarrow> nat) `
      (hd ` set unicode_white_space \<union> last ` set unicode_white_space)"
    unfolding ws_edge_def by (metis (no_types, lifting) image_iff of_char_eq_iff)
  then show ?thesis by (auto simp: unicode_white_space_def)
qed

lemma ascii_not_ws_edge:
  "32 < (of_char c :: nat) \<Longrightarrow> (of_char c :: nat) < 128 \<Longrightarrow> \<not> ws_edge c"
  by (auto simp: ws_edge_code)

lemma digit_char_not_ws_edge [simp]: "d < 10 \<Longrightarrow> \<not> ws_edge (digit_char d)"
  by (rule ascii_not_ws_edge) (simp_all add: digit_char_of_nat)

lemma show_nat_edges:
  "\<not> ws_edge (hd (show_nat n))" "\<not> ws_edge (last (show_nat n))"
proof -
  obtain d where "d < 10" "hd (show_nat n) = digit_char d"
    using show_nat_digits[of "hd (show_nat n)" n] by auto
  then show "\<not> ws_edge (hd (show_nat n))" by simp
  obtain d where "d < 10" "last (show_nat n) = digit_char d"
    using show_nat_digits[of "last (show_nat n)" n] by auto
  then show "\<not> ws_edge (last (show_nat n))" by simp
qed

lemma trim_show_nat [simp]: "trim (show_nat n) = show_nat n"
  by (rule trim_id) (simp_all add: show_nat_edges)

lemma trim_show_nat_suffix:
  "\<not> ws_edge c \<Longrightarrow> trim (show_nat n @ [c]) = show_nat n @ [c]"
  by (rule trim_id) (simp_all add: show_nat_edges hd_append)

section \<open>Facts about case\<close>

lemma to_lowercase_Nil [simp]: "to_lowercase [] = []"
  by (subst to_lowercase.simps) simp

lemma to_lowercase_Cons:
  "c \<noteq> CHR 0xE2 \<Longrightarrow> to_lowercase (c # s) = ascii_lower c # to_lowercase s"
  by (subst to_lowercase.simps) simp

text \<open>Without the lead byte of the Kelvin sign, lower case is ASCII lower case.\<close>

lemma to_lowercase_ascii: "CHR 0xE2 \<notin> set s \<Longrightarrow> to_lowercase s = to_ascii_lowercase s"
  by (induction s) (auto simp: to_lowercase_Cons to_ascii_lowercase_def)

lemma ascii_lower_idem [simp]: "ascii_lower (ascii_lower c) = ascii_lower c"
  by (auto simp: ascii_lower_def Let_def)

lemma ascii_lower_E2 [simp]: "ascii_lower c = CHR 0xE2 \<longleftrightarrow> c = CHR 0xE2"
proof
  assume *: "ascii_lower c = CHR 0xE2"
  show "c = CHR 0xE2"
  proof (cases "65 \<le> (of_char c :: nat) \<and> (of_char c :: nat) \<le> 90")
    case True
    then have "ascii_lower c = char_of ((of_char c :: nat) + 32)" by (simp add: ascii_lower_def Let_def)
    then have "(of_char (ascii_lower c) :: nat) = of_char c + 32" using True by simp
    with True * show ?thesis by simp
  next
    case False
    with * show ?thesis by (simp add: ascii_lower_def Let_def)
  qed
qed (simp add: ascii_lower_def)

lemma to_ascii_lowercase_idem [simp]:
  "to_ascii_lowercase (to_ascii_lowercase s) = to_ascii_lowercase s"
  by (simp add: to_ascii_lowercase_def)

lemma to_lowercase_to_ascii_lowercase:
  "CHR 0xE2 \<notin> set s \<Longrightarrow> to_lowercase (to_ascii_lowercase s) = to_lowercase s"
proof -
  assume s: "CHR 0xE2 \<notin> set s"
  then have "CHR 0xE2 \<notin> set (to_ascii_lowercase s)"
    by (metis (no_types, lifting) ascii_lower_E2 imageE list.set_map to_ascii_lowercase_def)
  with s show ?thesis by (simp add: to_lowercase_ascii)
qed

section \<open>Facts about splitting\<close>

lemma split_on_nonempty [simp]: "split_on c s \<noteq> []"
  by (induction c s rule: split_on.induct) (auto split: list.splits)

lemma split_on_no_sep: "c \<notin> set s \<Longrightarrow> split_on c s = [s]"
  by (induction s) auto

lemma split_on_sep: "c \<notin> set s \<Longrightarrow> split_on c (s @ c # t) = s # split_on c t"
  by (induction s) auto

lemma split_on_pieces: "p \<in> set (split_on c s) \<Longrightarrow> c \<notin> set p"
proof (induction s arbitrary: p)
  case Nil
  then show ?case by simp
next
  case (Cons x xs)
  then show ?case
    by (cases "split_on c xs") (auto split: if_splits)
qed

section \<open>Lossy decoding\<close>

text \<open>
  \<open>String::from_utf8_lossy\<close>: every maximal well-formed part is kept and every ill-formed
  one is replaced by U+FFFD. \<open>utf8_next\<close> decides the first part of a non-empty sequence:
  whether it is a character, and how many bytes it takes. Reading past the end gives 0.
\<close>

definition byte_at :: "bytes \<Rightarrow> nat \<Rightarrow> nat" where
  "byte_at bs i = (if i < length bs then of_char (bs ! i) else 0)"

definition utf8_width :: "nat \<Rightarrow> nat" where
  "utf8_width b =
     (if b < 0x80 then 1 else if 0xC2 \<le> b \<and> b \<le> 0xDF then 2
      else if 0xE0 \<le> b \<and> b \<le> 0xEF then 3 else if 0xF0 \<le> b \<and> b \<le> 0xF4 then 4 else 0)"

definition is_cont :: "nat \<Rightarrow> bool" where
  "is_cont b \<longleftrightarrow> 0x80 \<le> b \<and> b \<le> 0xBF"

definition second_ok :: "nat \<Rightarrow> nat \<Rightarrow> bool" where
  "second_ok b c \<longleftrightarrow>
     (if b = 0xE0 then 0xA0 \<le> c \<and> c \<le> 0xBF
      else if b = 0xED then 0x80 \<le> c \<and> c \<le> 0x9F
      else if b = 0xF0 then 0x90 \<le> c \<and> c \<le> 0xBF
      else if b = 0xF4 then 0x80 \<le> c \<and> c \<le> 0x8F
      else is_cont c)"

definition utf8_next :: "bytes \<Rightarrow> bool \<times> nat" where
  "utf8_next bs =
     (let b = byte_at bs 0; w = utf8_width b in
      if w = 1 then (True, 1)
      else if w = 0 then (False, 1)
      else if \<not> second_ok b (byte_at bs 1) then (False, 1)
      else if w = 2 then (True, 2)
      else if \<not> is_cont (byte_at bs 2) then (False, 2)
      else if w = 3 then (True, 3)
      else if \<not> is_cont (byte_at bs 3) then (False, 3)
      else (True, 4))"

definition replacement_char :: bytes where
  "replacement_char = [CHR 0xEF, CHR 0xBF, CHR 0xBD]"

function from_utf8_lossy :: "bytes \<Rightarrow> bytes" where
  "from_utf8_lossy [] = []"
| "from_utf8_lossy (c # cs) =
     (if fst (utf8_next (c # cs)) then take (snd (utf8_next (c # cs))) (c # cs)
      else replacement_char) @
     from_utf8_lossy (drop (snd (utf8_next (c # cs)) - 1) cs)"
  by pat_completeness auto

termination
  by (relation "measure length") auto

lemma from_utf8_lossy_ascii:
  "\<forall>c \<in> set bs. (of_char c :: nat) < 128 \<Longrightarrow> from_utf8_lossy bs = bs"
  by (induction bs rule: from_utf8_lossy.induct)
    (simp_all add: utf8_next_def byte_at_def utf8_width_def Let_def)

end
