(* ===== verification/Admission.thy ===== *)
theory Admission
  imports Akiro_Prelude
begin

text \<open>
  Memory-aware admission control, \<open>src/sandbox/admission.rs\<close>: the parsing of the
  deployment limits from environment variables, the number of 256 MB units of a sandbox,
  and the gate that every \<open>Sandbox::execute\<close> passes.

  The process environment (\<open>std::env::var\<close>) is an argument \<open>env\<close> of the definitions
  that read it; the \<open>OnceLock\<close> caches make it one fixed map. The tokio semaphore is not
  part of the repository: the locale \<open>semaphore\<close> states its documented contract, and
  the gate's step relation takes its operations as arguments.
\<close>

section \<open>Limits from the environment\<close>

definition BASE_UNIT_BYTES :: u64 where
  "BASE_UNIT_BYTES = 256 * 1024 * 1024"

definition DEFAULT_BUDGET_BYTES :: u64 where
  "DEFAULT_BUDGET_BYTES = 768 * 1024 * 1024"

definition DEFAULT_MAX_JOB_BYTES :: u64 where
  "DEFAULT_MAX_JOB_BYTES = 512 * 1024 * 1024"

definition DEFAULT_COMPILE_BYTES :: u64 where
  "DEFAULT_COMPILE_BYTES = 512 * 1024 * 1024"

definition parse_bytes :: "string \<Rightarrow> u64 option" where
  "parse_bytes s0 =
     (let s = trim s0 in
      if s = [] then None
      else
        let lst = ascii_lower (last s);
            (num, mult) =
              (if lst = CHR ''k'' then (butlast s, 1024)
               else if lst = CHR ''m'' then (butlast s, 1024 * 1024)
               else if lst = CHR ''g'' then (butlast s, 1024 * 1024 * 1024)
               else (s, 1))
        in map_option (\<lambda>n. saturating_mul n mult) (parse_u64 (trim num)))"

definition env_bytes :: "env \<Rightarrow> string \<Rightarrow> u64 \<Rightarrow> u64" where
  "env_bytes env key dflt =
     (case Option.bind (env key) parse_bytes of Some n \<Rightarrow> n | None \<Rightarrow> dflt)"

definition total_units :: "env \<Rightarrow> usize" where
  "total_units env =
     (let budget = env_bytes env ''JUDGE_MEM_BUDGET_BYTES'' DEFAULT_BUDGET_BYTES
      in max (budget div BASE_UNIT_BYTES) 1)"

definition units_for :: "env \<Rightarrow> u64 \<Rightarrow> u32" where
  "units_for env mem_bytes =
     (let units = max ((mem_bytes + BASE_UNIT_BYTES - 1) div BASE_UNIT_BYTES) 1
      in ucast (min units (total_units env)))"

definition max_job_memory_bytes :: "env \<Rightarrow> u64" where
  "max_job_memory_bytes env = env_bytes env ''JUDGE_MAX_MEMORY_BYTES'' DEFAULT_MAX_JOB_BYTES"

definition compile_memory_bytes :: "env \<Rightarrow> u64" where
  "compile_memory_bytes env = env_bytes env ''JUDGE_COMPILE_MEMORY_BYTES'' DEFAULT_COMPILE_BYTES"

definition DEFAULT_RUN_CPU_PERCENT :: u32 where
  "DEFAULT_RUN_CPU_PERCENT = 100"

definition DEFAULT_COMPILE_CPU_PERCENT :: u32 where
  "DEFAULT_COMPILE_CPU_PERCENT = 200"

definition env_cpu_percent :: "env \<Rightarrow> string \<Rightarrow> u32 \<Rightarrow> u32 option" where
  "env_cpu_percent env key dflt =
     (case env key of
        None \<Rightarrow> Some dflt
      | Some raw \<Rightarrow>
          let t = to_ascii_lowercase (trim raw) in
          if t = [] then Some dflt
          else if t \<in> {''0'', ''off'', ''none'', ''unlimited'', ''max''} then None
          else let p = (case parse_u32 t of Some n \<Rightarrow> n | None \<Rightarrow> dflt)
               in if p > 0 then Some p else None)"

definition run_cpu_max_percent :: "env \<Rightarrow> u32 option" where
  "run_cpu_max_percent env = env_cpu_percent env ''JUDGE_CPU_MAX_PERCENT'' DEFAULT_RUN_CPU_PERCENT"

definition compile_cpu_max_percent :: "env \<Rightarrow> u32 option" where
  "compile_cpu_max_percent env =
     env_cpu_percent env ''JUDGE_COMPILE_CPU_MAX_PERCENT'' DEFAULT_COMPILE_CPU_PERCENT"

section \<open>The gate\<close>

text \<open>
  The tokio semaphore behind \<open>budget()\<close>. It is documented to be fair: permits are given out in
  the order they were requested, and a request at the front that asks for more than there is
  holds up those behind it. So the gate keeps the executions that wait in the order of their
  arrival, and \<open>acquire n s\<close> is the outcome of \<open>acquire_many_owned(n)\<close> for the one at the front
  (\<open>None\<close>: it keeps waiting); \<open>release n s\<close> is the drop of a permit for \<open>n\<close> units.
\<close>

locale semaphore =
  fixes permits :: "'s \<Rightarrow> nat"
    and acquire :: "nat \<Rightarrow> 's \<Rightarrow> 's option"
    and release :: "nat \<Rightarrow> 's \<Rightarrow> 's"
  assumes acquire_Some: "acquire n s = Some s' \<Longrightarrow> n \<le> permits s \<and> permits s' + n = permits s"
    and acquire_enabled: "n \<le> permits s \<Longrightarrow> \<exists>s'. acquire n s = Some s'"
    and permits_release: "permits (release n s) = permits s + n"

text \<open>
  The gate's state: the semaphore, and the memory limits of the executions that wait and of those
  that are inside \<open>Sandbox::execute\<close> past the admission (holding \<open>_permit\<close>). An execution arrives
  when it is started, enters when it is first in line and its acquire succeeds, and leaves when
  the function returns and \<open>_permit\<close> is dropped.
\<close>

record 's gate =
  gate_sem :: 's
  gate_waiting :: "u64 list"
  gate_inside :: "u64 list"

datatype gate_event = Arrive u64 | Enter u64 | Leave u64

inductive gate_step ::
  "env \<Rightarrow> (nat \<Rightarrow> 's \<Rightarrow> 's option) \<Rightarrow> (nat \<Rightarrow> 's \<Rightarrow> 's) \<Rightarrow> 's gate \<Rightarrow> gate_event \<Rightarrow> 's gate \<Rightarrow> bool"
  for env acquire release where
  arrive: "gate_step env acquire release g (Arrive mem) (g\<lparr>gate_waiting := gate_waiting g @ [mem]\<rparr>)"
| enter: "gate_waiting g = mem # behind \<Longrightarrow>
    acquire (unat (units_for env mem)) (gate_sem g) = Some sem' \<Longrightarrow>
    gate_step env acquire release g (Enter mem)
      \<lparr> gate_sem = sem', gate_waiting = behind, gate_inside = mem # gate_inside g \<rparr>"
| leave: "mem \<in> set (gate_inside g) \<Longrightarrow>
    gate_step env acquire release g (Leave mem)
      (g\<lparr>gate_sem := release (unat (units_for env mem)) (gate_sem g),
         gate_inside := remove1 mem (gate_inside g)\<rparr>)"

inductive_cases gate_stepE: "gate_step env acquire release g ev h"

text \<open>The runs of the gate, with their events.\<close>

inductive gate_run ::
  "env \<Rightarrow> (nat \<Rightarrow> 's \<Rightarrow> 's option) \<Rightarrow> (nat \<Rightarrow> 's \<Rightarrow> 's) \<Rightarrow> 's gate \<Rightarrow> gate_event list \<Rightarrow> 's gate \<Rightarrow> bool"
  for env acquire release where
  run_start: "gate_run env acquire release g [] g"
| run_step: "gate_run env acquire release g evs h \<Longrightarrow> gate_step env acquire release h ev k \<Longrightarrow>
    gate_run env acquire release g (evs @ [ev]) k"

definition gate_new :: "'s \<Rightarrow> 's gate" where
  "gate_new s = \<lparr> gate_sem = s, gate_waiting = [], gate_inside = [] \<rparr>"

fun arrival :: "gate_event \<Rightarrow> u64 option" where
  "arrival (Arrive mem) = Some mem"
| "arrival _ = None"


definition units_inside :: "env \<Rightarrow> 's gate \<Rightarrow> nat" where
  "units_inside env g = (\<Sum>mem \<leftarrow> gate_inside g. unat (units_for env mem))"

section \<open>Facts about parsing\<close>

lemma last_show_nat_lower: "ascii_lower (last (show_nat n)) \<notin> {CHR ''k'', CHR ''m'', CHR ''g''}"
proof -
  obtain d where "d < 10" "last (show_nat n) = digit_char d"
    using show_nat_digits[of "last (show_nat n)" n] by auto
  then have "ascii_lower (last (show_nat n)) = digit_char d"
    by (simp add: ascii_lower_def digit_char_of_nat)
  then show ?thesis using \<open>d < 10\<close>
    by (auto simp: digit_char_neq[of d "CHR ''k''"] digit_char_neq[of d "CHR ''m''"]
        digit_char_neq[of d "CHR ''g''"])
qed

lemma parse_bytes_plain: "parse_bytes (show_nat (unat n)) = Some n"
  using last_show_nat_lower[of "unat n"]
  by (simp add: parse_bytes_def Let_def saturating_mul_def)

text \<open>A suffix letter, of either case, multiplies by its power of 1024, saturating.\<close>

lemma parse_bytes_suffix:
  assumes "\<not> ws_edge c" and "ascii_lower c \<in> {CHR ''k'', CHR ''m'', CHR ''g''}"
  shows "parse_bytes (show_nat (unat n) @ [c]) = Some (saturating_mul n
    (if ascii_lower c = CHR ''k'' then 1024 else if ascii_lower c = CHR ''m'' then 1024 * 1024
     else 1024 * 1024 * 1024))"
  using assms by (auto simp: parse_bytes_def Let_def trim_show_nat_suffix)

lemma env_cpu_percent_pos:
  "dflt > 0 \<Longrightarrow> env_cpu_percent env key dflt = Some p \<Longrightarrow> p > 0"
  by (auto simp: env_cpu_percent_def Let_def split: option.splits if_splits)

lemma lower_units:
  "ascii_lower (CHR ''k'') = CHR ''k''" "ascii_lower (CHR ''K'') = CHR ''k''"
  "ascii_lower (CHR ''m'') = CHR ''m''" "ascii_lower (CHR ''M'') = CHR ''m''"
  "ascii_lower (CHR ''g'') = CHR ''g''" "ascii_lower (CHR ''G'') = CHR ''g''"
  by code_simp+

section \<open>Facts about the units of a sandbox\<close>

lemma unat_BASE_UNIT [simp]: "unat BASE_UNIT_BYTES = 268435456"
  by (simp add: BASE_UNIT_BYTES_def)

lemma total_units_pos: "1 \<le> unat (total_units env)"
  by (simp add: total_units_def Let_def max_def word_le_nat_alt)

lemma unat_max: "unat (max a b) = max (unat a) (unat b)"
  by (simp add: max_def word_le_nat_alt)

lemma unat_min: "unat (min a b) = min (unat a) (unat b)"
  by (simp add: min_def word_le_nat_alt)

lemma unat_total_units:
  "unat (total_units env) =
     max (unat (env_bytes env ''JUDGE_MEM_BUDGET_BYTES'' DEFAULT_BUDGET_BYTES) div 268435456) 1"
  by (simp add: total_units_def Let_def unat_max unat_div_distrib)

lemma unat_units_for:
  assumes small: "unat (total_units env) < 2 ^ 32"
    and no_wrap: "unat mem + 268435455 < 2 ^ 64"
  shows "unat (units_for env mem) =
    min (max ((unat mem + 268435455) div 268435456) 1) (unat (total_units env))"
proof -
  let ?u = "min (max ((mem + BASE_UNIT_BYTES - 1) div BASE_UNIT_BYTES) 1) (total_units env)"
  have base: "mem + BASE_UNIT_BYTES - 1 = mem + 268435455"
    unfolding BASE_UNIT_BYTES_def by (simp add: algebra_simps)
  have "unat (mem + 268435455) = unat mem + 268435455"
    using no_wrap by (simp add: unat_word_ariths)
  then have "unat (mem + BASE_UNIT_BYTES - 1) = unat mem + 268435455"
    by (simp only: base)
  then have u: "unat ?u = min (max ((unat mem + 268435455) div 268435456) 1) (unat (total_units env))"
    by (simp add: unat_min unat_max unat_div_distrib)
  then have "unat ?u < 2 ^ 32" using small by simp
  then have "unat (ucast ?u :: u32) = unat ?u" by (simp add: unsigned_ucast_eq take_bit_nat_eq_self)
  then show ?thesis by (simp add: units_for_def Let_def u)
qed

lemma units_for_le_total: "unat (units_for env mem) \<le> unat (total_units env)"
proof -
  let ?u = "min (max ((mem + BASE_UNIT_BYTES - 1) div BASE_UNIT_BYTES) 1) (total_units env)"
  have "unat (ucast ?u :: u32) \<le> unat ?u" by (simp add: unsigned_ucast_eq)
  also have "\<dots> \<le> unat (total_units env)" by (simp add: unat_min)
  finally show ?thesis by (simp add: units_for_def Let_def)
qed

lemma units_for_pos:
  assumes "unat (total_units env) < 2 ^ 32" and "unat mem + 268435455 < 2 ^ 64"
  shows "1 \<le> unat (units_for env mem)"
  using total_units_pos[of env] by (simp add: unat_units_for[OF assms])

text \<open>Within the budget, a sandbox's units cover its memory limit.\<close>

lemma units_for_covers:
  assumes small: "unat (total_units env) < 2 ^ 32"
    and fits: "unat mem \<le> unat (total_units env) * 268435456"
  shows "unat mem \<le> unat (units_for env mem) * 268435456"
proof -
  have "unat mem + 268435455 < 2 ^ 64" using small fits by simp
  then have "unat (units_for env mem) =
      min (max ((unat mem + 268435455) div 268435456) 1) (unat (total_units env))"
    using small by (rule unat_units_for[rotated])
  moreover have "unat mem \<le> (unat mem + 268435455) div 268435456 * 268435456" by linarith
  ultimately show ?thesis using fits by (auto simp: min_def max_def)
qed

section \<open>Facts about the gate\<close>



context semaphore
begin

lemma gate_step_permits:
  assumes "gate_step env acquire release g ev h"
  shows "permits (gate_sem h) + units_inside env h = permits (gate_sem g) + units_inside env g"
  using assms
proof (cases rule: gate_step.cases)
  case (enter mem behind sem')
  with acquire_Some[OF enter(4)] show ?thesis by (simp add: units_inside_def)
next
  case (leave mem)
  then show ?thesis
    by (simp add: units_inside_def permits_release sum_list_map_remove1[of mem "gate_inside g"])
qed (simp add: units_inside_def)

lemma gate_permits:
  assumes "gate_run env acquire release (gate_new s0) evs g"
  shows "permits (gate_sem g) + units_inside env g = permits s0"
proof -
  have "permits (gate_sem h) + units_inside env h = permits (gate_sem g) + units_inside env g"
    if "gate_run env acquire release g evs h" for g h
    using that by induction (auto dest: gate_step_permits)
  from this[OF assms] show ?thesis by (simp add: gate_new_def units_inside_def)
qed

lemma gate_memory:
  assumes run: "gate_run env acquire release (gate_new s0) evs h"
    and start: "permits s0 = unat (total_units env)"
    and small: "unat (total_units env) < 2 ^ 32"
    and fits: "\<forall>mem \<in> set (gate_inside h). unat mem \<le> unat (total_units env) * 268435456"
  shows "(\<Sum>mem \<leftarrow> gate_inside h. unat mem) \<le> unat (total_units env) * 268435456"
proof -
  have "(\<Sum>mem \<leftarrow> gate_inside h. unat mem) \<le>
      (\<Sum>mem \<leftarrow> gate_inside h. unat (units_for env mem) * 268435456)"
    using fits small by (intro sum_list_mono) (auto intro: units_for_covers)
  also have "\<dots> = units_inside env h * 268435456"
    by (simp add: units_inside_def sum_list_mult_const)
  also have "\<dots> \<le> unat (total_units env) * 268435456"
    using gate_permits[OF run] start by simp
  finally show ?thesis .
qed

text \<open>As long as an execution waits, one can enter or leave.\<close>

lemma gate_progress:
  assumes run: "gate_run env acquire release (gate_new s0) evs g"
    and start: "permits s0 = unat (total_units env)" and waits: "gate_waiting g = mem # behind"
  shows "\<exists>ev h. gate_step env acquire release g ev h \<and> arrival ev = None"
proof (cases "gate_inside g")
  case Nil
  then have "permits (gate_sem g) = unat (total_units env)"
    using gate_permits[OF run] start by (simp add: units_inside_def)
  then obtain sem' where "acquire (unat (units_for env mem)) (gate_sem g) = Some sem'"
    using acquire_enabled units_for_le_total by metis
  from gate_step.enter[OF waits, of acquire env, OF this] show ?thesis using arrival.simps(2) by blast
next
  case (Cons m ms)
  then have "m \<in> set (gate_inside g)" by simp
  from gate_step.leave[OF this] show ?thesis using arrival.simps(3) by blast
qed

end

text \<open>
  The counting semaphore, the instance the witnesses run the gate on: its state is the
  number of free permits.
\<close>

definition count_acquire :: "nat \<Rightarrow> nat \<Rightarrow> nat option" where
  "count_acquire n s = (if n \<le> s then Some (s - n) else None)"

interpretation counting: semaphore "\<lambda>s. s" count_acquire "(+)"
  by unfold_locales (auto simp: count_acquire_def split: if_splits)

section \<open>Facts about the budget\<close>

lemma total_bytes_le_budget:
  "unat (total_units env) * 268435456 \<le>
     max (unat (env_bytes env ''JUDGE_MEM_BUDGET_BYTES'' DEFAULT_BUDGET_BYTES)) 268435456"
  by (simp add: unat_total_units max_def)

lemma counting_fits: "unat (total_units (\<lambda>_. None)) = 3"
  by (simp add: unat_total_units env_bytes_def DEFAULT_BUDGET_BYTES_def)

section \<open>Properties\<close>

text \<open>
  C27: the admission gate keeps the memory of concurrent sandboxes within the budget. In every
  state the gate can reach, with any semaphore that meets the contract, the memory limits of
  the executions inside sum up to at most the configured budget (or one unit of 256 MiB
  where the budget is smaller), provided each single limit is within the units of the budget.
\<close>

theorem admission_budget:
  assumes sem: "semaphore permits acquire release"
    and run: "gate_run env acquire release (gate_new s0) evs g"
    and start: "permits s0 = unat (total_units env)"
    and small: "unat (total_units env) < 2 ^ 32"
    and fits: "\<forall>mem \<in> set (gate_inside g). unat mem \<le> unat (total_units env) * 268435456"
  shows "(\<Sum>mem \<leftarrow> gate_inside g. unat mem) \<le>
    max (unat (env_bytes env ''JUDGE_MEM_BUDGET_BYTES'' DEFAULT_BUDGET_BYTES)) 268435456"
  using semaphore.gate_memory[OF sem run start small fits] total_bytes_le_budget[of env] by simp

lemma sample_gate_run:
  "gate_run (\<lambda>_. None) count_acquire (+) (gate_new 3) [Arrive 536870912, Arrive 536870912, Enter 536870912]
     \<lparr> gate_sem = 1, gate_waiting = [536870912], gate_inside = [536870912] \<rparr>"
proof -
  have units: "unat (units_for (\<lambda>_. None) 536870912) = 2"
    using unat_units_for[of "\<lambda>_. None" 536870912] by (simp add: counting_fits)
  let ?step = "gate_step (\<lambda>_. None) count_acquire (+)"
  let ?g1 = "\<lparr> gate_sem = 3 :: nat, gate_waiting = [536870912 :: u64], gate_inside = [] \<rparr>"
  let ?g2 = "\<lparr> gate_sem = 3 :: nat, gate_waiting = [536870912 :: u64, 536870912], gate_inside = [] \<rparr>"
  have 1: "?step (gate_new 3) (Arrive 536870912) ?g1"
    using gate_step.arrive[of "\<lambda>_. None" count_acquire "(+)" "gate_new 3"] by (simp add: gate_new_def)
  have 2: "?step ?g1 (Arrive 536870912) ?g2"
    using gate_step.arrive[of "\<lambda>_. None" count_acquire "(+)" ?g1] by simp
  have 3: "?step ?g2 (Enter 536870912) \<lparr> gate_sem = 1, gate_waiting = [536870912], gate_inside = [536870912] \<rparr>"
    using gate_step.enter[of ?g2 536870912 "[536870912]" count_acquire "\<lambda>_. None" 1 "(+)"]
    by (simp add: units count_acquire_def)
  show ?thesis
    using run_step[OF run_step[OF run_step[OF run_start 1] 2] 3] by simp
qed

theorem admission_budget_witness:
  "\<exists>g evs. gate_run (\<lambda>_. None) count_acquire (+) (gate_new 3) evs g \<and>
     gate_inside g = [536870912] \<and> (\<Sum>mem \<leftarrow> gate_inside g. unat mem) \<le> 805306368"
proof -
  have start: "(3 :: nat) = unat (total_units (\<lambda>_. None))" by (simp add: counting_fits)
  show ?thesis
    using admission_budget[OF counting.semaphore_axioms sample_gate_run start] sample_gate_run
    by (intro exI conjI[rotated]) (auto simp: counting_fits env_bytes_def DEFAULT_BUDGET_BYTES_def)
qed



text \<open>
  The rounding of a memory limit wraps. A limit within 256 MiB of \<open>2^64\<close> is admitted as
  a single unit, the smallest request, instead of the whole budget.
\<close>

lemma units_for_wraps:
  assumes "2 ^ 64 \<le> unat mem + 268435455"
  shows "units_for env mem = 1"
proof -
  have base: "mem + BASE_UNIT_BYTES - 1 = mem + 268435455"
    unfolding BASE_UNIT_BYTES_def by (simp add: algebra_simps)
  have "unat mem < 2 ^ 64" using unat_u64_less[of mem] by simp
  moreover have "(268435455 :: nat) < 2 ^ 64" by simp
  ultimately have "unat mem + 268435455 - 2 ^ 64 < 2 ^ 64" using assms by linarith
  then have "(unat mem + 268435455) mod 2 ^ 64 = unat mem + 268435455 - 2 ^ 64"
    using assms by (simp only: le_mod_geq mod_less)
  moreover have "unat (mem + 268435455) = (unat mem + 268435455) mod 2 ^ 64"
    by (simp add: unat_word_ariths)
  ultimately have "unat (mem + 268435455) < 268435456"
    using \<open>unat mem < 2 ^ 64\<close> by linarith
  then have "unat ((mem + BASE_UNIT_BYTES - 1) div BASE_UNIT_BYTES) = 0"
    unfolding base by (simp add: unat_div_distrib)
  then have "(mem + BASE_UNIT_BYTES - 1) div BASE_UNIT_BYTES = 0" by (simp add: unat_eq_zero)
  moreover have "min 1 (total_units env) = 1"
    using total_units_pos[of env] by (simp add: min_def word_le_nat_alt)
  ultimately show ?thesis by (simp add: units_for_def max_def)
qed

lemma units_for_wraps_witness: "units_for (\<lambda>_. None) (- 1) = 1"
  by (rule units_for_wraps) (simp add: unsigned_minus_1_eq_mask mask_eq_exp_minus_1)

text \<open>
  A memory size written as a number with an optional unit letter is read as that number
  times the unit, saturating at \<open>2^64 - 1\<close>, and a plain number is read as itself.
\<close>

lemma parse_bytes_unit:
  "parse_bytes (show_nat (unat n)) = Some n \<and>
   (c \<in> {CHR ''k'', CHR ''K''} \<longrightarrow>
      parse_bytes (show_nat (unat n) @ [c]) = Some (saturating_mul n 1024)) \<and>
   (c \<in> {CHR ''m'', CHR ''M''} \<longrightarrow>
      parse_bytes (show_nat (unat n) @ [c]) = Some (saturating_mul n (1024 * 1024))) \<and>
   (c \<in> {CHR ''g'', CHR ''G''} \<longrightarrow>
      parse_bytes (show_nat (unat n) @ [c]) = Some (saturating_mul n (1024 * 1024 * 1024)))"
  using parse_bytes_plain[of n] parse_bytes_suffix[of c n]
  by (auto simp: ws_edge_code lower_units)

lemma parse_bytes_unit_witness:
  "parse_bytes (show_nat (unat (768 :: u64)) @ ''m'') = Some (saturating_mul 768 (1024 * 1024))"
  using parse_bytes_unit[of 768 "CHR ''m''"] by blast

end
