(* ===== verification/Job.thy ===== *)
theory Job
  imports Akiro_Prelude
begin

text \<open>
  Submissions and their results, \<open>src/orchestrator/job.rs\<close>: the request and result
  records, the verdicts, the progress events and \<open>JobRequest::validate\<close>. The random
  identifier of \<open>Uuid::new_v4()\<close> is an argument of the definitions that make one.
\<close>

section \<open>Data\<close>

record TestCase =
  input :: string
  expected_output :: "string option"

record JobRequest =
  job_id :: string
  language :: string
  source_code :: string
  time_limit_ms :: u64
  memory_limit_bytes :: u64
  test_cases :: "TestCase list"
  stop_on_first_fail :: "bool option"

definition default_time_limit_ms :: u64 where
  "default_time_limit_ms = 2000"

definition default_memory_limit_bytes :: u64 where
  "default_memory_limit_bytes = 256 * 1024 * 1024"

definition MAX_TEST_CASES :: nat where
  "MAX_TEST_CASES = 100"

definition MAX_TESTCASE_BYTES :: nat where
  "MAX_TESTCASE_BYTES = 512 * 1024"

definition MAX_SOURCE_BYTES :: nat where
  "MAX_SOURCE_BYTES = 1024 * 1024"

definition MAX_TIME_LIMIT_MS :: u64 where
  "MAX_TIME_LIMIT_MS = 60000"

definition MAX_MEMORY_LIMIT_BYTES :: u64 where
  "MAX_MEMORY_LIMIT_BYTES = 2 * 1024 * 1024 * 1024"

definition new_request ::
  "string \<Rightarrow> string \<Rightarrow> string \<Rightarrow> u64 \<Rightarrow> u64 \<Rightarrow> TestCase list \<Rightarrow> JobRequest" where
  "new_request uuid lang src tlim mlim tcs =
     \<lparr> job_id = uuid, language = lang, source_code = src, time_limit_ms = tlim,
       memory_limit_bytes = mlim, test_cases = tcs, stop_on_first_fail = None \<rparr>"

datatype JudgeVerdict =
    Accepted
  | WrongAnswer
  | TimeLimitExceeded
  | MemoryLimitExceeded
  | RuntimeError
  | CompilationError

datatype ProgressEvent =
    Compiling
  | Running nat nat
  | TestResult nat JudgeVerdict u64 u64
  | Finished JudgeVerdict

record TestCaseResult =
  test_case_index :: nat
  status :: JudgeVerdict
  cpu_time_ms :: u64
  memory_kb :: u64
  stdout :: bytes
  stderr :: bytes

record JobResult =
  job_id :: string
  verdict :: JudgeVerdict
  total_cpu_time_ms :: u64
  peak_memory_kb :: u64
  compile_output :: "string option"
  test_results :: "TestCaseResult list"

definition compilation_error :: "string \<Rightarrow> string \<Rightarrow> JobResult" where
  "compilation_error jid msg =
     \<lparr> JobResult.job_id = jid, verdict = CompilationError, total_cpu_time_ms = 0,
       peak_memory_kb = 0, compile_output = Some msg, test_results = [] \<rparr>"

section \<open>Validation\<close>

text \<open>The loop over the test cases: the index counts from 0.\<close>

fun validate_test_cases :: "nat \<Rightarrow> TestCase list \<Rightarrow> string + unit" where
  "validate_test_cases i [] = Inr ()"
| "validate_test_cases i (tc # tcs) =
     (if length (input tc) > MAX_TESTCASE_BYTES
      then Inl (''test case '' @ show_nat i @ '' input is '' @ show_nat (length (input tc)) @
                '' bytes (max '' @ show_nat MAX_TESTCASE_BYTES @ '')'')
      else (case expected_output tc of
              Some expected \<Rightarrow>
                if length expected > MAX_TESTCASE_BYTES
                then Inl (''test case '' @ show_nat i @ '' expected_output is '' @
                          show_nat (length expected) @ '' bytes (max '' @
                          show_nat MAX_TESTCASE_BYTES @ '')'')
                else validate_test_cases (Suc i) tcs
            | None \<Rightarrow> validate_test_cases (Suc i) tcs))"

definition validate :: "JobRequest \<Rightarrow> string + unit" where
  "validate r =
     (if length (source_code r) > MAX_SOURCE_BYTES
      then Inl (''source_code is '' @ show_nat (length (source_code r)) @ '' bytes (max '' @
                show_nat MAX_SOURCE_BYTES @ '')'')
      else if test_cases r = []
      then Inl ''at least one test case is required''
      else if length (test_cases r) > MAX_TEST_CASES
      then Inl (''too many test cases: '' @ show_nat (length (test_cases r)) @ '' (max '' @
                show_nat MAX_TEST_CASES @ '')'')
      else bind_result (validate_test_cases 0 (test_cases r)) (\<lambda>_.
        if time_limit_ms r = 0 \<or> time_limit_ms r > MAX_TIME_LIMIT_MS
        then Inl (''time_limit_ms '' @ show_nat (unat (time_limit_ms r)) @ '' out of range (1..='' @
                  show_nat (unat MAX_TIME_LIMIT_MS) @ '')'')
        else if memory_limit_bytes r = 0 \<or> memory_limit_bytes r > MAX_MEMORY_LIMIT_BYTES
        then Inl (''memory_limit_bytes '' @ show_nat (unat (memory_limit_bytes r)) @
                  '' out of range (1..='' @ show_nat (unat MAX_MEMORY_LIMIT_BYTES) @ '')'')
        else Inr ()))"

section \<open>What validation accepts\<close>

text \<open>The limits a request has to be within, as one predicate.\<close>

definition within_limits :: "JobRequest \<Rightarrow> bool" where
  "within_limits r \<longleftrightarrow>
     length (source_code r) \<le> MAX_SOURCE_BYTES \<and>
     test_cases r \<noteq> [] \<and> length (test_cases r) \<le> MAX_TEST_CASES \<and>
     (\<forall>tc \<in> set (test_cases r). length (input tc) \<le> MAX_TESTCASE_BYTES \<and>
        (\<forall>e. expected_output tc = Some e \<longrightarrow> length e \<le> MAX_TESTCASE_BYTES)) \<and>
     1 \<le> unat (time_limit_ms r) \<and> unat (time_limit_ms r) \<le> 60000 \<and>
     1 \<le> unat (memory_limit_bytes r) \<and> unat (memory_limit_bytes r) \<le> 2147483648"

lemma validate_test_cases_ok:
  "validate_test_cases i tcs = Inr () \<longleftrightarrow>
     (\<forall>tc \<in> set tcs. length (input tc) \<le> MAX_TESTCASE_BYTES \<and>
        (\<forall>e. expected_output tc = Some e \<longrightarrow> length e \<le> MAX_TESTCASE_BYTES))"
  by (induction i tcs rule: validate_test_cases.induct) (auto split: option.splits)

lemma validate_ok_iff: "validate r = Inr () \<longleftrightarrow> within_limits r"
proof -
  have "time_limit_ms r = 0 \<or> time_limit_ms r > MAX_TIME_LIMIT_MS \<longleftrightarrow>
      \<not> (1 \<le> unat (time_limit_ms r) \<and> unat (time_limit_ms r) \<le> 60000)"
    by (auto simp: MAX_TIME_LIMIT_MS_def word_less_nat_alt Suc_0_le_unat)
  moreover have "memory_limit_bytes r = 0 \<or> memory_limit_bytes r > MAX_MEMORY_LIMIT_BYTES \<longleftrightarrow>
      \<not> (1 \<le> unat (memory_limit_bytes r) \<and> unat (memory_limit_bytes r) \<le> 2147483648)"
    by (auto simp: MAX_MEMORY_LIMIT_BYTES_def word_less_nat_alt Suc_0_le_unat)
  ultimately show ?thesis
    unfolding validate_def within_limits_def
    by (simp add: bind_result_eq_Inr validate_test_cases_ok not_less not_le)
qed

section \<open>Properties\<close>

text \<open>
  Validation accepts exactly the requests within all limits: source size, number of
  test cases (at least one), size of every input and expected output, and the ranges of the
  time and the memory limit.
\<close>

lemma validate_exact: "validate r = Inr () \<longleftrightarrow> within_limits r"
  by (rule validate_ok_iff)

end
