(* ===== verification/Sandbox_Config.thy ===== *)
theory Sandbox_Config
  imports Akiro_Prelude
begin

text \<open>
  The sandbox configuration of \<open>src/sandbox/config.rs\<close>: the record
  \<open>SandboxConfig\<close>, its three constructors and its builder methods. The pipeline and the
  language runners build every configuration with these, so the equations of the builders
  (collection \<open>builder_simps\<close>) carry the proofs about what a sandbox is started with.
\<close>

section \<open>Data\<close>

datatype ExecutionProfile = Compile | Run

record SandboxConfig =
  executable_path :: path
  args :: "string list"
  stdin_data :: "bytes option"
  time_limit_ms :: u64
  wall_time_limit_ms :: u64
  memory_limit_bytes :: u64
  max_output_bytes :: usize
  work_dir :: "path option"
  profile :: ExecutionProfile
  pids_limit :: u32
  cpu_max_percent :: "u32 option"
  enable_network_isolation :: bool
  enable_fs_isolation :: bool
  workspace_dir :: "path option"
  fs_readonly_paths :: "path list"
  fs_workdir_size_bytes :: u64
  jail_id :: string

section \<open>Constructors\<close>

definition new_config :: "path \<Rightarrow> SandboxConfig" where
  "new_config p =
     \<lparr> executable_path = p, args = [], stdin_data = None,
       time_limit_ms = 1000, wall_time_limit_ms = 3000,
       memory_limit_bytes = 256 * 1024 * 1024, max_output_bytes = 10 * 1024 * 1024,
       work_dir = None, profile = Run, pids_limit = 128, cpu_max_percent = None,
       enable_network_isolation = True, enable_fs_isolation = True, workspace_dir = None,
       fs_readonly_paths = [''/usr'', ''/lib'', ''/lib64'', ''/bin'', ''/etc/alternatives''],
       fs_workdir_size_bytes = 16 * 1024 * 1024, jail_id = [] \<rparr>"

definition compile_config :: "path \<Rightarrow> path \<Rightarrow> SandboxConfig" where
  "compile_config p wd =
     \<lparr> executable_path = p, args = [], stdin_data = None,
       time_limit_ms = 15000, wall_time_limit_ms = 30000,
       memory_limit_bytes = 1024 * 1024 * 1024, max_output_bytes = 10 * 1024 * 1024,
       work_dir = Some wd, profile = Compile, pids_limit = 128, cpu_max_percent = None,
       enable_network_isolation = False, enable_fs_isolation = False, workspace_dir = Some wd,
       fs_readonly_paths = [], fs_workdir_size_bytes = 0, jail_id = [] \<rparr>"

text \<open>The wall-clock limit of a run: twice the CPU limit and a second, saturating.\<close>

definition wall_time_for :: "u64 \<Rightarrow> u64" where
  "wall_time_for ms = saturating_add (saturating_mul ms 2) 1000"

definition run_config :: "path \<Rightarrow> path \<Rightarrow> u64 \<Rightarrow> u64 \<Rightarrow> u32 \<Rightarrow> SandboxConfig" where
  "run_config p ws tlim ml pids =
     \<lparr> executable_path = p, args = [], stdin_data = None,
       time_limit_ms = tlim, wall_time_limit_ms = wall_time_for tlim,
       memory_limit_bytes = ml, max_output_bytes = 10 * 1024 * 1024,
       work_dir = Some ''/sandbox'', profile = Run, pids_limit = pids, cpu_max_percent = None,
       enable_network_isolation = True, enable_fs_isolation = True, workspace_dir = Some ws,
       fs_readonly_paths = [''/usr'', ''/lib'', ''/lib64'', ''/bin'', ''/etc/alternatives''],
       fs_workdir_size_bytes = 16 * 1024 * 1024, jail_id = [] \<rparr>"

section \<open>Builder methods\<close>

definition with_args :: "string list \<Rightarrow> SandboxConfig \<Rightarrow> SandboxConfig" where
  [builder_simps]: "with_args a c = c\<lparr>args := a\<rparr>"

definition with_stdin :: "bytes \<Rightarrow> SandboxConfig \<Rightarrow> SandboxConfig" where
  [builder_simps]: "with_stdin d c = c\<lparr>stdin_data := Some d\<rparr>"

definition with_time_limit :: "u64 \<Rightarrow> SandboxConfig \<Rightarrow> SandboxConfig" where
  [builder_simps]: "with_time_limit ms c = c\<lparr>time_limit_ms := ms, wall_time_limit_ms := wall_time_for ms\<rparr>"

definition with_wall_time_limit :: "u64 \<Rightarrow> SandboxConfig \<Rightarrow> SandboxConfig" where
  [builder_simps]: "with_wall_time_limit ms c = c\<lparr>wall_time_limit_ms := ms\<rparr>"

definition with_memory_limit :: "u64 \<Rightarrow> SandboxConfig \<Rightarrow> SandboxConfig" where
  [builder_simps]: "with_memory_limit b c = c\<lparr>memory_limit_bytes := b\<rparr>"

definition with_max_output :: "usize \<Rightarrow> SandboxConfig \<Rightarrow> SandboxConfig" where
  [builder_simps]: "with_max_output b c = c\<lparr>max_output_bytes := b\<rparr>"

definition with_work_dir :: "path \<Rightarrow> SandboxConfig \<Rightarrow> SandboxConfig" where
  [builder_simps]: "with_work_dir d c = c\<lparr>work_dir := Some d\<rparr>"

definition with_profile :: "ExecutionProfile \<Rightarrow> SandboxConfig \<Rightarrow> SandboxConfig" where
  [builder_simps]: "with_profile p c = c\<lparr>profile := p\<rparr>"

definition with_pids_limit :: "u32 \<Rightarrow> SandboxConfig \<Rightarrow> SandboxConfig" where
  [builder_simps]: "with_pids_limit n c = c\<lparr>pids_limit := n\<rparr>"

text \<open>\<open>Option::filter\<close>: a cap of zero is no cap.\<close>

definition with_cpu_max_percent :: "u32 option \<Rightarrow> SandboxConfig \<Rightarrow> SandboxConfig" where
  "with_cpu_max_percent p c =
     c\<lparr>cpu_max_percent := (case p of Some n \<Rightarrow> if n > 0 then Some n else None | None \<Rightarrow> None)\<rparr>"

definition with_network_isolation :: "bool \<Rightarrow> SandboxConfig \<Rightarrow> SandboxConfig" where
  [builder_simps]: "with_network_isolation b c = c\<lparr>enable_network_isolation := b\<rparr>"

definition with_workspace_dir :: "path \<Rightarrow> SandboxConfig \<Rightarrow> SandboxConfig" where
  [builder_simps]: "with_workspace_dir d c = c\<lparr>workspace_dir := Some d\<rparr>"

definition with_fs_isolation :: "bool \<Rightarrow> SandboxConfig \<Rightarrow> SandboxConfig" where
  [builder_simps]: "with_fs_isolation b c = c\<lparr>enable_fs_isolation := b\<rparr>"

definition with_fs_readonly_paths :: "path list \<Rightarrow> SandboxConfig \<Rightarrow> SandboxConfig" where
  [builder_simps]: "with_fs_readonly_paths ps c = c\<lparr>fs_readonly_paths := ps\<rparr>"

definition with_fs_workdir_size :: "u64 \<Rightarrow> SandboxConfig \<Rightarrow> SandboxConfig" where
  [builder_simps]: "with_fs_workdir_size b c = c\<lparr>fs_workdir_size_bytes := b\<rparr>"

definition with_jail_id :: "string \<Rightarrow> SandboxConfig \<Rightarrow> SandboxConfig" where
  [builder_simps]: "with_jail_id j c = c\<lparr>jail_id := j\<rparr>"

section \<open>The invariant of a configuration\<close>

text \<open>
  A configuration is well formed when its wall-clock limit is not below its CPU limit
  (the supervisor would otherwise kill a program that still has CPU time left) and its
  CPU cap, if any, is positive.
\<close>

definition wf_config :: "SandboxConfig \<Rightarrow> bool" where
  "wf_config c \<longleftrightarrow> time_limit_ms c \<le> wall_time_limit_ms c \<and> cpu_max_percent c \<noteq> Some 0"

lemma unat_wall_time_for: "unat (wall_time_for ms) = min (2 * unat ms + 1000) (2 ^ 64 - 1)"
  by (simp add: wall_time_for_def rust_simps)

lemma wall_time_for_ge: "ms \<le> wall_time_for ms"
  by (simp add: word_le_nat_alt unat_wall_time_for)

text \<open>The builders of the configurations that the program makes keep it well formed.\<close>

lemma wf_config_intros:
  "wf_config (new_config p)"
  "wf_config (compile_config p wd)"
  "wf_config (run_config p ws tlim ml pids)"
  by (simp_all add: wf_config_def new_config_def compile_config_def run_config_def wall_time_for_ge)

lemma wf_config_builders [simp]:
  "wf_config (with_args a c) = wf_config c"
  "wf_config (with_stdin d c) = wf_config c"
  "wf_config (with_memory_limit b c) = wf_config c"
  "wf_config (with_max_output n c) = wf_config c"
  "wf_config (with_work_dir w c) = wf_config c"
  "wf_config (with_profile p c) = wf_config c"
  "wf_config (with_pids_limit l c) = wf_config c"
  "wf_config (with_network_isolation e c) = wf_config c"
  "wf_config (with_workspace_dir w c) = wf_config c"
  "wf_config (with_fs_isolation e c) = wf_config c"
  "wf_config (with_fs_readonly_paths ps c) = wf_config c"
  "wf_config (with_fs_workdir_size b c) = wf_config c"
  "wf_config (with_jail_id j c) = wf_config c"
  by (simp_all add: wf_config_def builder_simps)

lemma wf_config_time_limit: "wf_config c \<Longrightarrow> wf_config (with_time_limit ms c)"
  by (simp add: wf_config_def builder_simps wall_time_for_ge)

lemma wf_config_cpu_max: "wf_config c \<Longrightarrow> wf_config (with_cpu_max_percent p c)"
  by (auto simp: wf_config_def with_cpu_max_percent_def split: option.splits)

end
