(* ===== verification/Languages.thy ===== *)
theory Languages
  imports Sandbox_Config
begin

text \<open>
  The supported languages, \<open>src/languages/\<close>: the enumeration with its names and aliases,
  the whitelist parser, the trait \<open>LanguageRunner\<close> and its eighteen implementations.

  A trait object \<open>Box<dyn LanguageRunner>\<close> is a record of the trait's methods, so each
  \<open>impl\<close> block is one record. Paths are strings; \<open>to_string_lossy\<close> and \<open>display\<close> are
  the identity on the UTF-8 paths the pipeline makes. The locale \<open>language_runner\<close> is the
  contract of the trait that the pipeline relies on, and it is interpreted once for the
  runner of every language.
\<close>

section \<open>Languages and names\<close>

datatype SupportedLanguage =
    C_lang | Cpp | Rust | Go | Python | PyPy | Java | Kotlin | CSharp | Zig | Ruby | Php
  | Haskell | Dart | Scala | JavaScript | TypeScript | Sql

definition from_str :: "string \<Rightarrow> SupportedLanguage option" where
  "from_str s =
     (let t = to_lowercase s in
      if t = ''c'' then Some C_lang
      else if t \<in> {''cpp'', ''c++''} then Some Cpp
      else if t \<in> {''rust'', ''rs''} then Some Rust
      else if t \<in> {''go'', ''golang''} then Some Go
      else if t \<in> {''python'', ''py'', ''python3'', ''cpython''} then Some Python
      else if t \<in> {''pypy'', ''pypy3''} then Some PyPy
      else if t = ''java'' then Some Java
      else if t \<in> {''kotlin'', ''kt''} then Some Kotlin
      else if t \<in> {''csharp'', ''cs'', ''c#''} then Some CSharp
      else if t = ''zig'' then Some Zig
      else if t \<in> {''ruby'', ''rb''} then Some Ruby
      else if t = ''php'' then Some Php
      else if t \<in> {''haskell'', ''hs'', ''ghc''} then Some Haskell
      else if t = ''dart'' then Some Dart
      else if t \<in> {''scala'', ''scalac''} then Some Scala
      else if t \<in> {''javascript'', ''js''} then Some JavaScript
      else if t \<in> {''typescript'', ''ts''} then Some TypeScript
      else if t \<in> {''sql'', ''sqlite'', ''sqlite3''} then Some Sql
      else None)"

fun as_str :: "SupportedLanguage \<Rightarrow> string" where
  "as_str C_lang = ''c''"
| "as_str Cpp = ''cpp''"
| "as_str Rust = ''rust''"
| "as_str Go = ''go''"
| "as_str Python = ''python''"
| "as_str PyPy = ''pypy''"
| "as_str Java = ''java''"
| "as_str Kotlin = ''kotlin''"
| "as_str CSharp = ''csharp''"
| "as_str Zig = ''zig''"
| "as_str Ruby = ''ruby''"
| "as_str Php = ''php''"
| "as_str Haskell = ''haskell''"
| "as_str Dart = ''dart''"
| "as_str Scala = ''scala''"
| "as_str JavaScript = ''javascript''"
| "as_str TypeScript = ''typescript''"
| "as_str Sql = ''sql''"

definition all_canonical_names :: "string list" where
  "all_canonical_names =
     [''c'', ''cpp'', ''rust'', ''go'', ''python'', ''pypy'', ''java'', ''kotlin'',
      ''csharp'', ''zig'', ''ruby'', ''php'', ''haskell'', ''dart'', ''scala'',
      ''javascript'', ''typescript'', ''sql'']"

fun whitelist_items :: "SupportedLanguage set \<Rightarrow> string list \<Rightarrow> SupportedLanguage set" where
  "whitelist_items acc [] = acc"
| "whitelist_items acc (item # items) =
     (let trimmed = trim item in
      if trimmed \<noteq> []
      then (case from_str trimmed of
              Some lang \<Rightarrow> whitelist_items (insert lang acc) items
            | None \<Rightarrow> whitelist_items acc items)
      else whitelist_items acc items)"

definition parse_whitelist :: "string \<Rightarrow> SupportedLanguage set" where
  "parse_whitelist s = whitelist_items {} (split_on (CHR '','') s)"

section \<open>Paths\<close>

text \<open>\<open>Path::join\<close> with a relative component, and \<open>Path::parent\<close>.\<close>

definition path_join :: "path \<Rightarrow> path \<Rightarrow> path" where
  "path_join p q =
     (if q \<noteq> [] \<and> hd q = CHR ''/'' then q
      else if p = [] \<or> last p = CHR ''/'' then p @ q
      else p @ CHR ''/'' # q)"

definition strip_slashes :: "path \<Rightarrow> path" where
  "strip_slashes p = rev (dropWhile (\<lambda>c. c = CHR ''/'') (rev p))"

definition path_parent :: "path \<Rightarrow> path option" where
  "path_parent p =
     (let q = strip_slashes p in
      if q = [] then None
      else let r = rev (dropWhile (\<lambda>c. c \<noteq> CHR ''/'') (rev q)) in
        if r = [] then Some []
        else let t = strip_slashes r in Some (if t = [] then ''/'' else t))"

definition parent_or :: "path \<Rightarrow> path \<Rightarrow> path" where
  "parent_or dflt p = (case path_parent p of Some d \<Rightarrow> d | None \<Rightarrow> dflt)"

section \<open>The trait\<close>

record LanguageRunner =
  language :: SupportedLanguage
  is_compiled :: bool
  get_source_filename :: string
  max_pids :: u32
  get_compile_command :: "path \<Rightarrow> path \<Rightarrow> SandboxConfig option"
  get_run_command :: "path \<Rightarrow> bytes \<Rightarrow> u64 \<Rightarrow> u64 \<Rightarrow> SandboxConfig"

text \<open>The trait's default method, and the tail that every \<open>get_run_command\<close> shares.\<close>

definition default_max_pids :: u32 where
  "default_max_pids = 2"

definition run_limits :: "bytes \<Rightarrow> u64 \<Rightarrow> u64 \<Rightarrow> SandboxConfig \<Rightarrow> SandboxConfig" where
  "run_limits test_stdin tlim mlim c =
     with_max_output (10 * 1024 * 1024)
       (with_memory_limit mlim (with_time_limit tlim (with_stdin test_stdin c)))"

definition compile_limits :: "u64 \<Rightarrow> u64 \<Rightarrow> SandboxConfig \<Rightarrow> SandboxConfig" where
  "compile_limits tlim mlim c = with_memory_limit mlim (with_time_limit tlim c)"

section \<open>The implementations\<close>

definition c_runner :: LanguageRunner where
  "c_runner =
     \<lparr> language = C_lang, is_compiled = True, get_source_filename = ''main.c'',
       max_pids = default_max_pids,
       get_compile_command = (\<lambda>src bin. Some (compile_limits 10000 (512 * 1024 * 1024)
         (with_args [''-O3'', ''-pipe'', ''-std=c17'', ''-o'', bin, src]
           (new_config ''/usr/bin/gcc'')))),
       get_run_command = (\<lambda>bin i t m. run_limits i t m (new_config bin)) \<rparr>"

definition cpp_runner :: LanguageRunner where
  "cpp_runner =
     \<lparr> language = Cpp, is_compiled = True, get_source_filename = ''main.cpp'',
       max_pids = default_max_pids,
       get_compile_command = (\<lambda>src bin. Some (compile_limits 10000 (512 * 1024 * 1024)
         (with_args [''-O3'', ''-pipe'', ''-std=c++20'', ''-ftemplate-depth=128'', ''-o'', bin, src]
           (new_config ''/usr/bin/g++'')))),
       get_run_command = (\<lambda>bin i t m. run_limits i t m (new_config bin)) \<rparr>"

definition rust_runner :: LanguageRunner where
  "rust_runner =
     \<lparr> language = Rust, is_compiled = True, get_source_filename = ''main.rs'',
       max_pids = default_max_pids,
       get_compile_command = (\<lambda>src bin. Some (compile_limits 15000 (512 * 1024 * 1024)
         (with_args [''-O'', ''-o'', bin, src] (new_config ''/usr/bin/rustc'')))),
       get_run_command = (\<lambda>bin i t m. run_limits i t m (new_config bin)) \<rparr>"

definition go_runner :: LanguageRunner where
  "go_runner =
     \<lparr> language = Go, is_compiled = True, get_source_filename = ''main.go'', max_pids = 8,
       get_compile_command = (\<lambda>src bin. Some (compile_limits 10000 (512 * 1024 * 1024)
         (with_args [''build'', ''-ldflags=-s -w'', ''-o'', bin, src]
           (new_config ''/usr/bin/go'')))),
       get_run_command = (\<lambda>bin i t m. run_limits i t m (new_config bin)) \<rparr>"

definition python_runner :: LanguageRunner where
  "python_runner =
     \<lparr> language = Python, is_compiled = False, get_source_filename = ''main.py'',
       max_pids = default_max_pids,
       get_compile_command = (\<lambda>src bin. None),
       get_run_command = (\<lambda>bin i t m. run_limits i t m
         (with_args [''-B'', ''-O'', bin] (new_config ''/usr/bin/python3''))) \<rparr>"

definition pypy_runner :: LanguageRunner where
  "pypy_runner =
     \<lparr> language = PyPy, is_compiled = False, get_source_filename = ''main.py'',
       max_pids = default_max_pids,
       get_compile_command = (\<lambda>src bin. None),
       get_run_command = (\<lambda>bin i t m. run_limits i t m
         (with_args [''-B'', ''-O'', bin] (new_config ''/usr/bin/pypy3''))) \<rparr>"

definition java_runner :: LanguageRunner where
  "java_runner =
     \<lparr> language = Java, is_compiled = True, get_source_filename = ''Solution.java'', max_pids = 24,
       get_compile_command = (\<lambda>src bin. Some (compile_limits 15000 (384 * 1024 * 1024)
         (with_args [src] (new_config ''/usr/bin/javac'')))),
       get_run_command = (\<lambda>bin i t m.
         let mem_mb = unat m div (1024 * 1024) in
         run_limits i t m
           (with_args
             [''-Xmx'' @ show_nat mem_mb @ ''m'', ''-Xms'' @ show_nat (mem_mb div 2) @ ''m'',
              ''-Xss1m'', ''-Xshare:on'', ''-XX:+UseSerialGC'', ''-XX:TieredStopAtLevel=1'',
              ''-XX:ActiveProcessorCount=1'', ''-XX:CICompilerCount=2'', ''-cp'', ''/sandbox'',
              ''Solution'']
             (new_config ''/usr/bin/java''))) \<rparr>"

definition kotlin_runner :: LanguageRunner where
  "kotlin_runner =
     \<lparr> language = Kotlin, is_compiled = True, get_source_filename = ''Solution.kt'', max_pids = 24,
       get_compile_command = (\<lambda>src bin.
         let jar_path = path_join (parent_or ''.'' src) ''Solution.jar'' in
         Some (compile_limits 15000 (512 * 1024 * 1024)
           (with_args
             [''-Xmx384m'', ''-XX:+UseSerialGC'', ''-XX:TieredStopAtLevel=1'', ''-cp'',
              ''/opt/kotlinc/lib/kotlin-compiler.jar'',
              ''org.jetbrains.kotlin.cli.jvm.K2JVMCompiler'', src, ''-d'', jar_path, ''-nowarn'']
             (new_config ''/usr/bin/java'')))),
       get_run_command = (\<lambda>bin i t m.
         let mem_mb = unat m div (1024 * 1024) in
         run_limits i t m
           (with_args
             [''-Xmx'' @ show_nat mem_mb @ ''m'', ''-Xms'' @ show_nat (mem_mb div 2) @ ''m'',
              ''-Xss1m'', ''-XX:+UseSerialGC'', ''-XX:TieredStopAtLevel=1'',
              ''-XX:ActiveProcessorCount=1'', ''-cp'',
              ''/sandbox/Solution.jar:/opt/kotlinc/lib/kotlin-stdlib.jar'', ''SolutionKt'']
             (new_config ''/usr/bin/java''))) \<rparr>"

definition csharp_runner :: LanguageRunner where
  "csharp_runner =
     \<lparr> language = CSharp, is_compiled = True, get_source_filename = ''Solution.cs'', max_pids = 16,
       get_compile_command = (\<lambda>src bin. Some (compile_limits 10000 (512 * 1024 * 1024)
         (with_args [''-optimize+'', ''-nologo'', ''-out:'' @ bin, src]
           (new_config ''/usr/bin/mono-csc'')))),
       get_run_command = (\<lambda>bin i t m. run_limits i t m
         (with_args [''--gc=sgen'', bin] (new_config ''/usr/bin/mono''))) \<rparr>"

definition zig_runner :: LanguageRunner where
  "zig_runner =
     \<lparr> language = Zig, is_compiled = True, get_source_filename = ''Solution.zig'', max_pids = 2,
       get_compile_command = (\<lambda>src bin. Some (compile_limits 15000 (512 * 1024 * 1024)
         (with_args [''build-exe'', src, ''-O'', ''ReleaseFast'', ''-femit-bin='' @ bin]
           (new_config ''/usr/local/bin/zig'')))),
       get_run_command = (\<lambda>bin i t m. run_limits i t m (new_config bin)) \<rparr>"

definition ruby_runner :: LanguageRunner where
  "ruby_runner =
     \<lparr> language = Ruby, is_compiled = False, get_source_filename = ''Solution.rb'', max_pids = 4,
       get_compile_command = (\<lambda>src bin. None),
       get_run_command = (\<lambda>bin i t m. run_limits i t m
         (with_args [''--disable-gems'', bin] (new_config ''/usr/bin/ruby''))) \<rparr>"

definition php_runner :: LanguageRunner where
  "php_runner =
     \<lparr> language = Php, is_compiled = False, get_source_filename = ''Solution.php'', max_pids = 4,
       get_compile_command = (\<lambda>src bin. None),
       get_run_command = (\<lambda>bin i t m. run_limits i t m
         (with_args [''-f'', bin] (new_config ''/usr/bin/php''))) \<rparr>"

definition haskell_runner :: LanguageRunner where
  "haskell_runner =
     \<lparr> language = Haskell, is_compiled = True, get_source_filename = ''Solution.hs'', max_pids = 4,
       get_compile_command = (\<lambda>src bin. Some (compile_limits 15000 (512 * 1024 * 1024)
         (with_args [''-O2'', ''-v0'', src, ''-o'', bin] (new_config ''/usr/bin/ghc'')))),
       get_run_command = (\<lambda>bin i t m. run_limits i t m (new_config bin)) \<rparr>"

definition dart_runner :: LanguageRunner where
  "dart_runner =
     \<lparr> language = Dart, is_compiled = True, get_source_filename = ''Solution.dart'', max_pids = 4,
       get_compile_command = (\<lambda>src bin. Some (compile_limits 15000 (512 * 1024 * 1024)
         (with_args [''compile'', ''exe'', src, ''-o'', bin] (new_config ''/usr/bin/dart'')))),
       get_run_command = (\<lambda>bin i t m. run_limits i t m (new_config bin)) \<rparr>"

definition scala_runner :: LanguageRunner where
  "scala_runner =
     \<lparr> language = Scala, is_compiled = True, get_source_filename = ''Solution.scala'', max_pids = 16,
       get_compile_command = (\<lambda>src bin.
         let dest_dir = parent_or ''/sandbox'' bin in
         Some (compile_limits 20000 (512 * 1024 * 1024)
           (with_args [''-d'', dest_dir, src] (new_config ''/usr/bin/scalac'')))),
       get_run_command = (\<lambda>bin i t m.
         let dest_dir = parent_or ''/sandbox'' bin;
             classpath = dest_dir @ '':/usr/share/java/scala-library.jar''
         in run_limits i t m
           (with_args
             [''-cp'', classpath, ''-XX:+TieredCompilation'', ''-XX:TieredStopAtLevel=1'',
              ''-XX:+UseSerialGC'', ''-Xms16m'', ''-Xmx128m'', ''Solution'']
             (new_config ''/usr/bin/java''))) \<rparr>"

definition javascript_runner :: LanguageRunner where
  "javascript_runner =
     \<lparr> language = JavaScript, is_compiled = False, get_source_filename = ''solution.js'', max_pids = 12,
       get_compile_command = (\<lambda>src bin. None),
       get_run_command = (\<lambda>bin i t m. run_limits i t m
         (with_args [''run'', ''--no-addons'', bin] (new_config ''/usr/local/bin/bun''))) \<rparr>"

definition typescript_runner :: LanguageRunner where
  "typescript_runner =
     \<lparr> language = TypeScript, is_compiled = False, get_source_filename = ''solution.ts'', max_pids = 12,
       get_compile_command = (\<lambda>src bin. None),
       get_run_command = (\<lambda>bin i t m. run_limits i t m
         (with_args [''run'', ''--no-addons'', bin] (new_config ''/usr/local/bin/bun''))) \<rparr>"

text \<open>The raw string of the shell command, line by line with its indentation.\<close>

definition sql_command :: string where
  "sql_command = concat
     [[CHR 0x0A], ''            ('', [CHR 0x0A],
      ''                if [ -f /sandbox/init.sql ]; then cat /sandbox/init.sql; fi'', [CHR 0x0A],
      ''                cat /sandbox/solution.sql'', [CHR 0x0A],
      ''                if [ -f /sandbox/verify.sql ]; then cat /sandbox/verify.sql; fi'', [CHR 0x0A],
      ''                cat -'', [CHR 0x0A],
      ''            ) | sqlite3 -safe -header -csv :memory:'', [CHR 0x0A], ''        '']"

definition sql_runner :: LanguageRunner where
  "sql_runner =
     \<lparr> language = Sql, is_compiled = False, get_source_filename = ''solution.sql'', max_pids = 16,
       get_compile_command = (\<lambda>src bin. None),
       get_run_command = (\<lambda>bin i t m. run_limits i t m
         (with_args [''-c'', sql_command] (new_config ''/bin/sh''))) \<rparr>"

fun get_runner :: "SupportedLanguage \<Rightarrow> LanguageRunner" where
  "get_runner C_lang = c_runner"
| "get_runner Cpp = cpp_runner"
| "get_runner Rust = rust_runner"
| "get_runner Go = go_runner"
| "get_runner Python = python_runner"
| "get_runner PyPy = pypy_runner"
| "get_runner Java = java_runner"
| "get_runner Kotlin = kotlin_runner"
| "get_runner CSharp = csharp_runner"
| "get_runner Zig = zig_runner"
| "get_runner Ruby = ruby_runner"
| "get_runner Php = php_runner"
| "get_runner Haskell = haskell_runner"
| "get_runner Dart = dart_runner"
| "get_runner Scala = scala_runner"
| "get_runner JavaScript = javascript_runner"
| "get_runner TypeScript = typescript_runner"
| "get_runner Sql = sql_runner"

section \<open>The contract of the trait\<close>

text \<open>
  What the pipeline relies on: a runner has a compile command exactly when it says it is
  compiled, its commands are well formed, and a run command carries the limits and the
  input it was asked for, under the isolation that \<open>SandboxConfig::new\<close> turns on.
\<close>

locale language_runner =
  fixes r :: LanguageRunner
  assumes compile_command: "(get_compile_command r src bin \<noteq> None) = is_compiled r"
    and compile_wf: "get_compile_command r src bin = Some c \<Longrightarrow>
      wf_config c \<and> unat (memory_limit_bytes c) \<le> 536870912 \<and> unat (time_limit_ms c) \<le> 20000"
    and run_wf: "wf_config (get_run_command r bin i t m)"
    and run_limits: "time_limit_ms (get_run_command r bin i t m) = t"
      "memory_limit_bytes (get_run_command r bin i t m) = m"
      "stdin_data (get_run_command r bin i t m) = Some i"
      "max_output_bytes (get_run_command r bin i t m) = 10485760"
    and run_jail_id: "jail_id (get_run_command r bin i t m) = []"
    and pids_bounds: "2 \<le> unat (max_pids r) \<and> unat (max_pids r) \<le> 24"

lemmas runner_defs =
  c_runner_def cpp_runner_def rust_runner_def go_runner_def python_runner_def pypy_runner_def
  java_runner_def kotlin_runner_def csharp_runner_def zig_runner_def ruby_runner_def
  php_runner_def haskell_runner_def dart_runner_def scala_runner_def javascript_runner_def
  typescript_runner_def sql_runner_def default_max_pids_def

lemma wf_config_limits:
  "wf_config c \<Longrightarrow> wf_config (run_limits i t m c)"
  "wf_config c \<Longrightarrow> wf_config (compile_limits t m c)"
  by (simp_all add: run_limits_def compile_limits_def wf_config_time_limit)

lemma run_limits_fields [simp]:
  "time_limit_ms (run_limits i t m c) = t"
  "memory_limit_bytes (run_limits i t m c) = m"
  "stdin_data (run_limits i t m c) = Some i"
  "max_output_bytes (run_limits i t m c) = 10485760"
  "jail_id (run_limits i t m c) = jail_id c"
  by (simp_all add: run_limits_def builder_simps)

lemma compile_limits_fields [simp]:
  "time_limit_ms (compile_limits t m c) = t"
  "memory_limit_bytes (compile_limits t m c) = m"
  by (simp_all add: compile_limits_def builder_simps)

lemma jail_id_fresh [simp]:
  "jail_id (new_config p) = []" "jail_id (with_args a c) = jail_id c"
  by (simp_all add: new_config_def builder_simps)

interpretation runner: language_runner "get_runner l" for l
proof unfold_locales
  show "(get_compile_command (get_runner l) src bin \<noteq> None) = is_compiled (get_runner l)"
    for src bin by (cases l) (simp_all add: runner_defs Let_def)
  show "wf_config c \<and> unat (memory_limit_bytes c) \<le> 536870912 \<and> unat (time_limit_ms c) \<le> 20000"
    if "get_compile_command (get_runner l) src bin = Some c" for src bin c
    using that by (cases l) (auto simp: runner_defs Let_def wf_config_limits wf_config_intros)
  show "wf_config (get_run_command (get_runner l) bin i t m)" for bin i t m
    by (cases l) (simp_all add: runner_defs Let_def wf_config_limits wf_config_intros)
  show "time_limit_ms (get_run_command (get_runner l) bin i t m) = t"
    "memory_limit_bytes (get_run_command (get_runner l) bin i t m) = m"
    "stdin_data (get_run_command (get_runner l) bin i t m) = Some i"
    "max_output_bytes (get_run_command (get_runner l) bin i t m) = 10485760"
    "jail_id (get_run_command (get_runner l) bin i t m) = []" for bin i t m
    by (cases l; simp add: runner_defs Let_def)+
  show "2 \<le> unat (max_pids (get_runner l)) \<and> unat (max_pids (get_runner l)) \<le> 24"
    by (cases l) (simp_all add: runner_defs)
qed

lemma language_get_runner [simp]: "language (get_runner l) = l"
  by (cases l) (simp_all add: runner_defs)

section \<open>Names\<close>

lemma as_str_no_E2: "CHR 0xE2 \<notin> set (as_str l)" "to_ascii_lowercase (as_str l) = as_str l"
  by (cases l; simp add: to_ascii_lowercase_def ascii_lower_def)+

lemma from_str_as_str: "from_str (as_str l) = Some l"
proof -
  have "to_lowercase (as_str l) = as_str l" by (simp add: to_lowercase_ascii as_str_no_E2)
  then show ?thesis by (cases l) (simp_all add: from_str_def)
qed

lemma from_str_lower:
  "CHR 0xE2 \<notin> set s \<Longrightarrow> from_str (to_ascii_lowercase s) = from_str s"
  by (simp add: from_str_def to_lowercase_to_ascii_lowercase)

lemma from_str_Nil [simp]: "from_str [] = None"
  by (simp add: from_str_def)

lemma whitelist_items_eq:
  "whitelist_items acc items = acc \<union> {l. \<exists>item \<in> set items. from_str (trim item) = Some l}"
proof (induction acc items rule: whitelist_items.induct)
  case (1 acc)
  then show ?case by simp
next
  case (2 acc item items)
  then show ?case by (cases "from_str (trim item)") (auto simp: Let_def)
qed

lemma parse_whitelist_eq:
  "parse_whitelist s = {l. \<exists>item \<in> set (split_on (CHR '','') s). from_str (trim item) = Some l}"
  by (simp add: parse_whitelist_def whitelist_items_eq)

text \<open>The comma-separated list of names, as an operator writes it.\<close>

fun join_names :: "SupportedLanguage list \<Rightarrow> string" where
  "join_names [] = []"
| "join_names [l] = as_str l"
| "join_names (l # ls) = as_str l @ CHR '','' # join_names ls"

lemma trim_as_str [simp]: "trim (as_str l) = as_str l"
  by (rule trim_id) (cases l; simp add: ws_edge_code)+

lemma as_str_no_comma: "CHR '','' \<notin> set (as_str l)"
  by (cases l) simp_all

lemma split_join_names:
  "ls \<noteq> [] \<Longrightarrow> split_on (CHR '','') (join_names ls) = map as_str ls"
  by (induction ls rule: join_names.induct)
    (simp_all add: split_on_no_sep split_on_sep as_str_no_comma)

lemma parse_whitelist_join: "parse_whitelist (join_names ls) = set ls"
proof (cases "ls = []")
  case True
  then show ?thesis by (simp add: parse_whitelist_eq)
next
  case False
  then show ?thesis by (auto simp: parse_whitelist_eq split_join_names from_str_as_str)
qed

section \<open>Properties\<close>

text \<open>
  The names of languages round-trip: \<open>from_str\<close> reads back what \<open>as_str\<close> prints, and the
  runner it leads to is the one of that language.
\<close>

lemma language_roundtrip:
  "from_str (as_str l) = Some l \<and> LanguageRunner.language (get_runner l) = l"
  by (simp add: from_str_as_str)

text \<open>
  The whitelist of languages is read exactly: parsing the comma-separated names of some
  languages gives the set of these languages.
\<close>

lemma whitelist_exact: "parse_whitelist (join_names ls) = set ls"
  by (rule parse_whitelist_join)

end
