(* ===== verification/Metrics.thy ===== *)
theory Metrics
  imports Job Languages "HOL-Library.Multiset"
begin

text \<open>
  Telemetry, \<open>src/metrics.rs\<close>. The statics are counters named by a datatype; a state maps
  each to its \<open>u64\<close> value. \<open>record_job\<close> is a sequence of atomic \<open>fetch_add\<close>s with relaxed
  ordering, and jobs record concurrently, so it is modelled as the list of its additions and
  the theorems are about every interleaving of the lists of several jobs.
\<close>

section \<open>Counters\<close>

datatype counter =
    TOTAL_JOBS | JOBS_ACCEPTED | JOBS_WRONG_ANSWER | JOBS_TLE | JOBS_MLE | JOBS_RUNTIME_ERROR
  | JOBS_COMPILE_ERROR
  | LANG_CPP | LANG_PYTHON | LANG_PYPY | LANG_JAVA | LANG_KOTLIN | LANG_CSHARP | LANG_ZIG
  | LANG_RUBY | LANG_PHP | LANG_HASKELL | LANG_DART | LANG_SCALA | LANG_C | LANG_JS | LANG_TS
  | LANG_SQL
  | TOTAL_TESTCASES | TESTCASES_PASSED | TESTCASES_FAILED | TOTAL_CPU_TIME_MS

type_synonym counters = "counter \<Rightarrow> u64"

definition zero_counters :: counters where
  "zero_counters = (\<lambda>_. 0)"

definition fetch_add :: "counter \<times> u64 \<Rightarrow> counters \<Rightarrow> counters" where
  "fetch_add a m = m(fst a := m (fst a) + snd a)"

fun verdict_counter :: "JudgeVerdict \<Rightarrow> counter" where
  "verdict_counter Accepted = JOBS_ACCEPTED"
| "verdict_counter WrongAnswer = JOBS_WRONG_ANSWER"
| "verdict_counter TimeLimitExceeded = JOBS_TLE"
| "verdict_counter MemoryLimitExceeded = JOBS_MLE"
| "verdict_counter RuntimeError = JOBS_RUNTIME_ERROR"
| "verdict_counter CompilationError = JOBS_COMPILE_ERROR"

definition language_counter :: "string \<Rightarrow> counter option" where
  "language_counter lang =
     (let s = to_lowercase lang in
      if s = ''cpp'' \<or> s = ''c++'' then Some LANG_CPP
      else if s = ''python'' \<or> s = ''python3'' \<or> s = ''py'' then Some LANG_PYTHON
      else if s = ''pypy'' \<or> s = ''pypy3'' then Some LANG_PYPY
      else if s = ''java'' then Some LANG_JAVA
      else if s = ''kotlin'' \<or> s = ''kt'' then Some LANG_KOTLIN
      else if s = ''csharp'' \<or> s = ''cs'' \<or> s = ''c#'' then Some LANG_CSHARP
      else if s = ''zig'' then Some LANG_ZIG
      else if s = ''ruby'' \<or> s = ''rb'' then Some LANG_RUBY
      else if s = ''php'' then Some LANG_PHP
      else if s = ''haskell'' \<or> s = ''hs'' \<or> s = ''ghc'' then Some LANG_HASKELL
      else if s = ''dart'' then Some LANG_DART
      else if s = ''scala'' \<or> s = ''scalac'' then Some LANG_SCALA
      else if s = ''c'' then Some LANG_C
      else if s = ''javascript'' \<or> s = ''js'' then Some LANG_JS
      else if s = ''typescript'' \<or> s = ''ts'' then Some LANG_TS
      else if s = ''sql'' then Some LANG_SQL
      else None)"

definition record_job ::
  "string \<Rightarrow> JudgeVerdict \<Rightarrow> u64 \<Rightarrow> usize \<Rightarrow> usize \<Rightarrow> (counter \<times> u64) list" where
  "record_job lang v cpu_ms passed_tests failed_tests =
     [(TOTAL_JOBS, 1), (TOTAL_CPU_TIME_MS, cpu_ms),
      (TOTAL_TESTCASES, passed_tests + failed_tests),
      (TESTCASES_PASSED, passed_tests), (TESTCASES_FAILED, failed_tests),
      (verdict_counter v, 1)] @
     (case language_counter lang of Some c \<Rightarrow> [(c, 1)] | None \<Rightarrow> [])"

definition apply_adds :: "(counter \<times> u64) list \<Rightarrow> counters \<Rightarrow> counters" where
  "apply_adds adds m = fold fetch_add adds m"

section \<open>The exposition\<close>

text \<open>
  The resident memory: the second number of \<open>/proc/self/statm\<close> (\<open>None\<close>: the file cannot be
  read) times the page size; the product wraps.
\<close>

definition get_process_memory_bytes :: "string option \<Rightarrow> u64" where
  "get_process_memory_bytes statm =
     (case statm of
        Some content \<Rightarrow>
          (let parts = split_whitespace content in
           if length parts \<ge> 2
           then (case parse_u64 (parts ! 1) of Some pages \<Rightarrow> pages * 4096 | None \<Rightarrow> 0)
           else 0)
      | None \<Rightarrow> 0)"

definition sample :: "string \<Rightarrow> u64 \<Rightarrow> string" where
  "sample name v = name @ '' '' @ show_nat (unat v)"

definition labelled :: "string \<Rightarrow> string \<Rightarrow> string \<Rightarrow> string" where
  "labelled name key v = name @ ''{'' @ key @ ''='' @ [CHR 0x22] @ v @ [CHR 0x22] @ ''}''"

definition verdict_sample :: "counters \<Rightarrow> string \<Rightarrow> counter \<Rightarrow> string" where
  "verdict_sample m v c = sample (labelled ''akiro_jobs_total'' ''verdict'' v) (m c)"

definition language_sample :: "counters \<Rightarrow> string \<Rightarrow> counter \<Rightarrow> string" where
  "language_sample m l c = sample (labelled ''akiro_jobs_by_language_total'' ''language'' l) (m c)"

text \<open>The lines that the calls of \<open>push_str\<close> append, each without its line break.\<close>

definition prometheus_lines ::
  "counters \<Rightarrow> string option \<Rightarrow> usize \<Rightarrow> usize \<Rightarrow> usize \<Rightarrow> usize \<Rightarrow> u64 \<Rightarrow> string list" where
  "prometheus_lines m statm total_workers idle_workers busy_workers queued_jobs uptime_secs =
     [''# HELP akiro_jobs_total Total evaluation jobs submitted to Akiro'',
      ''# TYPE akiro_jobs_total counter'',
      verdict_sample m ''Accepted'' JOBS_ACCEPTED,
      verdict_sample m ''WrongAnswer'' JOBS_WRONG_ANSWER,
      verdict_sample m ''TimeLimitExceeded'' JOBS_TLE,
      verdict_sample m ''MemoryLimitExceeded'' JOBS_MLE,
      verdict_sample m ''RuntimeError'' JOBS_RUNTIME_ERROR,
      verdict_sample m ''CompilationError'' JOBS_COMPILE_ERROR,
      [],
      ''# HELP akiro_jobs_by_language_total Total jobs grouped by programming language'',
      ''# TYPE akiro_jobs_by_language_total counter'',
      language_sample m ''cpp'' LANG_CPP,
      language_sample m ''python'' LANG_PYTHON,
      language_sample m ''pypy3'' LANG_PYPY,
      language_sample m ''java'' LANG_JAVA,
      language_sample m ''kotlin'' LANG_KOTLIN,
      language_sample m ''csharp'' LANG_CSHARP,
      language_sample m ''zig'' LANG_ZIG,
      language_sample m ''ruby'' LANG_RUBY,
      language_sample m ''php'' LANG_PHP,
      language_sample m ''haskell'' LANG_HASKELL,
      language_sample m ''dart'' LANG_DART,
      language_sample m ''scala'' LANG_SCALA,
      language_sample m ''c'' LANG_C,
      language_sample m ''javascript'' LANG_JS,
      language_sample m ''typescript'' LANG_TS,
      language_sample m ''sql'' LANG_SQL,
      [],
      ''# HELP akiro_testcases_total Total isolated sandbox testcase executions'',
      ''# TYPE akiro_testcases_total counter'',
      sample (labelled ''akiro_testcases_total'' ''status'' ''passed'') (m TESTCASES_PASSED),
      sample (labelled ''akiro_testcases_total'' ''status'' ''failed'') (m TESTCASES_FAILED),
      [],
      ''# HELP akiro_cpu_time_ms_total Cumulative CPU time spent inside sandboxes'',
      ''# TYPE akiro_cpu_time_ms_total counter'',
      sample ''akiro_cpu_time_ms_total'' (m TOTAL_CPU_TIME_MS),
      [],
      ''# HELP akiro_workers Total, idle, and busy judge workers in cluster'',
      ''# TYPE akiro_workers gauge'',
      sample (labelled ''akiro_workers'' ''state'' ''total'') total_workers,
      sample (labelled ''akiro_workers'' ''state'' ''idle'') idle_workers,
      sample (labelled ''akiro_workers'' ''state'' ''busy'') busy_workers,
      [],
      ''# HELP akiro_queue_depth Number of jobs currently queued'',
      ''# TYPE akiro_queue_depth gauge'',
      sample ''akiro_queue_depth'' queued_jobs,
      [],
      ''# HELP akiro_process_memory_bytes Resident memory (RSS) of Akiro process'',
      ''# TYPE akiro_process_memory_bytes gauge'',
      sample ''akiro_process_memory_bytes'' (get_process_memory_bytes statm),
      [],
      ''# HELP akiro_uptime_seconds Total process uptime in seconds'',
      ''# TYPE akiro_uptime_seconds gauge'',
      sample ''akiro_uptime_seconds'' uptime_secs]"

definition render_prometheus ::
  "counters \<Rightarrow> string option \<Rightarrow> usize \<Rightarrow> usize \<Rightarrow> usize \<Rightarrow> usize \<Rightarrow> u64 \<Rightarrow> string" where
  "render_prometheus m statm total_workers idle_workers busy_workers queued_jobs uptime_secs =
     concat (map (\<lambda>l. l @ [CHR 0x0A])
       (prometheus_lines m statm total_workers idle_workers busy_workers queued_jobs uptime_secs))"

section \<open>Facts about the counters\<close>

text \<open>The final value of a counter is its start and the sum of the additions to it.\<close>

definition added :: "counter \<Rightarrow> (counter \<times> u64) list \<Rightarrow> u64" where
  "added c adds = sum_list (map (\<lambda>(d, n). if d = c then n else 0) adds)"

lemma apply_adds_added: "apply_adds adds m c = m c + added c adds"
  by (induction adds arbitrary: m) (auto simp: apply_adds_def fetch_add_def added_def)

lemma added_append [simp]: "added c (a @ b) = added c a + added c b"
  by (simp add: added_def)

lemma added_simps [simp]:
  "added c [] = 0" "added c ((d, n) # adds) = (if d = c then n else 0) + added c adds"
  by (simp_all add: added_def)

lemma sum_list_mset_cong:
  "mset xs = mset ys \<Longrightarrow> sum_list (map f xs) = (sum_list (map f ys) :: 'a :: comm_monoid_add)"
  by (metis mset_map sum_mset_sum_list)

lemma added_mset: "mset adds = mset adds' \<Longrightarrow> added c adds = added c adds'"
  unfolding added_def by (rule sum_list_mset_cong)

text \<open>The arguments of one call of \<open>record_job\<close>.\<close>

type_synonym job_report = "string \<times> JudgeVerdict \<times> u64 \<times> usize \<times> usize"

definition report_adds :: "job_report \<Rightarrow> (counter \<times> u64) list" where
  "report_adds = (\<lambda>(l, v, cpu, p, f). record_job l v cpu p f)"

definition not_language :: "counter \<Rightarrow> bool" where
  "not_language c \<longleftrightarrow> c \<in> {TOTAL_JOBS, JOBS_ACCEPTED, JOBS_WRONG_ANSWER, JOBS_TLE, JOBS_MLE,
     JOBS_RUNTIME_ERROR, JOBS_COMPILE_ERROR, TOTAL_TESTCASES, TESTCASES_PASSED,
     TESTCASES_FAILED, TOTAL_CPU_TIME_MS}"

lemma pred_option_if: "pred_option P x \<Longrightarrow> pred_option P y \<Longrightarrow> pred_option P (if b then x else y)"
  by simp

lemma language_counter_range: "pred_option (\<lambda>c. \<not> not_language c) (language_counter lang)"
  unfolding language_counter_def Let_def
  by (intro pred_option_if) (simp_all add: not_language_def)

lemma added_language:
  assumes "not_language c"
  shows "added c (case language_counter lang of Some d \<Rightarrow> [(d, 1)] | None \<Rightarrow> []) = 0"
  using language_counter_range[of lang] assms
  by (cases "language_counter lang") auto

lemma added_concat: "added c (concat (map f xs)) = (\<Sum>x\<leftarrow>xs. added c (f x))"
  by (induction xs) auto

text \<open>The counter the breakdown has for a language, if it has one.\<close>

fun counter_of_language :: "SupportedLanguage \<Rightarrow> counter option" where
  "counter_of_language C_lang = Some LANG_C"
| "counter_of_language Cpp = Some LANG_CPP"
| "counter_of_language Rust = None"
| "counter_of_language Go = None"
| "counter_of_language Python = Some LANG_PYTHON"
| "counter_of_language PyPy = Some LANG_PYPY"
| "counter_of_language Java = Some LANG_JAVA"
| "counter_of_language Kotlin = Some LANG_KOTLIN"
| "counter_of_language CSharp = Some LANG_CSHARP"
| "counter_of_language Zig = Some LANG_ZIG"
| "counter_of_language Ruby = Some LANG_RUBY"
| "counter_of_language Php = Some LANG_PHP"
| "counter_of_language Haskell = Some LANG_HASKELL"
| "counter_of_language Dart = Some LANG_DART"
| "counter_of_language Scala = Some LANG_SCALA"
| "counter_of_language JavaScript = Some LANG_JS"
| "counter_of_language TypeScript = Some LANG_TS"
| "counter_of_language Sql = Some LANG_SQL"

definition spellings :: "string list" where
  "spellings =
     [''c'', ''cpp'', ''c++'', ''rust'', ''rs'', ''go'', ''golang'', ''python'', ''py'', ''python3'',
      ''cpython'', ''pypy'', ''pypy3'', ''java'', ''kotlin'', ''kt'', ''csharp'', ''cs'', ''c#'',
      ''zig'', ''ruby'', ''rb'', ''php'', ''haskell'', ''hs'', ''ghc'', ''dart'', ''scala'', ''scalac'',
      ''javascript'', ''js'', ''typescript'', ''ts'', ''sql'', ''sqlite'', ''sqlite3'']"

section \<open>Properties\<close>

text \<open>
  C33: the counters stay consistent under concurrency. However the additions of the jobs
  are interleaved, afterwards the job counter is the number of jobs, it is the sum of the
  six verdict counters, and the test-case counter is the sum of the passed and the failed
  ones (all modulo \<open>2^64\<close>).
\<close>

theorem metrics_consistent:
  assumes "mset adds = mset (concat (map report_adds jobs))"
  shows "apply_adds adds zero_counters TOTAL_JOBS = of_nat (length jobs) \<and>
    apply_adds adds zero_counters TOTAL_JOBS =
      apply_adds adds zero_counters JOBS_ACCEPTED + apply_adds adds zero_counters JOBS_WRONG_ANSWER +
      apply_adds adds zero_counters JOBS_TLE + apply_adds adds zero_counters JOBS_MLE +
      apply_adds adds zero_counters JOBS_RUNTIME_ERROR +
      apply_adds adds zero_counters JOBS_COMPILE_ERROR \<and>
    apply_adds adds zero_counters TOTAL_TESTCASES =
      apply_adds adds zero_counters TESTCASES_PASSED + apply_adds adds zero_counters TESTCASES_FAILED"
proof -
  have val: "apply_adds adds zero_counters c = (\<Sum>j\<leftarrow>jobs. added c (report_adds j))" for c
    using added_mset[OF assms] by (simp add: apply_adds_added zero_counters_def added_concat)
  have one: "added TOTAL_JOBS (report_adds j) = 1"
    "added TOTAL_JOBS (report_adds j) =
       added JOBS_ACCEPTED (report_adds j) + added JOBS_WRONG_ANSWER (report_adds j) +
       added JOBS_TLE (report_adds j) + added JOBS_MLE (report_adds j) +
       added JOBS_RUNTIME_ERROR (report_adds j) + added JOBS_COMPILE_ERROR (report_adds j)"
    "added TOTAL_TESTCASES (report_adds j) =
       added TESTCASES_PASSED (report_adds j) + added TESTCASES_FAILED (report_adds j)" for j
    by (cases j; cases "fst (snd j)";
        simp add: report_adds_def record_job_def added_language not_language_def)+
  have "apply_adds adds zero_counters TOTAL_JOBS = of_nat (length jobs)"
    by (simp add: val one(1) sum_list_triv)
  then show ?thesis
    unfolding val one(2,3) by (simp only: sum_list_addf simp_thms)
qed

theorem metrics_consistent_witness:
  "apply_adds (report_adds (''cpp'', Accepted, 12, 3, 0) @ report_adds (''py'', WrongAnswer, 4, 1, 2))
     zero_counters TOTAL_JOBS = 2"
  using metrics_consistent[of
      "report_adds (''cpp'', Accepted, 12, 3, 0) @ report_adds (''py'', WrongAnswer, 4, 1, 2)"
      "[(''cpp'', Accepted, 12, 3, 0), (''py'', WrongAnswer, 4, 1, 2)]"]
  by simp

text \<open>
  The per-language counter of a job is the one of the language its runner is chosen by,
  for every spelling \<open>from_str\<close> accepts except \<open>cpython\<close>, \<open>sqlite\<close> and \<open>sqlite3\<close>; Rust and Go
  have no counter, so their jobs are missing from the breakdown by language.
\<close>

lemma language_counter_agrees:
  "language_counter s =
     (if to_lowercase s \<in> {''cpython'', ''sqlite'', ''sqlite3''} then None
      else Option.bind (from_str s) counter_of_language)"
proof (cases "to_lowercase s \<in> set spellings")
  case True
  then show ?thesis
    unfolding language_counter_def from_str_def Let_def spellings_def
    by (simp only: list.set insert_iff empty_iff simp_thms) (elim disjE; simp)
next
  case False
  then show ?thesis
    unfolding language_counter_def from_str_def Let_def spellings_def by simp
qed

end
