(* ===== verification/Sandbox_Result.thy ===== *)
theory Sandbox_Result
  imports Akiro_Prelude
begin

text \<open>
  The outcome of one sandboxed execution, \<open>src/sandbox/result.rs\<close>: the status, its text
  form and the result record with its builders. An \<open>i32\<close> (exit code, signal number) is an
  \<^typ>\<open>int\<close>: the code only stores and compares it.
\<close>

datatype SandboxStatus =
    Ok
  | TimeLimitExceeded
  | MemoryLimitExceeded
  | RuntimeError int
  | Signaled int
  | OutputLimitExceeded

definition show_int :: "int \<Rightarrow> string" where
  "show_int i = (if i < 0 then CHR ''-'' # show_nat (nat (- i)) else show_nat (nat i))"

fun show_status :: "SandboxStatus \<Rightarrow> string" where
  "show_status Ok = ''Ok''"
| "show_status TimeLimitExceeded = ''TimeLimitExceeded''"
| "show_status MemoryLimitExceeded = ''MemoryLimitExceeded''"
| "show_status (RuntimeError code) = ''RuntimeError('' @ show_int code @ '')''"
| "show_status (Signaled sig) = ''Signaled('' @ show_int sig @ '')''"
| "show_status OutputLimitExceeded = ''OutputLimitExceeded''"

record ExecutionResult =
  status :: SandboxStatus
  exit_code :: int
  cpu_time_ms :: u64
  wall_time_ms :: u64
  memory_kb :: u64
  stdout :: bytes
  stderr :: bytes

definition new_result :: "SandboxStatus \<Rightarrow> int \<Rightarrow> ExecutionResult" where
  "new_result s code =
     \<lparr> status = s, exit_code = code, cpu_time_ms = 0, wall_time_ms = 0, memory_kb = 0,
       stdout = [], stderr = [] \<rparr>"

definition with_cpu_time :: "u64 \<Rightarrow> ExecutionResult \<Rightarrow> ExecutionResult" where
  [builder_simps]: "with_cpu_time ms r = r\<lparr>cpu_time_ms := ms\<rparr>"

definition with_wall_time :: "u64 \<Rightarrow> ExecutionResult \<Rightarrow> ExecutionResult" where
  [builder_simps]: "with_wall_time ms r = r\<lparr>wall_time_ms := ms\<rparr>"

definition with_memory :: "u64 \<Rightarrow> ExecutionResult \<Rightarrow> ExecutionResult" where
  [builder_simps]: "with_memory kb r = r\<lparr>memory_kb := kb\<rparr>"

definition with_stdout :: "bytes \<Rightarrow> ExecutionResult \<Rightarrow> ExecutionResult" where
  [builder_simps]: "with_stdout d r = r\<lparr>stdout := d\<rparr>"

definition with_stderr :: "bytes \<Rightarrow> ExecutionResult \<Rightarrow> ExecutionResult" where
  [builder_simps]: "with_stderr d r = r\<lparr>stderr := d\<rparr>"

section \<open>The text form determines the status\<close>

lemma digits_val_inj:
  "show_nat m = show_nat n \<Longrightarrow> m = n"
  by (metis digits_val_show_nat option.inject)

lemma show_nat_not_minus: "show_nat n \<noteq> CHR ''-'' # s"
proof
  assume "show_nat n = CHR ''-'' # s"
  then have "CHR ''-'' \<in> set (show_nat n)" by simp
  then obtain d where d: "d < 10" "digit_char d = CHR ''-''" by (metis show_nat_digits)
  have "digit_char d \<noteq> CHR ''-''" using d(1) by (rule digit_char_neq) simp
  with d(2) show False by simp
qed

lemma show_int_inj [simp]: "show_int i = show_int j \<longleftrightarrow> i = j"
proof
  assume "show_int i = show_int j"
  then show "i = j"
    by (auto simp: show_int_def show_nat_not_minus dest: digits_val_inj split: if_splits)
       (metis show_nat_not_minus)+
qed simp

lemma show_status_inj: "show_status s = show_status t \<Longrightarrow> s = t"
  by (cases s; cases t) auto

end
