(* ===== verification/Pipeline.thy ===== *)
theory Pipeline
  imports Admission Metrics Sandbox_Result
begin

text \<open>
  The execution pipeline of one job, \<open>src/orchestrator/pipeline.rs\<close>: writing the source,
  compiling, running the test cases concurrently, judging each one and combining the
  verdicts.

  What happens outside is an argument: the outcome of \<open>TempDir::new\<close> and of writing the
  source file, the outcome of \<open>Sandbox::execute\<close> on the compile configuration and on the
  configuration of each test case, and the order in which \<open>buffer_unordered\<close> yields the
  test cases. A definition returns, beside its value, the progress events it sends (when
  the caller gave a channel) and the additions it makes to the metrics.
\<close>

section \<open>Comparison of outputs\<close>

text \<open>\<open>Iterator::position\<close> and \<open>rposition\<close>.\<close>

fun position :: "('a \<Rightarrow> bool) \<Rightarrow> 'a list \<Rightarrow> nat option" where
  "position P [] = None"
| "position P (x # xs) = (if P x then Some 0 else map_option Suc (position P xs))"

definition rposition :: "('a \<Rightarrow> bool) \<Rightarrow> 'a list \<Rightarrow> nat option" where
  "rposition P xs = map_option (\<lambda>i. length xs - 1 - i) (position P (rev xs))"

definition trim_bytes :: "bytes \<Rightarrow> bytes" where
  "trim_bytes b =
     (let start = (case position (\<lambda>c. \<not> is_ascii_whitespace c) b of Some p \<Rightarrow> p | None \<Rightarrow> length b);
          stop_at = (case rposition (\<lambda>c. \<not> is_ascii_whitespace c) b of Some p \<Rightarrow> p + 1 | None \<Rightarrow> start)
      in take (stop_at - start) (drop start b))"

section \<open>The workspace\<close>

definition SANDBOX_UID :: nat where
  "SANDBOX_UID = 65534"

definition SANDBOX_GID :: nat where
  "SANDBOX_GID = 65534"

text \<open>
  A directory tree as \<open>chown_tree\<close> finds it: an entry that is not a directory, or a
  directory with the entries that \<open>read_dir\<close> yields (\<open>None\<close>: it fails).
\<close>

datatype tree = Leaf path | Dir path "tree list option"

definition chown :: "nat \<Rightarrow> nat \<Rightarrow> path \<Rightarrow> (path \<times> nat \<times> nat) list" where
  "chown uid gid p = (if CHR 0x00 \<in> set p then [] else [(p, uid, gid)])"

fun chown_tree :: "nat \<Rightarrow> nat \<Rightarrow> tree \<Rightarrow> (path \<times> nat \<times> nat) list" where
  "chown_tree uid gid (Leaf p) = chown uid gid p"
| "chown_tree uid gid (Dir p entries) =
     chown uid gid p @
     (case entries of Some es \<Rightarrow> concat (map (chown_tree uid gid) es) | None \<Rightarrow> [])"

section \<open>Configurations\<close>

definition compile_phase_config :: "env \<Rightarrow> path \<Rightarrow> SandboxConfig \<Rightarrow> SandboxConfig" where
  "compile_phase_config env temp_dir c =
     (let compile_mem = min (SandboxConfig.memory_limit_bytes c) (compile_memory_bytes env)
      in with_work_dir temp_dir
           (with_memory_limit compile_mem
             (with_cpu_max_percent (compile_cpu_max_percent env)
               (with_pids_limit 1024
                 (with_network_isolation False
                   (with_fs_isolation False
                     (with_profile Compile c)))))))"

definition sandbox_bin_path :: "LanguageRunner \<Rightarrow> path" where
  "sandbox_bin_path runner =
     (if is_compiled runner then path_join ''/sandbox'' ''binary''
      else path_join ''/sandbox'' (get_source_filename runner))"

definition test_config ::
  "env \<Rightarrow> LanguageRunner \<Rightarrow> path \<Rightarrow> JobRequest \<Rightarrow> TestCase \<Rightarrow> SandboxConfig" where
  "test_config env runner temp_dir request test_case =
     with_cpu_max_percent (run_cpu_max_percent env)
       (with_pids_limit (max_pids runner)
         (with_network_isolation True
           (with_work_dir ''/sandbox''
             (with_workspace_dir temp_dir
               (with_fs_isolation True
                 (with_profile Run
                   (get_run_command runner (sandbox_bin_path runner) (input test_case)
                     (JobRequest.time_limit_ms request)
                     (JobRequest.memory_limit_bytes request))))))))"

section \<open>Judging\<close>

definition over_memory :: "u64 \<Rightarrow> ExecutionResult \<Rightarrow> bool" where
  "over_memory memory_limit_kb r \<longleftrightarrow>
     memory_limit_kb > 0 \<and> ExecutionResult.memory_kb r > memory_limit_kb"

definition test_verdict ::
  "u64 \<Rightarrow> u64 \<Rightarrow> string option \<Rightarrow> ExecutionResult \<Rightarrow> JudgeVerdict" where
  "test_verdict tlim mlim expected r =
     (let memory_limit_kb = mlim div 1024 in
      case ExecutionResult.status r of
        SandboxStatus.Ok \<Rightarrow>
          if over_memory memory_limit_kb r then JudgeVerdict.MemoryLimitExceeded
          else (case expected of
                  Some expected_str \<Rightarrow>
                    if trim_bytes (ExecutionResult.stdout r) = trim_bytes expected_str
                    then Accepted else WrongAnswer
                | None \<Rightarrow> Accepted)
      | SandboxStatus.TimeLimitExceeded \<Rightarrow> JudgeVerdict.TimeLimitExceeded
      | SandboxStatus.MemoryLimitExceeded \<Rightarrow> JudgeVerdict.MemoryLimitExceeded
      | _ \<Rightarrow>
          if over_memory memory_limit_kb r then JudgeVerdict.MemoryLimitExceeded
          else if ExecutionResult.cpu_time_ms r \<ge> tlim then JudgeVerdict.TimeLimitExceeded
          else JudgeVerdict.RuntimeError)"

text \<open>The verdict on the result of the test case at an index of a request.\<close>

definition judge_case :: "JobRequest \<Rightarrow> nat \<Rightarrow> ExecutionResult \<Rightarrow> JudgeVerdict" where
  "judge_case request idx =
     test_verdict (JobRequest.time_limit_ms request) (JobRequest.memory_limit_bytes request)
       (expected_output (test_cases request ! idx))"

type_synonym raw_result = "nat \<times> JudgeVerdict \<times> ExecutionResult"

text \<open>
  The loop over the stream. \<open>judge\<close> gives the verdict of a test case and \<open>outcome\<close> what its
  sandbox returned; an error drops the results and ends the job.
\<close>

fun collect ::
  "bool \<Rightarrow> (nat \<Rightarrow> ExecutionResult \<Rightarrow> JudgeVerdict) \<Rightarrow> (nat \<Rightarrow> string + ExecutionResult) \<Rightarrow>
   nat list \<Rightarrow> raw_result list \<Rightarrow> ProgressEvent list \<Rightarrow>
   (string + raw_result list) \<times> ProgressEvent list" where
  "collect stop judge outcome [] raw evs = (Inr raw, evs)"
| "collect stop judge outcome (idx # order) raw evs =
     (case outcome idx of
        Inl e \<Rightarrow> (Inl (''Sandbox error during execution: '' @ e), evs)
      | Inr r \<Rightarrow>
          let v = judge idx r;
              evs = evs @ [TestResult (idx + 1) v (ExecutionResult.cpu_time_ms r)
                                                  (ExecutionResult.memory_kb r)];
              raw = raw @ [(idx, v, r)]
          in if stop \<and> v \<noteq> Accepted then (Inr raw, evs)
             else collect stop judge outcome order raw evs)"

definition add_result :: "raw_result \<Rightarrow> JobResult \<Rightarrow> JobResult" where
  "add_result raw result =
     (case raw of (idx, v, r) \<Rightarrow>
        let result = result\<lparr>
          total_cpu_time_ms := total_cpu_time_ms result + ExecutionResult.cpu_time_ms r,
          peak_memory_kb := max (peak_memory_kb result) (ExecutionResult.memory_kb r),
          test_results := test_results result @
            [\<lparr> test_case_index = idx, status = v, cpu_time_ms = ExecutionResult.cpu_time_ms r,
               memory_kb = ExecutionResult.memory_kb r, stdout = ExecutionResult.stdout r,
               stderr = ExecutionResult.stderr r \<rparr>]\<rparr>
        in if v \<noteq> Accepted \<and> verdict result = Accepted then result\<lparr>verdict := v\<rparr> else result)"

definition finish :: "JobResult \<Rightarrow> JobResult" where
  "finish result =
     (if list_all (\<lambda>t. TestCaseResult.status t = Accepted) (test_results result)
      then result\<lparr>verdict := Accepted\<rparr> else result)"

definition job_metrics :: "string \<Rightarrow> JobResult \<Rightarrow> (counter \<times> u64) list" where
  "job_metrics lang result =
     (let passed = length (filter (\<lambda>t. TestCaseResult.status t = Accepted) (test_results result));
          failed = length (test_results result) - passed
      in record_job lang (verdict result) (total_cpu_time_ms result) (of_nat passed) (of_nat failed))"

text \<open>What a run of the pipeline leaves: its value, the events it sent, its additions to the metrics.\<close>

type_synonym outcome = "(string + JobResult) \<times> ProgressEvent list \<times> (counter \<times> u64) list"

definition run_tests ::
  "(nat \<Rightarrow> string + ExecutionResult) \<Rightarrow> nat list \<Rightarrow> JobRequest \<Rightarrow> JobResult \<Rightarrow>
   ProgressEvent list \<Rightarrow> outcome" where
  "run_tests test_outcome order request result evs =
     (let stop_on_fail = (case stop_on_first_fail request of Some b \<Rightarrow> b | None \<Rightarrow> False);
          judge = judge_case request
      in case collect stop_on_fail judge test_outcome order [] evs of
           (Inl e, evs) \<Rightarrow> (Inl e, evs, [])
         | (Inr raw, evs) \<Rightarrow>
             let result = finish (fold add_result (sort_key fst raw) result)
             in (Inr result, evs @ [Finished (verdict result)],
                 job_metrics (JobRequest.language request) result))"

section \<open>The pipeline\<close>

text \<open>
  The outside of one job. \<open>run_test\<close> is \<open>Sandbox::execute\<close> for the test case at an index
  with its configuration.
\<close>

record outside =
  tempdir :: "string + path"
  write_source :: "path \<Rightarrow> string \<Rightarrow> string + unit"
  run_compile :: "SandboxConfig \<Rightarrow> string + ExecutionResult"
  run_test :: "nat \<Rightarrow> SandboxConfig \<Rightarrow> string + ExecutionResult"
  test_order :: "nat list"

definition initial_result :: "JobRequest \<Rightarrow> JobResult" where
  "initial_result request =
     \<lparr> JobResult.job_id = JobRequest.job_id request, verdict = Accepted, total_cpu_time_ms = 0,
       peak_memory_kb = 0, compile_output = None, test_results = [] \<rparr>"

definition run_phase ::
  "env \<Rightarrow> outside \<Rightarrow> LanguageRunner \<Rightarrow> path \<Rightarrow> JobRequest \<Rightarrow> JobResult \<Rightarrow> ProgressEvent list \<Rightarrow>
   outcome" where
  "run_phase env w runner temp_dir request result evs =
     run_tests (\<lambda>idx. run_test w idx (test_config env runner temp_dir request (test_cases request ! idx)))
       (test_order w) request result evs"

definition compile_phase ::
  "env \<Rightarrow> outside \<Rightarrow> LanguageRunner \<Rightarrow> path \<Rightarrow> JobRequest \<Rightarrow> JobResult \<Rightarrow> outcome" where
  "compile_phase env w runner temp_dir request result =
     (case get_compile_command runner (path_join temp_dir (get_source_filename runner))
             (path_join temp_dir ''binary'') of
        Some c \<Rightarrow>
          (case run_compile w (compile_phase_config env temp_dir c) of
             Inl e \<Rightarrow> (Inl (''Sandbox error during compilation: '' @ e), [Compiling], [])
           | Inr r \<Rightarrow>
               if ExecutionResult.status r \<noteq> SandboxStatus.Ok
               then (Inr (result\<lparr>verdict := CompilationError,
                        compile_output := Some (from_utf8_lossy (ExecutionResult.stderr r))\<rparr>),
                     [Compiling, Finished CompilationError], [])
               else run_phase env w runner temp_dir request
                      (result\<lparr>
                        total_cpu_time_ms := total_cpu_time_ms result + ExecutionResult.cpu_time_ms r,
                        peak_memory_kb := max (peak_memory_kb result) (ExecutionResult.memory_kb r)\<rparr>)
                      [Compiling])
      | None \<Rightarrow> run_phase env w runner temp_dir request result [Compiling])"

definition execute :: "env \<Rightarrow> outside \<Rightarrow> JobRequest \<Rightarrow> outcome" where
  "execute env w request =
     (case from_str (JobRequest.language request) of
        None \<Rightarrow> (Inl (''Unsupported language: '' @ JobRequest.language request), [], [])
      | Some lang \<Rightarrow>
          let runner = get_runner lang in
          case tempdir w of
            Inl e \<Rightarrow> (Inl (''Failed to create temp directory: '' @ e), [], [])
          | Inr temp_dir \<Rightarrow>
              let result = initial_result request in
              case write_source w (path_join temp_dir (get_source_filename runner))
                     (source_code request) of
                Inl e \<Rightarrow> (Inl (''Failed to write source: '' @ e), [], [])
              | Inr _ \<Rightarrow>
                  if is_compiled runner
                  then compile_phase env w runner temp_dir request result
                  else run_phase env w runner temp_dir request result [])"

section \<open>Facts about trimming\<close>

lemma position_eq:
  "position P xs =
     (if \<exists>x \<in> set xs. P x then Some (length (takeWhile (\<lambda>x. \<not> P x) xs)) else None)"
  by (induction xs) auto

lemma trim_bytes_core:
  assumes "\<forall>c \<in> set u \<union> set v. is_ascii_whitespace c" and "core \<noteq> []"
    and "\<not> is_ascii_whitespace (hd core)" "\<not> is_ascii_whitespace (last core)"
  shows "trim_bytes (u @ core @ v) = core"
proof -
  have f: "takeWhile is_ascii_whitespace (u @ core @ v) = u"
    using assms by (cases core) (simp_all add: takeWhile_append)
  have b: "takeWhile is_ascii_whitespace (rev (u @ core @ v)) = rev v"
    using assms by (cases core rule: rev_cases) (simp_all add: takeWhile_append)
  have mem: "\<exists>c \<in> set (u @ core @ v). \<not> is_ascii_whitespace c"
    using assms(2,3) by (cases core) auto
  then have mem': "\<exists>c \<in> set (rev (u @ core @ v)). \<not> is_ascii_whitespace c" by (simp only: set_rev)
  have "position (\<lambda>c. \<not> is_ascii_whitespace c) (u @ core @ v) = Some (length u)"
    unfolding position_eq using mem f by simp
  moreover have "rposition (\<lambda>c. \<not> is_ascii_whitespace c) (u @ core @ v) =
      Some (length u + length core - 1)"
    unfolding rposition_def position_eq using mem' b by simp
  ultimately show ?thesis using assms(2) by (cases core) (simp_all add: trim_bytes_def)
qed

lemma core_exists:
  assumes "\<exists>c \<in> set b. \<not> P c"
  shows "\<exists>u core v. b = u @ core @ v \<and> (\<forall>c \<in> set u \<union> set v. P c) \<and> core \<noteq> [] \<and>
    \<not> P (hd core) \<and> \<not> P (last core)"
proof -
  obtain u x rest where u: "b = u @ x # rest" "\<not> P x" "\<forall>c \<in> set u. P c"
    using split_list_first_prop[of b "\<lambda>c. \<not> P c"] assms by auto
  obtain pre y v where v: "x # rest = pre @ y # v" "\<not> P y" "\<forall>c \<in> set v. P c"
    using split_list_last_prop[of "x # rest" "\<lambda>c. \<not> P c"] u(2) by auto
  have "hd (pre @ [y]) = x" using v(1) by (cases pre) auto
  then show ?thesis
    using u v by (intro exI[of _ u] exI[of _ "pre @ [y]"] exI[of _ v]) auto
qed

lemma trim_bytes_blank: "\<forall>c \<in> set b. is_ascii_whitespace c \<Longrightarrow> trim_bytes b = []"
  by (simp add: trim_bytes_def rposition_def position_eq)

section \<open>Facts about the loop\<close>

definition raw_of ::
  "(nat \<Rightarrow> ExecutionResult \<Rightarrow> JudgeVerdict) \<Rightarrow> (nat \<Rightarrow> string + ExecutionResult) \<Rightarrow> nat \<Rightarrow> raw_result" where
  "raw_of judge outcome idx = (idx, judge idx (projr (outcome idx)), projr (outcome idx))"

lemma fst_raw_of [simp]: "fst (raw_of judge outcome idx) = idx"
  by (simp add: raw_of_def)

text \<open>The part of the stream that the loop consumes: up to a failure when it stops there.\<close>

fun yielded :: "bool \<Rightarrow> (nat \<Rightarrow> bool) \<Rightarrow> nat list \<Rightarrow> nat list" where
  "yielded stop fails [] = []"
| "yielded stop fails (i # order) = i # (if stop \<and> fails i then [] else yielded stop fails order)"

lemma yielded_all: "\<forall>i \<in> set (yielded stop fails order). \<not> (stop \<and> fails i) \<Longrightarrow> yielded stop fails order = order"
  by (induction order) (auto split: if_splits)

lemma yielded_butlast: "stop \<Longrightarrow> i \<in> set (butlast (yielded stop fails order)) \<Longrightarrow> \<not> fails i"
  by (induction order) (auto split: if_splits)

lemma yielded_subset: "set (yielded stop fails order) \<subseteq> set order"
  by (induction order) auto

lemma yielded_distinct: "distinct order \<Longrightarrow> distinct (yielded stop fails order)"
  by (induction order) (auto dest: subsetD[OF yielded_subset])

definition fails_at ::
  "(nat \<Rightarrow> ExecutionResult \<Rightarrow> JudgeVerdict) \<Rightarrow> (nat \<Rightarrow> string + ExecutionResult) \<Rightarrow> nat \<Rightarrow> bool" where
  "fails_at judge outcome i \<longleftrightarrow> judge i (projr (outcome i)) \<noteq> Accepted"

lemma collect_Inr:
  assumes "collect stop judge outcome order raw evs = (Inr raw', evs')"
  shows "raw' = raw @ map (raw_of judge outcome) (yielded stop (fails_at judge outcome) order) \<and>
    (\<forall>i \<in> set (yielded stop (fails_at judge outcome) order). \<not> isl (outcome i))"
  using assms
  by (induction stop judge outcome order raw evs rule: collect.induct)
    (auto simp: Let_def raw_of_def fails_at_def split: sum.splits if_splits)

lemma collect_total:
  assumes "\<forall>i \<in> set order. \<not> isl (outcome i)" "\<not> stop"
  shows "fst (collect stop judge outcome order raw evs) = Inr (raw @ map (raw_of judge outcome) order)"
  using assms
  by (induction stop judge outcome order raw evs rule: collect.induct)
    (auto simp: raw_of_def Let_def split: sum.splits)

lemma insort_raw:
  "insort_key fst (raw_of judge outcome i) (map (raw_of judge outcome) xs) =
     map (raw_of judge outcome) (insort i xs)"
  by (induction xs) auto

lemma sort_raw:
  "sort_key fst (map (raw_of judge outcome) xs) = map (raw_of judge outcome) (sort xs)"
  by (induction xs) (simp_all add: insort_raw)

lemma sort_upt: "mset xs = mset [0..<n] \<Longrightarrow> sort xs = [0..<n]"
  by (metis properties_for_sort sorted_upt)

section \<open>Facts about the result\<close>

definition to_result :: "raw_result \<Rightarrow> TestCaseResult" where
  "to_result raw =
     (case raw of (idx, v, r) \<Rightarrow>
       \<lparr> test_case_index = idx, status = v, cpu_time_ms = ExecutionResult.cpu_time_ms r,
         memory_kb = ExecutionResult.memory_kb r, stdout = ExecutionResult.stdout r,
         stderr = ExecutionResult.stderr r \<rparr>)"

lemma to_result_simps [simp]:
  "test_case_index (to_result raw) = fst raw"
  "TestCaseResult.status (to_result raw) = fst (snd raw)"
  by (cases raw; simp add: to_result_def)+

text \<open>The verdict of the first test case that is not accepted.\<close>

definition first_failure :: "TestCaseResult list \<Rightarrow> JudgeVerdict" where
  "first_failure ts =
     (case find (\<lambda>t. TestCaseResult.status t \<noteq> Accepted) ts of
        Some t \<Rightarrow> TestCaseResult.status t | None \<Rightarrow> Accepted)"

lemma first_failure_simps [simp]:
  "first_failure [] = Accepted"
  "first_failure (t # ts) =
     (if TestCaseResult.status t = Accepted then first_failure ts else TestCaseResult.status t)"
  by (simp_all add: first_failure_def)

lemma first_failure_Accepted:
  "first_failure ts = Accepted \<longleftrightarrow> (\<forall>t \<in> set ts. TestCaseResult.status t = Accepted)"
  by (induction ts) auto

lemma add_result_simps [simp]:
  "test_results (add_result raw res) = test_results res @ [to_result raw]"
  "verdict (add_result raw res) = (if verdict res = Accepted then fst (snd raw) else verdict res)"
  "JobResult.job_id (add_result raw res) = JobResult.job_id res"
  "compile_output (add_result raw res) = compile_output res"
  "total_cpu_time_ms (add_result raw res) =
     total_cpu_time_ms res + ExecutionResult.cpu_time_ms (snd (snd raw))"
  unfolding add_result_def to_result_def by (simp_all add: split_beta Let_def)

lemma fold_add_result [simp]:
  "test_results (fold add_result raws res) = test_results res @ map to_result raws"
  "JobResult.job_id (fold add_result raws res) = JobResult.job_id res"
  "compile_output (fold add_result raws res) = compile_output res"
  by (induction raws arbitrary: res) simp_all

lemma fold_add_verdict:
  "verdict (fold add_result raws res) =
     (if verdict res = Accepted then first_failure (map to_result raws) else verdict res)"
  by (induction raws arbitrary: res) simp_all

lemma finish_simps [simp]:
  "test_results (finish res) = test_results res"
  "JobResult.job_id (finish res) = JobResult.job_id res"
  "compile_output (finish res) = compile_output res"
  "total_cpu_time_ms (finish res) = total_cpu_time_ms res"
  by (simp_all add: finish_def)

lemma finish_verdict:
  "verdict res = first_failure (test_results res) \<Longrightarrow>
   verdict (finish res) = first_failure (test_results res)"
  using first_failure_Accepted[of "test_results res"] by (auto simp add: finish_def list_all_iff)

section \<open>Facts about a job\<close>

definition stops :: "JobRequest \<Rightarrow> bool" where
  "stops request \<longleftrightarrow> stop_on_first_fail request = Some True"

lemma stops_eq: "(case stop_on_first_fail request of Some b \<Rightarrow> b | None \<Rightarrow> False) = stops request"
  by (auto simp: stops_def split: option.splits)

definition consumed :: "JobRequest \<Rightarrow> (nat \<Rightarrow> string + ExecutionResult) \<Rightarrow> nat list \<Rightarrow> nat list" where
  "consumed request outcome order =
     yielded (stops request) (fails_at (judge_case request) outcome) order"

text \<open>The result of a job whose test cases ran, from the results of the consumed ones.\<close>

lemma run_tests_Inr:
  assumes "run_tests outcome order request res evs = (Inr res', evs', adds)"
    and "verdict res = Accepted" "test_results res = []"
  shows "test_results res' =
      map (to_result \<circ> raw_of (judge_case request) outcome) (sort (consumed request outcome order))"
    and "verdict res' = first_failure (test_results res')"
    and "\<forall>i \<in> set (consumed request outcome order). \<not> isl (outcome i)"
    and "adds = job_metrics (JobRequest.language request) res'"
    and "JobResult.job_id res' = JobResult.job_id res"
    and "compile_output res' = compile_output res"
proof -
  obtain raw ev where c:
    "collect (stops request) (judge_case request) outcome order [] evs = (Inr raw, ev)"
    and res': "res' = finish (fold add_result (sort_key fst raw) res)"
    and adds: "adds = job_metrics (JobRequest.language request) res'"
    using assms(1) unfolding run_tests_def Let_def stops_eq
    by (auto split: prod.splits sum.splits)
  have raw: "raw = map (raw_of (judge_case request) outcome) (consumed request outcome order)"
    and ok: "\<forall>i \<in> set (consumed request outcome order). \<not> isl (outcome i)"
    using collect_Inr[OF c] by (simp_all add: consumed_def)
  show "test_results res' =
      map (to_result \<circ> raw_of (judge_case request) outcome) (sort (consumed request outcome order))"
    using assms(3) by (simp add: res' raw sort_raw)
  show "verdict res' = first_failure (test_results res')"
    unfolding res' using assms(2,3) by (simp add: finish_verdict fold_add_verdict)
  show "\<forall>i \<in> set (consumed request outcome order). \<not> isl (outcome i)" by (rule ok)
  show "adds = job_metrics (JobRequest.language request) res'" by (rule adds)
  show "JobResult.job_id res' = JobResult.job_id res" by (simp add: res')
  show "compile_output res' = compile_output res" by (simp add: res')
qed

text \<open>A job with a result stopped at a compilation error or ran its test cases.\<close>

definition test_outcome :: "env \<Rightarrow> outside \<Rightarrow> LanguageRunner \<Rightarrow> path \<Rightarrow> JobRequest \<Rightarrow> nat \<Rightarrow> string + ExecutionResult"
where
  "test_outcome env w runner temp_dir request =
     (\<lambda>idx. run_test w idx (test_config env runner temp_dir request (test_cases request ! idx)))"

lemma execute_Inr:
  assumes "execute env w request = (Inr res, evs, adds)"
  obtains (compile_failed) "verdict res = CompilationError" "compile_output res \<noteq> None"
      "test_results res = []" "adds = []" "JobResult.job_id res = JobRequest.job_id request"
      "evs = [Compiling, Finished CompilationError]"
  | (ran) lang temp_dir res0 evs0 where "from_str (JobRequest.language request) = Some lang"
      "verdict res0 = Accepted" "test_results res0 = []" "compile_output res0 = None"
      "JobResult.job_id res0 = JobRequest.job_id request"
      "run_tests (test_outcome env w (get_runner lang) temp_dir request) (test_order w) request res0 evs0
         = (Inr res, evs, adds)"
      "evs0 \<in> {[], [Compiling]}"
proof -
  obtain lang temp_dir where l: "from_str (JobRequest.language request) = Some lang"
    "tempdir w = Inr temp_dir"
    and run: "(if is_compiled (get_runner lang)
      then compile_phase env w (get_runner lang) temp_dir request (initial_result request)
      else run_phase env w (get_runner lang) temp_dir request (initial_result request) []) = (Inr res, evs, adds)"
    using assms unfolding execute_def Let_def by (auto split: option.splits sum.splits)
  show thesis
  proof (cases "is_compiled (get_runner lang)")
    case False
    then show thesis
      using run that(2)[OF l(1), of "initial_result request"]
      by (simp add: run_phase_def test_outcome_def initial_result_def)
  next
    case True
    then obtain c where c: "get_compile_command (get_runner lang)
        (path_join temp_dir (get_source_filename (get_runner lang))) (path_join temp_dir ''binary'') = Some c"
      using runner.compile_command[of lang] by (metis not_None_eq)
    then obtain r where r: "run_compile w (compile_phase_config env temp_dir c) = Inr r"
      using run True unfolding compile_phase_def by (auto split: sum.splits)
    show thesis
    proof (cases "ExecutionResult.status r = SandboxStatus.Ok")
      case True
      let ?res0 = "(initial_result request)\<lparr>
        total_cpu_time_ms := total_cpu_time_ms (initial_result request) + ExecutionResult.cpu_time_ms r,
        peak_memory_kb := max (peak_memory_kb (initial_result request)) (ExecutionResult.memory_kb r)\<rparr>"
      have "run_tests (test_outcome env w (get_runner lang) temp_dir request) (test_order w) request
          ?res0 [Compiling] = (Inr res, evs, adds)"
        using run True \<open>is_compiled (get_runner lang)\<close> c r
        by (simp add: compile_phase_def run_phase_def test_outcome_def)
      then show thesis
        by (rule that(2)[OF l(1), rotated 4]) (simp_all add: initial_result_def)
    next
      case False
      then show thesis
        using run \<open>is_compiled (get_runner lang)\<close> c r that(1)
        unfolding compile_phase_def initial_result_def by auto
    qed
  qed
qed

lemma test_verdict_not_compile: "test_verdict tlim mlim expected r \<noteq> CompilationError"
  by (auto simp: test_verdict_def Let_def split: SandboxStatus.splits option.splits)

lemma first_failure_cases:
  "first_failure ts = Accepted \<or> (\<exists>t \<in> set ts. first_failure ts = TestCaseResult.status t)"
  by (induction ts) auto

lemma test_verdict_Accepted:
  "test_verdict tlim mlim expected r = Accepted \<longleftrightarrow>
     ExecutionResult.status r = SandboxStatus.Ok \<and> \<not> over_memory (mlim div 1024) r \<and>
     (\<forall>e. expected = Some e \<longrightarrow> trim_bytes (ExecutionResult.stdout r) = trim_bytes e)"
  by (auto simp: test_verdict_def Let_def split: SandboxStatus.splits option.splits)

text \<open>The events of the loop are those of the results it collects.\<close>

fun event_of :: "TestCaseResult \<Rightarrow> ProgressEvent" where
  "event_of t = TestResult (test_case_index t + 1) (TestCaseResult.status t)
     (TestCaseResult.cpu_time_ms t) (TestCaseResult.memory_kb t)"

lemma collect_events:
  assumes "collect stop judge outcome order raw evs = (Inr raw', evs')"
    and "evs = evs0 @ map (event_of \<circ> to_result) raw"
  shows "evs' = evs0 @ map (event_of \<circ> to_result) raw'"
  using assms
  by (induction stop judge outcome order raw evs rule: collect.induct)
    (auto simp: Let_def to_result_def split: sum.splits if_splits)

lemma run_tests_events:
  assumes "run_tests outcome order request res evs = (Inr res', evs', adds)" "test_results res = []"
  shows "\<exists>ts. evs' = evs @ ts @ [Finished (verdict res')] \<and>
    mset ts = image_mset event_of (mset (test_results res'))"
proof -
  obtain raw ev where c: "collect (stops request) (judge_case request) outcome order [] evs = (Inr raw, ev)"
    and res': "res' = finish (fold add_result (sort_key fst raw) res)"
    and evs': "evs' = ev @ [Finished (verdict res')]"
    using assms(1) unfolding run_tests_def Let_def stops_eq by (auto split: prod.splits sum.splits)
  have "ev = evs @ map (event_of \<circ> to_result) raw" using collect_events[OF c, of evs] by simp
  then show ?thesis
    using assms(2) evs'
    by (intro exI[of _ "map (event_of \<circ> to_result) raw"]) (simp add: res' multiset.map_comp)
qed

section \<open>A sample job\<close>

text \<open>A small job on which the properties are instantiated.\<close>

definition sample_request :: JobRequest where
  "sample_request = new_request ''job-1'' ''python'' ''print(42)'' 2000 (64 * 1024 * 1024)
     [\<lparr>input = [], expected_output = Some ''42''\<rparr>, \<lparr>input = ''x'', expected_output = Some ''7''\<rparr>]"

definition sample_outside :: "string \<Rightarrow> outside" where
  "sample_outside second =
     \<lparr> tempdir = Inr ''/tmp/t'', write_source = (\<lambda>_ _. Inr ()),
       run_compile = (\<lambda>_. Inr (new_result (SandboxStatus.RuntimeError 1) 1)),
       run_test = (\<lambda>i _. Inr (with_stdout (if i = 0 then '' 42 '' else second)
         (new_result SandboxStatus.Ok 0))),
       test_order = [1, 0] \<rparr>"

definition no_env :: env where
  "no_env = (\<lambda>_. None)"

lemma from_str_samples [simp]: "from_str ''python'' = Some Python" "from_str ''cpp'' = Some Cpp"
  using from_str_as_str[of Python] from_str_as_str[of Cpp] by simp_all

lemma sample_execute:
  "execute no_env (sample_outside second) sample_request =
     run_tests (\<lambda>i. Inr (with_stdout (if i = 0 then '' 42 '' else second)
         (new_result SandboxStatus.Ok 0))) [1, 0] sample_request (initial_result sample_request) []"
  by (simp add: execute_def sample_request_def sample_outside_def new_request_def
      python_runner_def run_phase_def)

lemmas sample_simps = run_tests_def sample_request_def new_request_def judge_case_def
  test_verdict_def over_memory_def builder_simps new_result_def trim_bytes_def rposition_def
  is_ascii_whitespace_def initial_result_def finish_def add_result_def Let_def

lemma sample_accepted:
  "\<exists>res evs adds. execute no_env (sample_outside ''7'') sample_request = (Inr res, evs, adds) \<and>
     verdict res = Accepted"
  unfolding sample_execute by (simp add: sample_simps)

lemma sample_set:
  "set (test_order (sample_outside second)) = {0..<length (test_cases sample_request)}"
  "distinct (test_order (sample_outside second))"
  by (auto simp: sample_outside_def sample_request_def new_request_def)

section \<open>Facts about the metrics and the workspace\<close>

lemma run_tests_adds:
  assumes "run_tests outcome order request res evs = (x, evs', adds)"
    and "verdict res = Accepted" "test_results res = []"
  shows "(JOBS_COMPILE_ERROR, n) \<notin> set adds"
proof (cases x)
  case (Inl e)
  then show ?thesis
    using assms(1) unfolding run_tests_def Let_def by (auto split: prod.splits sum.splits)
next
  case (Inr res')
  note facts = run_tests_Inr[OF assms(1)[unfolded Inr] assms(2,3)]
  have "\<forall>t \<in> set (test_results res'). TestCaseResult.status t \<noteq> CompilationError"
    by (simp add: facts(1) raw_of_def judge_case_def test_verdict_not_compile)
  then have "verdict res' \<noteq> CompilationError"
    using facts(2) first_failure_cases[of "test_results res'"] by auto
  moreover have "language_counter lang \<noteq> Some JOBS_COMPILE_ERROR" for lang
    using language_counter_range[of lang] by (auto simp: not_language_def)
  ultimately show ?thesis
    unfolding facts(4) job_metrics_def record_job_def Let_def
    by (cases "verdict res'"; cases "language_counter (JobRequest.language request)"; simp; metis)
qed

fun tree_paths :: "tree \<Rightarrow> path list" where
  "tree_paths (Leaf p) = [p]"
| "tree_paths (Dir p entries) =
     p # (case entries of Some es \<Rightarrow> concat (map tree_paths es) | None \<Rightarrow> [])"

section \<open>Properties\<close>

text \<open>
  C1: an \<open>Accepted\<close> job passed every test case. If the pipeline returns \<open>Accepted\<close>, then for
  every test case of the request its sandbox returned a result with status \<open>Ok\<close>, within the
  memory limit in whole KiB (a limit below 1 KiB is not checked), and with the expected output
  up to leading and trailing white space, also when \<open>stop_on_first_fail\<close> is set and whatever the
  completion order.
\<close>

theorem accepted_sound:
  assumes "execute env w request = (Inr res, evs, adds)" "verdict res = Accepted"
    and "set (test_order w) = {0..<length (test_cases request)}"
  shows "\<exists>lang temp_dir. from_str (JobRequest.language request) = Some lang \<and>
    (\<forall>i < length (test_cases request). \<exists>r.
       run_test w i (test_config env (get_runner lang) temp_dir request (test_cases request ! i)) = Inr r \<and>
       ExecutionResult.status r = SandboxStatus.Ok \<and>
       \<not> over_memory (JobRequest.memory_limit_bytes request div 1024) r \<and>
       (\<forall>e. expected_output (test_cases request ! i) = Some e \<longrightarrow>
          trim_bytes (ExecutionResult.stdout r) = trim_bytes e))"
  using assms(1)
proof (cases rule: execute_Inr)
  case compile_failed
  then show ?thesis using assms(2) by simp
next
  case (ran lang temp_dir res0 evs0)
  let ?out = "test_outcome env w (get_runner lang) temp_dir request"
  let ?ys = "consumed request ?out (test_order w)"
  note facts = run_tests_Inr[OF ran(6,2,3)]
  have "first_failure (test_results res) = Accepted" using facts(2) assms(2) by simp
  then have acc: "\<forall>i \<in> set ?ys. judge_case request i (projr (?out i)) = Accepted"
    unfolding first_failure_Accepted facts(1) by (simp add: raw_of_def)
  then have "?ys = test_order w"
    unfolding consumed_def by (intro yielded_all) (simp add: fails_at_def)
  then have "\<exists>r. ?out i = Inr r \<and> judge_case request i r = Accepted"
    if "i < length (test_cases request)" for i
    using that acc facts(3) assms(3) by (metis atLeast0LessThan lessThan_iff sum.collapse(2))
  then show ?thesis
    using ran(1) unfolding test_outcome_def judge_case_def test_verdict_Accepted by blast
qed

theorem accepted_sound_witness:
  "\<exists>lang. from_str ''python'' = Some lang \<and> trim_bytes '' 42 '' = trim_bytes ''42''"
proof -
  obtain res evs adds where run:
    "execute no_env (sample_outside ''7'') sample_request = (Inr res, evs, adds)" "verdict res = Accepted"
    using sample_accepted by blast
  from accepted_sound[OF run sample_set(1)] show ?thesis
    by (auto simp: sample_request_def sample_outside_def new_request_def builder_simps dest: spec[of _ 0])
qed

text \<open>
  C2: the verdict of a job is that of its first failing test case in the order of the
  request. The reported test cases are in strictly increasing order of their index; a job
  without a compilation error has the verdict of the first of them that is not \<open>Accepted\<close>
  (\<open>Accepted\<close> if there is none), and \<open>compile_output\<close> is set exactly for a compilation error.
\<close>

theorem verdict_is_first_failure:
  assumes "execute env w request = (Inr res, evs, adds)" "distinct (test_order w)"
  shows "verdict res = (if compile_output res = None then first_failure (test_results res)
      else CompilationError) \<and>
    sorted_wrt (<) (map test_case_index (test_results res)) \<and>
    (compile_output res = None \<longleftrightarrow> verdict res \<noteq> CompilationError) \<and>
    JobResult.job_id res = JobRequest.job_id request"
  using assms(1)
proof (cases rule: execute_Inr)
  case compile_failed
  then show ?thesis by simp
next
  case (ran lang temp_dir res0 evs0)
  note facts = run_tests_Inr[OF ran(6,2,3)]
  have "map test_case_index (test_results res) =
      sort (consumed request (test_outcome env w (get_runner lang) temp_dir request) (test_order w))"
    unfolding facts(1) by (simp add: comp_def)
  moreover have "\<forall>t \<in> set (test_results res). TestCaseResult.status t \<noteq> CompilationError"
    by (simp add: facts(1) raw_of_def judge_case_def test_verdict_not_compile)
  ultimately show ?thesis
    using facts(2,5,6) ran(4,5) assms(2) first_failure_cases[of "test_results res"]
    by (auto simp: consumed_def yielded_distinct strict_sorted_iff)
qed

theorem verdict_is_first_failure_witness:
  "\<exists>res evs adds. execute no_env (sample_outside ''8'') sample_request = (Inr res, evs, adds) \<and>
     verdict res = WrongAnswer \<and> sorted_wrt (<) (map test_case_index (test_results res))"
proof -
  have "\<exists>res evs adds. execute no_env (sample_outside ''8'') sample_request = (Inr res, evs, adds) \<and>
     verdict res = WrongAnswer"
    unfolding sample_execute by (simp add: sample_simps)
  then show ?thesis using verdict_is_first_failure[OF _ sample_set(2)] by blast
qed

text \<open>
  C25: the stream of progress events of a job that has a result is well formed: \<open>Compiling\<close> at
  most once and first, then one \<open>TestResult\<close> per test case of the result, with its number,
  verdict, time and memory, and \<open>Finished\<close> exactly once, last, with the verdict of the result.
\<close>

theorem event_stream_wf:
  assumes "execute env w request = (Inr res, evs, adds)"
  shows "\<exists>pre ts. evs = pre @ ts @ [Finished (verdict res)] \<and> pre \<in> {[], [Compiling]} \<and>
    mset ts = image_mset event_of (mset (test_results res))"
  using assms
proof (cases rule: execute_Inr)
  case compile_failed
  then show ?thesis by (intro exI[of _ "[Compiling]"] exI[of _ "[]"]) simp
next
  case (ran lang temp_dir res0 evs0)
  then show ?thesis using run_tests_events[OF ran(6,3)] by blast
qed

theorem event_stream_wf_witness:
  "\<exists>res evs adds ts. execute no_env (sample_outside ''7'') sample_request = (Inr res, evs, adds) \<and>
     mset ts = image_mset event_of (mset (test_results res)) \<and> last evs = Finished Accepted"
proof -
  obtain res evs adds where run:
    "execute no_env (sample_outside ''7'') sample_request = (Inr res, evs, adds)" "verdict res = Accepted"
    using sample_accepted by blast
  with event_stream_wf[OF run(1)] show ?thesis by (metis append_assoc last_snoc)
qed

text \<open>
  C5: without \<open>stop_on_first_fail\<close> a job's result does not depend on the schedule, when no
  sandbox returns an error. Then, for every order in which the sandboxes finish, the result and
  the metrics are those of running the test cases one after the other. (Of several errors of
  sandboxes the job returns the one that comes first.)
\<close>

theorem schedule_independent:
  assumes "mset order = mset [0..<length (test_cases request)]"
    and "\<forall>i < length (test_cases request). \<forall>c. \<not> isl (run_test w i c)"
    and "stop_on_first_fail request \<noteq> Some True"
  shows "fst (execute env (w\<lparr>test_order := order\<rparr>) request) =
      fst (execute env (w\<lparr>test_order := [0..<length (test_cases request)]\<rparr>) request) \<and>
    snd (snd (execute env (w\<lparr>test_order := order\<rparr>) request)) =
      snd (snd (execute env (w\<lparr>test_order := [0..<length (test_cases request)]\<rparr>) request))"
proof -
  let ?n = "length (test_cases request)"
  have set: "set order = {0..<?n}" using assms(1) by (metis set_mset_mset set_upt)
  have run: "fst (run_tests out order request res evs) = fst (run_tests out [0..<?n] request res evs) \<and>
      snd (snd (run_tests out order request res evs)) = snd (snd (run_tests out [0..<?n] request res evs))"
    if "\<forall>i < ?n. \<not> isl (out i)" for out res evs
  proof -
    have "fst (collect (stops request) (judge_case request) out xs [] evs) =
        Inr (map (raw_of (judge_case request) out) xs)" if "set xs = {0..<?n}" for xs
      using collect_total[of xs out "stops request"] \<open>\<forall>i < ?n. \<not> isl (out i)\<close> that assms(3)
      by (simp add: stops_def)
    from this[OF set] this[of "[0..<?n]"] show ?thesis
      unfolding run_tests_def Let_def stops_eq
      by (auto simp: sort_raw sort_upt[OF assms(1)] sort_upt split: prod.splits)
  qed
  then have "fst (run_phase env (w\<lparr>test_order := order\<rparr>) runner temp_dir request res evs) =
      fst (run_phase env (w\<lparr>test_order := [0..<?n]\<rparr>) runner temp_dir request res evs) \<and>
      snd (snd (run_phase env (w\<lparr>test_order := order\<rparr>) runner temp_dir request res evs)) =
      snd (snd (run_phase env (w\<lparr>test_order := [0..<?n]\<rparr>) runner temp_dir request res evs))"
    for runner temp_dir res evs
    using assms(2) by (simp add: run_phase_def)
  then show ?thesis
    by (simp add: execute_def compile_phase_def Let_def split: option.split sum.split)
qed

theorem schedule_independent_witness:
  "fst (execute no_env (sample_outside ''8'') sample_request) =
     fst (execute no_env ((sample_outside ''8'')\<lparr>test_order := [0, 1]\<rparr>) sample_request)"
proof -
  have "sample_outside ''8'' = (sample_outside ''8'')\<lparr>test_order := [1, 0]\<rparr>"
    by (simp add: sample_outside_def)
  moreover have "[0..<length (test_cases sample_request)] = [0, 1]"
    by (simp add: sample_request_def new_request_def)
  ultimately show ?thesis
    using schedule_independent[of "[1, 0]" sample_request "sample_outside ''8''" no_env]
    by (simp add: sample_outside_def) (simp add: sample_request_def new_request_def)
qed

text \<open>
  With \<open>stop_on_first_fail\<close> the verdict depends on the schedule: the same job with the
  same sandbox results is judged \<open>WrongAnswer\<close> or \<open>TimeLimitExceeded\<close> by which of two failing
  test cases finishes first, and the other one is not reported.
\<close>

lemma stop_depends_on_schedule:
  "\<exists>w request r1 r2. stop_on_first_fail request = Some True \<and>
     fst (execute no_env (w\<lparr>test_order := [0, 1]\<rparr>) request) = Inr r1 \<and>
     fst (execute no_env (w\<lparr>test_order := [1, 0]\<rparr>) request) = Inr r2 \<and>
     verdict r1 = WrongAnswer \<and> verdict r2 = JudgeVerdict.TimeLimitExceeded"
proof -
  let ?w = "(sample_outside [])\<lparr>run_test := (\<lambda>i _. Inr (new_result
    (if i = 0 then SandboxStatus.Ok else SandboxStatus.TimeLimitExceeded) 0))\<rparr>"
  let ?r = "sample_request\<lparr>stop_on_first_fail := Some True\<rparr>"
  have "\<exists>r1. fst (execute no_env (?w\<lparr>test_order := [0, 1]\<rparr>) ?r) = Inr r1 \<and> verdict r1 = WrongAnswer"
    "\<exists>r2. fst (execute no_env (?w\<lparr>test_order := [1, 0]\<rparr>) ?r) = Inr r2 \<and>
       verdict r2 = JudgeVerdict.TimeLimitExceeded"
    by (simp_all add: execute_def run_phase_def sample_outside_def python_runner_def sample_simps)
  moreover have "stop_on_first_fail ?r = Some True" by simp
  ultimately show ?thesis by blast
qed

text \<open>
  C32: a failed compilation ends the job. For a compiled language whose compiler does not
  exit cleanly, the job's verdict is \<open>CompilationError\<close> with the compiler's error output,
  no test case is run or reported and nothing is recorded in the metrics.
\<close>

theorem compile_failure_stops:
  assumes "from_str (JobRequest.language request) = Some lang" "is_compiled (get_runner lang)"
    and "tempdir w = Inr d" "\<forall>p s. write_source w p s = Inr ()"
    and "\<forall>c. run_compile w c = Inr r" "ExecutionResult.status r \<noteq> SandboxStatus.Ok"
  shows "execute env w request =
    (Inr \<lparr> JobResult.job_id = JobRequest.job_id request, verdict = CompilationError,
       total_cpu_time_ms = 0, peak_memory_kb = 0,
       compile_output = Some (from_utf8_lossy (ExecutionResult.stderr r)), test_results = [] \<rparr>,
     [Compiling, Finished CompilationError], [])"
proof -
  obtain c where "get_compile_command (get_runner lang)
      (path_join d (get_source_filename (get_runner lang))) (path_join d ''binary'') = Some c"
    using runner.compile_command[of lang] assms(2) by (metis not_None_eq)
  then show ?thesis
    using assms by (simp add: execute_def compile_phase_def initial_result_def)
qed

theorem compile_failure_stops_witness:
  "fst (snd (execute no_env (sample_outside []) (sample_request\<lparr>JobRequest.language := as_str Cpp\<rparr>))) =
     [Compiling, Finished CompilationError]"
  using compile_failure_stops[of "sample_request\<lparr>JobRequest.language := as_str Cpp\<rparr>" Cpp "sample_outside []" "''/tmp/t''"
      "new_result (SandboxStatus.RuntimeError 1) 1" no_env]
  by (simp add: sample_outside_def new_result_def cpp_runner_def)

text \<open>
  Compilation errors are never counted. No job adds to the counter of compilation
  errors, whatever its source, its sandboxes' results and their order.
\<close>

lemma compile_errors_not_counted:
  assumes "execute env w request = (x, evs, adds)"
  shows "(JOBS_COMPILE_ERROR, n) \<notin> set adds"
proof -
  have run: "(JOBS_COMPILE_ERROR, n) \<notin> set adds"
    if "run_phase env w runner d request res evs0 = (x, evs, adds)" "verdict res = Accepted"
      "test_results res = []" for runner d res evs0
    using that run_tests_adds unfolding run_phase_def by metis
  show ?thesis
    using assms
    by (auto simp: execute_def compile_phase_def Let_def initial_result_def
        split: option.splits sum.splits if_splits dest: run)
qed

lemma compile_errors_not_counted_witness:
  "\<exists>x evs adds. execute no_env (sample_outside []) (sample_request\<lparr>JobRequest.language := as_str Cpp\<rparr>) = (x, evs, adds) \<and>
     (JOBS_COMPILE_ERROR, 1) \<notin> set adds"
  by (metis compile_errors_not_counted surj_pair)

text \<open>
  Every test case runs isolated and with the limits of the request, for every language:
  the untrusted profile with file system and network isolation, the process limit of its
  runner (between 2 and 24), the requested time and memory limit, the test's input, and a
  wall-clock limit not below the CPU limit.
\<close>

lemma tests_isolated:
  "let c = test_config env (get_runner lang) d request tc in
     profile c = Run \<and> enable_fs_isolation c \<and> enable_network_isolation c \<and>
     work_dir c = Some ''/sandbox'' \<and> workspace_dir c = Some d \<and>
     2 \<le> unat (pids_limit c) \<and> unat (pids_limit c) \<le> 24 \<and>
     SandboxConfig.time_limit_ms c = JobRequest.time_limit_ms request \<and>
     SandboxConfig.memory_limit_bytes c = JobRequest.memory_limit_bytes request \<and>
     stdin_data c = Some (input tc) \<and> max_output_bytes c = 10485760 \<and> wf_config c"
proof -
  have "wf_config (test_config env (get_runner lang) d request tc)"
    unfolding test_config_def by (intro wf_config_cpu_max) (simp add: runner.run_wf)
  then show ?thesis
    using runner.pids_bounds[of lang]
    by (simp add: Let_def test_config_def with_cpu_max_percent_def builder_simps runner.run_limits)
qed

text \<open>
  A compilation never gets more memory than the deployment's ceiling, nor more than
  512 MiB, and is confined to the job's own directory as its working directory.
\<close>

lemma compile_bounded:
  assumes "get_compile_command (get_runner lang) src bin = Some c"
  shows "let c' = compile_phase_config env d c in
    SandboxConfig.memory_limit_bytes c' \<le> compile_memory_bytes env \<and>
    unat (SandboxConfig.memory_limit_bytes c') \<le> 536870912 \<and>
    unat (SandboxConfig.time_limit_ms c') \<le> 20000 \<and>
    profile c' = Compile \<and> work_dir c' = Some d \<and> wf_config c'"
proof -
  note wf = runner.compile_wf[OF assms]
  have "unat (min a b) \<le> unat a" for a b :: u64
    by (simp add: min_def word_le_nat_alt)
  then have "unat (min (SandboxConfig.memory_limit_bytes c) (compile_memory_bytes env)) \<le> 536870912"
    using wf le_trans by blast
  moreover have "wf_config (compile_phase_config env d c)"
    unfolding compile_phase_config_def Let_def by (simp add: wf_config_cpu_max wf)
  ultimately show ?thesis
    using wf by (simp add: Let_def compile_phase_config_def with_cpu_max_percent_def builder_simps)
qed

lemma compile_bounded_witness:
  "unat (SandboxConfig.memory_limit_bytes (compile_phase_config no_env ''/tmp/t''
     (the (get_compile_command cpp_runner ''/tmp/t/main.cpp'' ''/tmp/t/binary'')))) \<le> 536870912"
  using compile_bounded[of Cpp "''/tmp/t/main.cpp''" "''/tmp/t/binary''" _ no_env "''/tmp/t''"]
  by (simp add: cpp_runner_def Let_def)

text \<open>
  Outputs are compared up to surrounding white space only. \<open>trim_bytes\<close> cuts a prefix
  and a suffix of ASCII white space off its argument, and what it leaves is empty or starts
  and ends with another character.
\<close>

lemma trim_bytes_correct:
  "\<exists>u v. b = u @ trim_bytes b @ v \<and> list_all is_ascii_whitespace (u @ v) \<and>
     (trim_bytes b = [] \<or>
      \<not> is_ascii_whitespace (hd (trim_bytes b)) \<and> \<not> is_ascii_whitespace (last (trim_bytes b)))"
proof (cases "list_all is_ascii_whitespace b")
  case True
  then show ?thesis
    using trim_bytes_blank[of b] by (intro exI[of _ b] exI[of _ "[]"]) (simp add: list_all_iff)
next
  case False
  then obtain u core v where b: "b = u @ core @ v" "\<forall>c \<in> set u \<union> set v. is_ascii_whitespace c"
    "core \<noteq> []" "\<not> is_ascii_whitespace (hd core)" "\<not> is_ascii_whitespace (last core)"
    using core_exists[of b is_ascii_whitespace] unfolding list_all_iff by blast
  then show ?thesis using trim_bytes_core[OF b(2-5)] by (auto simp: list_all_iff)
qed

text \<open>
  The hand-over of the workspace reaches every entry of the readable tree, in the order
  of the walk, except the ones whose path has a NUL byte.
\<close>

lemma chown_tree_complete:
  "chown_tree uid gid t = map (\<lambda>p. (p, uid, gid)) (filter (\<lambda>p. CHR 0x00 \<notin> set p) (tree_paths t))"
proof (induction t)
  case (Leaf p)
  then show ?case by (simp add: chown_def)
next
  case (Dir p entries)
  have "concat (map (chown_tree uid gid) es) = map (\<lambda>p. (p, uid, gid))
      (filter (\<lambda>p. CHR 0x00 \<notin> set p) (concat (map tree_paths es)))" if "entries = Some es" for es
    using Dir that by (induction es arbitrary: entries) (auto simp: filter_concat)
  then show ?case by (auto simp: chown_def split: option.split)
qed

end
