(* ===== verification/Io_Trace.thy ===== *)
theory Io_Trace
  imports Akiro_Prelude
begin

text \<open>
  Programs that talk to something outside the repository: the kernel, or a Redis server. The
  outside is an argument of every definition: a function that answers a call given the
  history of the calls and answers so far. Nothing is assumed about it. A program is a
  function from the outside and the history to its value and the extended history, so a
  theorem about the history holds for every behaviour of the outside.

  The predicate \<open>emits m Q\<close> says that whatever the answers are, \<open>m\<close> only extends the
  history and its value and extension satisfy \<open>Q\<close>; its rules make such proofs
  compositional.
\<close>

type_synonym ('c, 'r) history = "('c \<times> 'r) list"
type_synonym ('c, 'r) outside_world = "('c, 'r) history \<Rightarrow> 'c \<Rightarrow> 'r"
type_synonym ('c, 'r, 'a) io = "('c, 'r) outside_world \<Rightarrow> ('c, 'r) history \<Rightarrow> 'a \<times> ('c, 'r) history"

section \<open>Programs\<close>

definition retm :: "'a \<Rightarrow> ('c, 'r, 'a) io" where
  "retm x = (\<lambda>os tr. (x, tr))"

definition bindm :: "('c, 'r, 'a) io \<Rightarrow> ('a \<Rightarrow> ('c, 'r, 'b) io) \<Rightarrow> ('c, 'r, 'b) io" where
  "bindm m f = (\<lambda>os tr. case m os tr of (x, tr') \<Rightarrow> f x os tr')"

definition callm :: "'c \<Rightarrow> ('c, 'r, 'r) io" where
  "callm c = (\<lambda>os tr. let r = os tr c in (r, tr @ [(c, r)]))"

text \<open>A call whose answer is ignored, and the \<open>?\<close> operator on a program's result.\<close>

definition execm :: "'c \<Rightarrow> ('c, 'r, unit) io" where
  "execm c = bindm (callm c) (\<lambda>_. retm ())"

definition trym :: "('c, 'r, 'e + 'a) io \<Rightarrow> ('a \<Rightarrow> ('c, 'r, 'e + 'b) io) \<Rightarrow> ('c, 'r, 'e + 'b) io" where
  "trym m f = bindm m (\<lambda>r. case r of Inl e \<Rightarrow> retm (Inl e) | Inr x \<Rightarrow> f x)"

definition thenm :: "('c, 'r, 'a) io \<Rightarrow> ('c, 'r, 'b) io \<Rightarrow> ('c, 'r, 'b) io" where
  "thenm m n = bindm m (\<lambda>_. n)"

text \<open>The laws of the monad that rearrange programs.\<close>

lemma bindm_assoc: "bindm (bindm m f) g = bindm m (\<lambda>x. bindm (f x) g)"
  by (simp add: bindm_def fun_eq_iff split: prod.split)

lemma bindm_retm: "bindm (retm x) f = f x"
  by (simp add: bindm_def retm_def)

text \<open>A \<open>for\<close> loop whose body may return an error, and one whose body may not.\<close>

fun for_try :: "('a \<Rightarrow> ('c, 'r, 'e + unit) io) \<Rightarrow> 'a list \<Rightarrow> ('c, 'r, 'e + unit) io" where
  "for_try f [] = retm (Inr ())"
| "for_try f (x # xs) = trym (f x) (\<lambda>_. for_try f xs)"

fun for_each :: "('a \<Rightarrow> ('c, 'r, unit) io) \<Rightarrow> 'a list \<Rightarrow> ('c, 'r, unit) io" where
  "for_each f [] = retm ()"
| "for_each f (x # xs) = thenm (f x) (for_each f xs)"

section \<open>Reasoning about histories\<close>

definition emits :: "('c, 'r, 'a) io \<Rightarrow> ('a \<Rightarrow> ('c, 'r) history \<Rightarrow> bool) \<Rightarrow> bool" where
  "emits m Q \<longleftrightarrow> (\<forall>os tr. \<exists>x e. m os tr = (x, tr @ e) \<and> Q x e)"

lemma emits_retm [intro]: "Q x [] \<Longrightarrow> emits (retm x) Q"
  by (simp add: emits_def retm_def)

lemma emits_callm [intro]: "(\<And>r. Q r [(c, r)]) \<Longrightarrow> emits (callm c) Q"
  by (simp add: emits_def callm_def Let_def)

lemma emits_conseq: "emits m Q \<Longrightarrow> (\<And>x e. Q x e \<Longrightarrow> R x e) \<Longrightarrow> emits m R"
  unfolding emits_def by metis

lemma emits_bindm:
  assumes "emits m Q" and "\<And>x. emits (f x) (R x)"
    and "\<And>x e y e'. Q x e \<Longrightarrow> R x y e' \<Longrightarrow> S y (e @ e')"
  shows "emits (bindm m f) S"
  unfolding emits_def
proof (intro allI)
  fix os tr
  obtain x e where x: "m os tr = (x, tr @ e)" "Q x e" using assms(1) unfolding emits_def by metis
  obtain y e' where y: "f x os (tr @ e) = (y, (tr @ e) @ e')" "R x y e'"
    using assms(2)[of x] unfolding emits_def by metis
  show "\<exists>y e. bindm m f os tr = (y, tr @ e) \<and> S y e"
    using x y assms(3) by (auto simp: bindm_def)
qed

lemma emits_bindm':
  assumes "emits m (\<lambda>x e. emits (f x) (\<lambda>y e'. S y (e @ e')))"
  shows "emits (bindm m f) S"
  unfolding emits_def
proof (intro allI)
  fix os tr
  obtain x e where x: "m os tr = (x, tr @ e)" "emits (f x) (\<lambda>y e'. S y (e @ e'))"
    using assms unfolding emits_def by metis
  obtain y e' where y: "f x os (tr @ e) = (y, (tr @ e) @ e')" "S y (e @ e')"
    using x(2) unfolding emits_def by metis
  show "\<exists>y e. bindm m f os tr = (y, tr @ e) \<and> S y e"
    using x y by (auto simp: bindm_def)
qed

lemma emits_trym:
  assumes "emits m (\<lambda>r e. case r of Inl x \<Rightarrow> S (Inl x) e
    | Inr x \<Rightarrow> emits (f x) (\<lambda>y e'. S y (e @ e')))"
  shows "emits (trym m f) S"
  unfolding trym_def
  by (rule emits_bindm', rule emits_conseq[OF assms]) (auto split: sum.splits)

lemma emits_thenm:
  assumes "emits m (\<lambda>x e. emits n (\<lambda>y e'. S y (e @ e')))"
  shows "emits (thenm m n) S"
  unfolding thenm_def by (rule emits_bindm') (rule assms)

lemma emits_execm [intro]: "(\<And>r. Q () [(c, r)]) \<Longrightarrow> emits (execm c) Q"
  unfolding execm_def by (rule emits_bindm', rule emits_callm, rule emits_retm) simp

text \<open>The same rules with a known fact about the first program.\<close>

lemma emits_bindm_with:
  assumes "emits m Q" and "\<And>x e. Q x e \<Longrightarrow> emits (f x) (\<lambda>y e'. S y (e @ e'))"
  shows "emits (bindm m f) S"
  by (rule emits_bindm', rule emits_conseq[OF assms(1)]) (rule assms(2))

lemma emits_trym_with:
  assumes "emits m Q" and "\<And>x e. Q (Inl x) e \<Longrightarrow> S (Inl x) e"
    and "\<And>x e. Q (Inr x) e \<Longrightarrow> emits (f x) (\<lambda>y e'. S y (e @ e'))"
  shows "emits (trym m f) S"
  by (rule emits_trym, rule emits_conseq[OF assms(1)]) (auto split: sum.splits intro: assms(2,3))

lemma emits_thenm_with:
  assumes "emits m Q" and "\<And>x e. Q x e \<Longrightarrow> emits n (\<lambda>y e'. S y (e @ e'))"
  shows "emits (thenm m n) S"
  unfolding thenm_def using assms by (rule emits_bindm_with)

lemma emits_call_bindm:
  assumes "\<And>r. emits (f r) (\<lambda>y e. S y ((c, r) # e))"
  shows "emits (bindm (callm c) f) S"
  by (rule emits_bindm', rule emits_callm) (use assms in simp)

text \<open>Two facts about the same program hold together.\<close>

lemma emits_conj: "emits m Q \<Longrightarrow> emits m R \<Longrightarrow> emits m (\<lambda>x e. Q x e \<and> R x e)"
  unfolding emits_def by (metis Pair_inject same_append_eq)

lemma emits_True_for_each:
  assumes "\<And>x. emits (f x) (\<lambda>_ _. True)" shows "emits (for_each f xs) (\<lambda>_ _. True)"
  by (induction xs) (auto intro!: emits_thenm emits_conseq[OF assms] elim: emits_conseq)

lemma emits_run: "emits m Q \<Longrightarrow> m os tr = (x, tr') \<Longrightarrow> \<exists>e. tr' = tr @ e \<and> Q x e"
  unfolding emits_def by (metis Pair_inject)

section \<open>Programs that only make certain calls\<close>

definition only :: "('c \<Rightarrow> bool) \<Rightarrow> ('c, 'r, 'a) io \<Rightarrow> bool" where
  "only P m \<longleftrightarrow> emits m (\<lambda>_ e. \<forall>(c, r) \<in> set e. P c)"

lemma only_retm [intro]: "only P (retm x)"
  by (auto simp: only_def)

lemma only_callm [intro]: "P c \<Longrightarrow> only P (callm c)"
  by (auto simp: only_def)

lemma only_bindm [intro]:
  assumes "only P m" "\<And>x. only P (f x)" shows "only P (bindm m f)"
  unfolding only_def
  by (rule emits_bindm_with[OF assms(1)[unfolded only_def]], rule emits_conseq[OF assms(2)[unfolded only_def]])
    auto

lemma only_trym [intro]: "only P m \<Longrightarrow> (\<And>x. only P (f x)) \<Longrightarrow> only P (trym m f)"
  unfolding trym_def by (rule only_bindm) (auto split: sum.split)

lemma only_thenm [intro]: "only P m \<Longrightarrow> only P n \<Longrightarrow> only P (thenm m n)"
  unfolding thenm_def by (rule only_bindm)

lemma only_execm [intro]: "P c \<Longrightarrow> only P (execm c)"
  unfolding execm_def by (rule only_bindm) (auto)

lemma only_for_try [intro]: "(\<And>x. only P (f x)) \<Longrightarrow> only P (for_try f xs)"
  by (induction xs) auto

lemma only_for_each [intro]: "(\<And>x. only P (f x)) \<Longrightarrow> only P (for_each f xs)"
  by (induction xs) auto

lemma only_if [intro]: "only P m \<Longrightarrow> only P n \<Longrightarrow> only P (if b then m else n)"
  by simp

lemma only_option [intro]: "only P m \<Longrightarrow> (\<And>x. only P (f x)) \<Longrightarrow> only P (case z of None \<Rightarrow> m | Some x \<Rightarrow> f x)"
  by (cases z) auto

lemma only_sum [intro]: "(\<And>x. only P (f x)) \<Longrightarrow> (\<And>x. only P (g x)) \<Longrightarrow> only P (case z of Inl x \<Rightarrow> f x | Inr x \<Rightarrow> g x)"
  by (cases z) auto

lemma only_mono: "only P m \<Longrightarrow> (\<And>c. P c \<Longrightarrow> Q c) \<Longrightarrow> only Q m"
  unfolding only_def by (erule emits_conseq) auto

lemmas only_intros = only_retm only_callm only_bindm only_trym only_thenm only_execm only_for_try
  only_for_each only_if only_option only_sum

text \<open>What held before each call of a certain kind.\<close>

definition guarded :: "('c \<Rightarrow> bool) \<Rightarrow> (('c, 'r) history \<Rightarrow> bool) \<Rightarrow> ('c, 'r) history \<Rightarrow> bool" where
  "guarded K G e \<longleftrightarrow> (\<forall>e1 c r e2. e = e1 @ (c, r) # e2 \<longrightarrow> K c \<longrightarrow> G e1)"

lemma guarded_none: "\<forall>(c, r) \<in> set e. \<not> K c \<Longrightarrow> guarded K G e"
  by (auto simp: guarded_def)

lemma guarded_append:
  assumes "\<forall>(c, r) \<in> set a. \<not> K c" "guarded K (\<lambda>e. G (a @ e)) b"
  shows "guarded K G (a @ b)"
  unfolding guarded_def
proof (intro allI impI)
  fix e1 c r e2
  assume eq: "a @ b = e1 @ (c, r) # e2" and "K c"
  with assms(1) obtain d where "e1 = a @ d" "b = d @ (c, r) # e2"
    by (fastforce simp: append_eq_append_conv2 append_eq_Cons_conv)
  with assms(2) \<open>K c\<close> show "G e1" by (simp add: guarded_def)
qed

lemma guarded_prefix:
  assumes "guarded K G a" "\<forall>(c, r) \<in> set b. \<not> K c"
  shows "guarded K G (a @ b)"
  unfolding guarded_def
proof (intro allI impI)
  fix e1 c r e2
  assume eq: "a @ b = e1 @ (c, r) # e2" and "K c"
  with assms(2) obtain d where "a = e1 @ (c, r) # d"
    by (auto simp: append_eq_append_conv2 append_eq_Cons_conv)
  with assms(1) \<open>K c\<close> show "G e1" by (simp add: guarded_def)
qed

text \<open>Rules for programs whose first part makes no call of the kind, or whose last part does not.\<close>

lemma emits_guard_bindm:
  assumes "only (\<lambda>c. \<not> K c) m" "emits m Q"
    and "\<And>x e. Q x e \<Longrightarrow> emits (f x) (\<lambda>_ e'. guarded K (\<lambda>e2. G (e @ e2)) e')"
  shows "emits (bindm m f) (\<lambda>_. guarded K G)"
  by (rule emits_bindm_with[OF emits_conj[OF assms(1)[unfolded only_def] assms(2)]],
      rule emits_conseq[OF assms(3)]) (auto intro: guarded_append)

lemma emits_guard_trym:
  assumes "only (\<lambda>c. \<not> K c) m" "emits m Q"
    and "\<And>x e. Q (Inr x) e \<Longrightarrow> emits (f x) (\<lambda>_ e'. guarded K (\<lambda>e2. G (e @ e2)) e')"
  shows "emits (trym m f) (\<lambda>_. guarded K G)"
  unfolding trym_def
  by (rule emits_guard_bindm[OF assms(1,2)])
    (auto intro!: emits_retm assms(3) guarded_none split: sum.split)

lemma emits_guard_thenm:
  assumes "only (\<lambda>c. \<not> K c) m" "emits m Q"
    and "\<And>x e. Q x e \<Longrightarrow> emits n (\<lambda>_ e'. guarded K (\<lambda>e2. G (e @ e2)) e')"
  shows "emits (thenm m n) (\<lambda>_. guarded K G)"
  unfolding thenm_def by (rule emits_guard_bindm[OF assms])

lemma emits_guard_tail:
  assumes "emits m (\<lambda>_. guarded K G)" "\<And>x. only (\<lambda>c. \<not> K c) (f x)"
  shows "emits (bindm m f) (\<lambda>_. guarded K G)"
  by (rule emits_bindm_with[OF assms(1)], rule emits_conseq[OF assms(2)[unfolded only_def]])
    (rule guarded_prefix)

lemma emits_only: "only P m \<Longrightarrow> emits m (\<lambda>_ _. True)"
  unfolding only_def by (erule emits_conseq) simp

lemma emits_only_guard: "only (\<lambda>c. \<not> K c) m \<Longrightarrow> emits m (\<lambda>_. guarded K G)"
  unfolding only_def by (erule emits_conseq) (rule guarded_none)

lemma guarded_weaken: "guarded K G e \<Longrightarrow> (\<And>x. G x \<Longrightarrow> H x) \<Longrightarrow> guarded K H e"
  by (auto simp: guarded_def)

text \<open>A guard on the calls right before the guarded one composes without looking further back.\<close>

lemma guarded_both:
  assumes "guarded K G a" "guarded K G b" "\<And>x e. G e \<Longrightarrow> G (x @ e)"
  shows "guarded K G (a @ b)"
  unfolding guarded_def
proof (intro allI impI)
  fix e1 c r e2
  assume eq: "a @ b = e1 @ (c, r) # e2" and "K c"
  then consider d where "a = e1 @ (c, r) # d" | d where "e1 = a @ d" "b = d @ (c, r) # e2"
    by (fastforce simp: append_eq_append_conv2 append_eq_Cons_conv)
  then show "G e1"
    using assms \<open>K c\<close> by cases (simp_all add: guarded_def)
qed

lemma emits_guard_both:
  assumes "emits m (\<lambda>_. guarded K G)" "\<And>x. emits (f x) (\<lambda>_. guarded K G)"
    and "\<And>x e. G e \<Longrightarrow> G (x @ e)"
  shows "emits (bindm m f) (\<lambda>_. guarded K G)"
  by (rule emits_bindm_with[OF assms(1)], rule emits_conseq[OF assms(2)])
    (blast intro: guarded_both assms(3))

lemma guarded_Cons:
  "guarded K G ((c, r) # e) \<longleftrightarrow> (K c \<longrightarrow> G []) \<and> guarded K (\<lambda>x. G ((c, r) # x)) e"
proof
  assume l: "guarded K G ((c, r) # e)"
  have "G ((c, r) # x)" if "e = x @ (c', r') # y" "K c'" for x c' r' y
    using l that unfolding guarded_def by (metis append_Cons)
  moreover have "K c \<longrightarrow> G []" using l unfolding guarded_def by (metis append_Nil)
  ultimately show "(K c \<longrightarrow> G []) \<and> guarded K (\<lambda>x. G ((c, r) # x)) e"
    unfolding guarded_def by blast
qed (auto simp: guarded_def Cons_eq_append_conv)

lemma guarded_Nil [simp]: "guarded K G []"
  by (simp add: guarded_def)

end
