(* ===== verification/Os_Trace.thy ===== *)
theory Os_Trace
  imports Io_Trace
begin

text \<open>
  The calls the sandbox makes to the operating system and their answers. The kernel is the
  outside of \<open>Io_Trace\<close>; nothing is assumed about what it answers.
\<close>

section \<open>Calls and answers\<close>

datatype (plugins only: code size) os_call =
    Create_dir_all path
  | Metadata path
  | Path_exists path
  | Is_dir path
  | Open_write path
  | Write_all path string
  | Read_to_string path
  | Remove_dir path
  | Remove_dir_all path
  | Mount "string option" path "string option" "string list" "string option"
  | Umount2 path "string list"
  | Pivot_root path path
  | Set_current_dir path
  | Mknod path nat nat
  | Chdir path
  | Pipe
  | Fcntl_cloexec int
  | Close int
  | Dup2 int int
  | Setpgid int int
  | Setrlimit string u64 u64
  | Clearenv
  | Setenv string string
  | Unshare "string list"
  | Prctl_no_new_privs
  | Seccomp_load "string list"
  | Setgroups nat
  | Setresgid nat nat nat
  | Setresuid nat nat nat
  | Getuid
  | Geteuid
  | Setuid nat
  | Execve path "string list" "string list"
  | Perror string
  | Exit int
  | Kill int int
  | Yield_now
  | Acquire_permits nat
  | Release_permits nat
  | Fork
  | Sleep_ms nat
  | Spawn_writer int "string option"
  | Spawn_reader int

text \<open>
  An answer: the integer a libc call returns, two descriptors, the contents of a file, a
  truth value, or an error with its message and error number (for the calls of
  \<open>std::fs\<close>).
\<close>

datatype os_ret = Ret int | Fds int int | Contents string | Answer bool | Err string int

type_synonym trace = "(os_call, os_ret) history"
type_synonym os = "(os_call, os_ret) outside_world"
type_synonym 'a os_m = "(os_call, os_ret, 'a) io"

definition ret_int :: "os_ret \<Rightarrow> int" where
  "ret_int r = (case r of Ret i \<Rightarrow> i | _ \<Rightarrow> - 1)"

definition ret_bool :: "os_ret \<Rightarrow> bool" where
  "ret_bool r = (case r of Answer b \<Rightarrow> b | _ \<Rightarrow> False)"

definition ret_ok :: "os_ret \<Rightarrow> bool" where
  "ret_ok r = (case r of Err e n \<Rightarrow> False | _ \<Rightarrow> True)"

definition ret_msg :: "os_ret \<Rightarrow> string" where
  "ret_msg r = (case r of Err e n \<Rightarrow> e | _ \<Rightarrow> [])"

section \<open>Kinds of calls\<close>

fun is_exec :: "os_call \<Rightarrow> bool" where
  "is_exec (Execve p a v) = True"
| "is_exec _ = False"

fun is_reader :: "os_call \<Rightarrow> bool" where
  "is_reader (Spawn_reader fd) = True"
| "is_reader _ = False"

fun is_permit :: "os_call \<Rightarrow> bool" where
  "is_permit (Acquire_permits n) = True"
| "is_permit (Release_permits n) = True"
| "is_permit _ = False"

text \<open>The other calls: no program is executed, no output read, no permit moved.\<close>

definition plain :: "os_call \<Rightarrow> bool" where
  "plain c \<longleftrightarrow> \<not> is_exec c \<and> \<not> is_reader c \<and> \<not> is_permit c"

lemma plain_simps [simp]:
  "plain (Create_dir_all p)" "plain (Metadata p)" "plain (Path_exists p)" "plain (Is_dir p)"
  "plain (Open_write p)" "plain (Write_all p v)" "plain (Read_to_string p)" "plain (Remove_dir p)"
  "plain (Remove_dir_all p)" "plain (Mount a b f fl d)" "plain (Umount2 p fl)" "plain (Pivot_root p q)"
  "plain (Set_current_dir p)" "plain (Mknod p i j)" "plain (Chdir p)" "plain Pipe"
  "plain (Fcntl_cloexec fd)" "plain (Close fd)" "plain (Dup2 x y)" "plain (Setpgid x y)"
  "plain (Setrlimit l lo hi)" "plain Clearenv" "plain (Setenv key v)" "plain (Unshare fl)"
  "plain Prctl_no_new_privs" "plain (Seccomp_load rules)" "plain (Setgroups g)" "plain (Setresgid g h i)"
  "plain (Setresuid g h i)" "plain Getuid" "plain Geteuid" "plain (Setuid g)" "plain (Perror msg)"
  "plain (Exit x)" "plain (Kill x y)" "plain Yield_now" "plain Fork" "plain (Sleep_ms n)"
  "plain (Spawn_writer fd inp)"
  by (simp_all add: plain_def)

lemma not_exec: "only plain m \<Longrightarrow> only (\<lambda>c. \<not> is_exec c) m"
  and not_reader: "only plain m \<Longrightarrow> only (\<lambda>c. \<not> is_reader c) m"
  and not_permit: "only plain m \<Longrightarrow> only (\<lambda>c. \<not> is_permit c) m"
  by (erule only_mono, simp add: plain_def)+

end
