(* ===== verification/Fs_Isolation.thy ===== *)
theory Fs_Isolation
  imports Os_Trace Languages
begin

text \<open>
  The file system jail of a sandboxed child, \<open>src/sandbox/fs.rs\<close>: the ephemeral root with its
  read-only binds, device nodes, \<open>/proc\<close> and workspace, \<open>pivot_root\<close>, and the teardown of
  \<open>Drop\<close>. A failed \<open>unwrap\<close> of a \<open>CString\<close> (a path with a NUL byte) is the value \<open>Panic\<close>; the
  release profile aborts the process there. Paths are shown, and handed to \<open>libc\<close>, after
  \<open>to_string_lossy\<close>.
\<close>

section \<open>Data\<close>

datatype FsError =
    RootCreationFailed string
  | MountFailed string
  | DirCreationFailed string
  | PivotRootFailed string
  | UmountFailed string
  | BindMountFailed string
  | DevNodeFailed string
  | UnsupportedPlatform
  | Panic

fun show_fs_error :: "FsError \<Rightarrow> string" where
  "show_fs_error (RootCreationFailed e) = ''Failed to create ephemeral root: '' @ e"
| "show_fs_error (MountFailed e) = ''Failed to mount filesystem: '' @ e"
| "show_fs_error (DirCreationFailed e) = ''Failed to create directory: '' @ e"
| "show_fs_error (PivotRootFailed e) = ''Failed to pivot_root: '' @ e"
| "show_fs_error (UmountFailed e) = ''Failed to unmount: '' @ e"
| "show_fs_error (BindMountFailed e) = ''Failed to bind mount: '' @ e"
| "show_fs_error (DevNodeFailed e) = ''Failed to create device node: '' @ e"
| "show_fs_error UnsupportedPlatform = ''Filesystem setup not supported on this platform''"
| "show_fs_error Panic = []"

record FsIsolation =
  root_path :: path
  fs_job_id :: string

text \<open>\<open>CString::new(p.to_string_lossy().as_bytes())\<close>.\<close>

definition cstring :: "bytes \<Rightarrow> bytes option" where
  "cstring b = (if CHR 0x00 \<in> set b then None else Some b)"

definition path_cstr :: "path \<Rightarrow> bytes option" where
  "path_cstr p = cstring (from_utf8_lossy p)"

section \<open>Building blocks\<close>

definition create_dir :: "(string \<Rightarrow> FsError) \<Rightarrow> path \<Rightarrow> (FsError + unit) os_m" where
  "create_dir err p =
     bindm (callm (Create_dir_all p)) (\<lambda>r.
       if \<not> ret_ok r then retm (Inl (err (ret_msg r))) else retm (Inr ()))"

text \<open>\<open>mount(2)\<close> with paths converted to C strings; an answer other than 0 is the given error.\<close>

definition do_mount ::
  "FsError \<Rightarrow> path option \<Rightarrow> path \<Rightarrow> string option \<Rightarrow> string list \<Rightarrow> string option \<Rightarrow>
   (FsError + unit) os_m" where
  "do_mount err src target fstype flags opts =
     (case (case src of None \<Rightarrow> Some None | Some s \<Rightarrow> map_option Some (path_cstr s), path_cstr target) of
        (Some s, Some t) \<Rightarrow>
          bindm (callm (Mount s t fstype flags opts)) (\<lambda>r.
            if ret_int r \<noteq> 0 then retm (Inl err) else retm (Inr ()))
      | _ \<Rightarrow> retm (Inl Panic))"

definition mount_fs :: "FsError \<Rightarrow> string \<Rightarrow> path \<Rightarrow> string option \<Rightarrow> (FsError + unit) os_m" where
  "mount_fs err fstype target opts = do_mount err (Some fstype) target (Some fstype) [] opts"

section \<open>Operations\<close>

definition make_root_private :: "FsIsolation \<Rightarrow> (FsError + unit) os_m" where
  "make_root_private jail =
     do_mount (PivotRootFailed ''Failed to make / recursively private'')
       None ''/'' None [''MS_REC'', ''MS_PRIVATE''] None"

definition create_ephemeral_root :: "FsIsolation \<Rightarrow> u64 \<Rightarrow> (FsError + unit) os_m" where
  "create_ephemeral_root jail size_bytes =
     trym (create_dir (\<lambda>e. RootCreationFailed (''Failed to create '' @ from_utf8_lossy (root_path jail) @ '': '' @ e))
             (root_path jail)) (\<lambda>_.
     let size_mb = size_bytes div (1024 * 1024);
         mount_opts = ''size='' @ show_nat (unat size_mb) @ ''m,mode=0755''
     in mount_fs (MountFailed (''Failed to mount tmpfs at '' @ from_utf8_lossy (root_path jail)))
          ''tmpfs'' (root_path jail) (Some mount_opts))"

definition required_dir :: "FsIsolation \<Rightarrow> string \<Rightarrow> (FsError + unit) os_m" where
  "required_dir jail dir =
     (let new_dir = path_join (root_path jail) dir in
      create_dir (\<lambda>e. DirCreationFailed (''Failed to create '' @ from_utf8_lossy new_dir @ '': '' @ e)) new_dir)"

text \<open>\<open>Path::strip_prefix("/")\<close> on the components: the leading slashes go.\<close>

definition strip_root :: "path \<Rightarrow> path" where
  "strip_root p =
     (if p \<noteq> [] \<and> hd p = CHR ''/'' then dropWhile (\<lambda>c. c = CHR ''/'') p else p)"

definition bind_readonly :: "FsIsolation \<Rightarrow> path \<Rightarrow> (FsError + unit) os_m" where
  "bind_readonly jail source_path =
     bindm (callm (Path_exists source_path)) (\<lambda>ex.
     if \<not> ret_bool ex then retm (Inr ())
     else
       let target_path = path_join (root_path jail) (strip_root source_path) in
       bindm (case path_parent target_path of
                Some parent \<Rightarrow> execm (Create_dir_all parent) | None \<Rightarrow> retm ()) (\<lambda>_.
       trym (bindm (callm (Path_exists target_path)) (\<lambda>tex.
               if \<not> ret_bool tex
               then bindm (callm (Is_dir source_path)) (\<lambda>d.
                 if ret_bool d
                 then create_dir (\<lambda>e. DirCreationFailed
                        (''Failed to create '' @ from_utf8_lossy target_path @ '': '' @ e)) target_path
                 else retm (Inr ()))
               else retm (Inr ()))) (\<lambda>_.
       trym (do_mount (BindMountFailed (''Failed to bind mount '' @ from_utf8_lossy source_path @
                '' to '' @ from_utf8_lossy target_path))
              (Some source_path) target_path None [''MS_BIND'', ''MS_REC''] None) (\<lambda>_.
       do_mount (BindMountFailed (''Failed to make read-only: '' @ from_utf8_lossy target_path))
         (Some source_path) target_path None
         [''MS_BIND'', ''MS_REC'', ''MS_RDONLY'', ''MS_REMOUNT''] None))))"

definition setup_readonly_mounts :: "FsIsolation \<Rightarrow> path list \<Rightarrow> (FsError + unit) os_m" where
  "setup_readonly_mounts jail read_only_paths =
     trym (for_try (required_dir jail) [''usr'', ''lib'', ''lib64'', ''bin'', ''etc'']) (\<lambda>_.
     for_try (bind_readonly jail) read_only_paths)"

definition create_device_node :: "path \<Rightarrow> string \<Rightarrow> nat \<Rightarrow> nat \<Rightarrow> (FsError + unit) os_m" where
  "create_device_node dev_path name major minor =
     (case path_cstr (path_join dev_path name) of
        None \<Rightarrow> retm (Inl (DevNodeFailed ''Invalid path''))
      | Some dev_node \<Rightarrow>
          bindm (callm (Mknod dev_node major minor)) (\<lambda>r.
            if ret_int r \<noteq> 0
            then retm (Inl (DevNodeFailed (''Failed to create device node '' @ name)))
            else retm (Inr ())))"

definition setup_dev :: "FsIsolation \<Rightarrow> (FsError + unit) os_m" where
  "setup_dev jail =
     (let dev_path = path_join (root_path jail) ''dev'' in
      trym (create_dir (\<lambda>e. DirCreationFailed (''Failed to create /dev: '' @ e)) dev_path) (\<lambda>_.
      trym (mount_fs (MountFailed ''Failed to mount /dev'') ''tmpfs'' dev_path (Some ''size=1m,mode=0755'')) (\<lambda>_.
      trym (create_device_node dev_path ''null'' 1 3) (\<lambda>_.
      trym (create_device_node dev_path ''zero'' 1 5) (\<lambda>_.
      create_device_node dev_path ''urandom'' 1 9)))))"

definition setup_proc :: "FsIsolation \<Rightarrow> (FsError + unit) os_m" where
  "setup_proc jail =
     (let proc_path = path_join (root_path jail) ''proc'' in
      trym (create_dir (\<lambda>e. DirCreationFailed (''Failed to create /proc: '' @ e)) proc_path) (\<lambda>_.
      mount_fs (MountFailed ''Failed to mount /proc'') ''proc'' proc_path None))"

definition setup_workspace :: "FsIsolation \<Rightarrow> path option \<Rightarrow> (FsError + unit) os_m" where
  "setup_workspace jail host_workspace_dir =
     (let sandbox_path = path_join (root_path jail) ''sandbox'' in
      trym (create_dir (\<lambda>e. DirCreationFailed (''Failed to create /sandbox: '' @ e)) sandbox_path) (\<lambda>_.
      case host_workspace_dir of
        Some host_dir \<Rightarrow>
          do_mount (BindMountFailed (''Failed to bind mount workspace '' @ from_utf8_lossy host_dir @
              '' to '' @ from_utf8_lossy sandbox_path))
            (Some host_dir) sandbox_path None [''MS_BIND'', ''MS_REC''] None
      | None \<Rightarrow>
          mount_fs (MountFailed ''Failed to mount /sandbox'') ''tmpfs'' sandbox_path
            (Some ''size=16m,mode=0755'')))"

definition pivot_into_new_root :: "FsIsolation \<Rightarrow> (FsError + unit) os_m" where
  "pivot_into_new_root jail =
     (let old_root = path_join (root_path jail) ''.old_root'' in
      trym (create_dir (\<lambda>e. DirCreationFailed (''Failed to create .old_root: '' @ e)) old_root) (\<lambda>_.
      bindm (callm (Pivot_root (root_path jail) old_root)) (\<lambda>r.
      if \<not> ret_ok r then retm (Inl (PivotRootFailed (''pivot_root failed: '' @ ret_msg r)))
      else bindm (callm (Set_current_dir ''/sandbox'')) (\<lambda>r.
      if \<not> ret_ok r then retm (Inl (PivotRootFailed (''Failed to chdir to /sandbox: '' @ ret_msg r)))
      else thenm (execm (Umount2 ''/.old_root'' [''MNT_DETACH'']))
        (thenm (execm (Mount None ''/'' None [''MS_BIND'', ''MS_REMOUNT'', ''MS_RDONLY''] None))
        (thenm (execm (Remove_dir ''/.old_root''))
        (retm (Inr ()))))))))"

text \<open>\<open>Drop\<close>, which also runs when \<open>setup\<close> returns early with an error.\<close>

definition fs_drop :: "FsIsolation \<Rightarrow> unit os_m" where
  "fs_drop jail =
     thenm (case path_cstr (root_path jail) of
              Some p \<Rightarrow> execm (Umount2 p [''MNT_DETACH'']) | None \<Rightarrow> retm ())
     (execm (Remove_dir_all (root_path jail)))"

definition fs_steps :: "FsIsolation \<Rightarrow> path option \<Rightarrow> u64 \<Rightarrow> path list \<Rightarrow> (FsError + unit) os_m" where
  "fs_steps jail host_workspace_dir workdir_size_bytes read_only_paths =
     trym (make_root_private jail) (\<lambda>_.
     trym (create_ephemeral_root jail workdir_size_bytes) (\<lambda>_.
     trym (setup_readonly_mounts jail read_only_paths) (\<lambda>_.
     trym (setup_dev jail) (\<lambda>_.
     trym (setup_proc jail) (\<lambda>_.
     trym (setup_workspace jail host_workspace_dir) (\<lambda>_.
     pivot_into_new_root jail))))))"

definition fs_setup ::
  "string \<Rightarrow> path option \<Rightarrow> u64 \<Rightarrow> path list \<Rightarrow> (FsError + FsIsolation) os_m" where
  "fs_setup job_id host_workspace_dir workdir_size_bytes read_only_paths =
     (let jail = \<lparr> root_path = ''/tmp/judge_root_'' @ job_id, fs_job_id = job_id \<rparr> in
      bindm (fs_steps jail host_workspace_dir workdir_size_bytes read_only_paths) (\<lambda>r.
        case r of
          Inr _ \<Rightarrow> retm (Inr jail)
        | Inl e \<Rightarrow> if e = Panic then retm (Inl e) else thenm (fs_drop jail) (retm (Inl e))))"

section \<open>Facts about the calls\<close>

text \<open>The history holds a mount call that the kernel granted.\<close>

definition mounted ::
  "path option \<Rightarrow> path \<Rightarrow> string option \<Rightarrow> string list \<Rightarrow> string option \<Rightarrow> trace \<Rightarrow> bool" where
  "mounted src t fstype flags opts tr \<longleftrightarrow>
     (\<exists>r. (Mount src t fstype flags opts, r) \<in> set tr \<and> ret_int r = 0)"

definition done_ok :: "os_call \<Rightarrow> trace \<Rightarrow> bool" where
  "done_ok c tr \<longleftrightarrow> (\<exists>r. (c, r) \<in> set tr \<and> ret_ok r)"

lemma mounted_append [simp]: "mounted s t f fl d (a @ b) \<longleftrightarrow> mounted s t f fl d a \<or> mounted s t f fl d b"
  by (auto simp: mounted_def)

lemma done_ok_append [simp]: "done_ok c (a @ b) \<longleftrightarrow> done_ok c a \<or> done_ok c b"
  by (auto simp: done_ok_def)

lemma emits_create_dir: "emits (create_dir err p) (\<lambda>r e. r = Inr () \<longrightarrow> done_ok (Create_dir_all p) e)"
  unfolding create_dir_def by (rule emits_call_bindm) (auto intro!: emits_retm simp: done_ok_def)

lemma emits_bind:
  "emits (do_mount err (Some src) target fstype flags opts) (\<lambda>r e. r = Inr () \<longrightarrow>
     (\<exists>s t. path_cstr src = Some s \<and> path_cstr target = Some t \<and> mounted (Some s) t fstype flags opts e))"
  unfolding do_mount_def
  by (cases "path_cstr target"; cases "path_cstr src")
    (auto intro!: emits_retm emits_call_bindm simp: mounted_def)

lemma emits_mount_fs: "emits (mount_fs err fstype target opts) (\<lambda>_ _. True)"
  unfolding mount_fs_def by (rule emits_conseq[OF emits_bind]) simp

lemma emits_for_try:
  assumes "\<And>x. x \<in> set xs \<Longrightarrow> emits (f x) (\<lambda>r e. r = Inr () \<longrightarrow> P x e)"
    and "\<And>x a b. P x a \<or> P x b \<Longrightarrow> P x (a @ b)"
  shows "emits (for_try f xs) (\<lambda>r e. r = Inr () \<longrightarrow> (\<forall>x \<in> set xs. P x e))"
  using assms(1)
proof (induction xs)
  case Nil
  then show ?case by (auto intro!: emits_retm)
next
  case (Cons x xs)
  have "emits (f x) (\<lambda>r e. r = Inr () \<longrightarrow> P x e)"
    "emits (for_try f xs) (\<lambda>r e. r = Inr () \<longrightarrow> (\<forall>x \<in> set xs. P x e))"
    using Cons by auto
  note fx = this(1) and rest = this(2)
  show ?case
    unfolding for_try.simps
    by (rule emits_trym_with[OF fx], simp, rule emits_conseq[OF rest]) (auto intro: assms(2))
qed

text \<open>A path that exists is bound and then remounted read-only; one that does not is skipped.\<close>

definition readonly_bound :: "FsIsolation \<Rightarrow> path \<Rightarrow> trace \<Rightarrow> bool" where
  "readonly_bound jail p e \<longleftrightarrow>
     (\<exists>r. (Path_exists p, r) \<in> set e \<and> \<not> ret_bool r) \<or>
     (\<exists>s t. path_cstr p = Some s \<and> path_cstr (path_join (root_path jail) (strip_root p)) = Some t \<and>
        mounted (Some s) t None [''MS_BIND'', ''MS_REC''] None e \<and>
        mounted (Some s) t None [''MS_BIND'', ''MS_REC'', ''MS_RDONLY'', ''MS_REMOUNT''] None e)"

lemma readonly_bound_append:
  "readonly_bound jail p a \<or> readonly_bound jail p b \<Longrightarrow> readonly_bound jail p (a @ b)"
  unfolding readonly_bound_def mounted_append set_append by blast

lemma readonly_bound_both:
  assumes "(Inr x :: FsError + unit) = Inr () \<longrightarrow> (\<exists>s t. path_cstr p = Some s \<and>
      path_cstr (path_join (root_path jail) (strip_root p)) = Some t \<and>
      mounted (Some s) t None [''MS_BIND'', ''MS_REC''] None a)"
    and "(r :: FsError + unit) = Inr () \<longrightarrow> (\<exists>s t. path_cstr p = Some s \<and>
      path_cstr (path_join (root_path jail) (strip_root p)) = Some t \<and>
      mounted (Some s) t None [''MS_BIND'', ''MS_REC'', ''MS_RDONLY'', ''MS_REMOUNT''] None b)"
  shows "r = Inr () \<longrightarrow> readonly_bound jail p (c # d @ f @ a @ b)"
  using assms unfolding readonly_bound_def mounted_def by auto

lemma emits_target:
  "emits (bindm (callm (Path_exists t)) (\<lambda>tex.
     if \<not> ret_bool tex
     then bindm (callm (Is_dir p)) (\<lambda>d. if ret_bool d then create_dir err t else retm (Inr ()))
     else retm (Inr ()))) (\<lambda>_ _. True)"
  by (rule emits_call_bindm)
    (auto intro!: emits_call_bindm emits_retm emits_conseq[OF emits_create_dir])

lemma emits_parent:
  "emits (case q of Some parent \<Rightarrow> execm (Create_dir_all parent) | None \<Rightarrow> retm ()) (\<lambda>_ _. True)"
  by (auto split: option.split)

lemma emits_bind_readonly:
  "emits (bind_readonly jail p) (\<lambda>r e. r = Inr () \<longrightarrow> readonly_bound jail p e)"
  unfolding bind_readonly_def Let_def
proof (rule emits_call_bindm, split if_split, intro conjI impI, goal_cases)
  case (1 r)
  then show ?case by (auto intro!: emits_retm simp: readonly_bound_def)
next
  case (2 r)
  show ?case
    by (rule emits_bindm_with[OF emits_parent], rule emits_trym_with[OF emits_target], simp,
        rule emits_trym_with[OF emits_bind], simp, rule emits_conseq[OF emits_bind])
      (rule readonly_bound_both, assumption, assumption)
qed

lemma emits_setup_readonly:
  "emits (setup_readonly_mounts jail ps) (\<lambda>r e. r = Inr () \<longrightarrow> (\<forall>p \<in> set ps. readonly_bound jail p e))"
proof -
  have dirs: "emits (for_try (required_dir jail) ds) (\<lambda>_ _. True)" for ds
    by (rule emits_conseq[OF emits_for_try[where P = "\<lambda>_ _. True"]])
      (auto simp: required_dir_def Let_def intro: emits_conseq[OF emits_create_dir])
  have binds: "emits (for_try (bind_readonly jail) ps)
      (\<lambda>r e. r = Inr () \<longrightarrow> (\<forall>p \<in> set ps. readonly_bound jail p e))"
    by (rule emits_for_try) (auto intro: emits_bind_readonly readonly_bound_append)
  show ?thesis
    unfolding setup_readonly_mounts_def
    by (rule emits_trym_with[OF dirs], simp, rule emits_conseq[OF binds])
      (auto intro: readonly_bound_append)
qed

lemma emits_pivot:
  "emits (pivot_into_new_root jail) (\<lambda>r e. r = Inr () \<longrightarrow>
     done_ok (Pivot_root (root_path jail) (path_join (root_path jail) ''.old_root'')) e \<and>
     done_ok (Set_current_dir ''/sandbox'') e)"
  unfolding pivot_into_new_root_def Let_def
  by (rule emits_trym_with[OF emits_create_dir], simp, rule emits_call_bindm)
    (auto intro!: emits_call_bindm emits_retm emits_thenm emits_execm simp: done_ok_def)

text \<open>The call that takes the child's mounts out of propagation.\<close>

definition private_remount :: os_call where
  "private_remount = Mount None ''/'' None [''MS_REC'', ''MS_PRIVATE''] None"

lemma path_cstr_root [simp]: "path_cstr ''/'' = Some ''/''"
  by (simp add: path_cstr_def cstring_def from_utf8_lossy_ascii del: from_utf8_lossy.simps)

lemma emits_private:
  "emits (make_root_private jail) (\<lambda>r e. \<exists>a. e = [(private_remount, a)] \<and> (r = Inr () \<longleftrightarrow> ret_int a = 0))"
  unfolding make_root_private_def do_mount_def private_remount_def
  by (auto intro!: emits_call_bindm emits_retm)

lemma emits_ephemeral: "emits (create_ephemeral_root jail n) (\<lambda>_ _. True)"
  unfolding create_ephemeral_root_def Let_def
  by (rule emits_trym_with[OF emits_create_dir]) (auto intro: emits_mount_fs)

lemma emits_device: "emits (create_device_node p n a b) (\<lambda>_ _. True)"
  unfolding create_device_node_def by (auto intro!: emits_retm emits_call_bindm split: option.split)

lemma emits_dev: "emits (setup_dev jail) (\<lambda>_ _. True)"
  unfolding setup_dev_def Let_def
  by (rule emits_trym_with[OF emits_create_dir], simp, rule emits_trym_with[OF emits_mount_fs], simp,
      rule emits_trym_with[OF emits_device], simp, rule emits_trym_with[OF emits_device], simp,
      rule emits_device)

lemma emits_proc: "emits (setup_proc jail) (\<lambda>_ _. True)"
  unfolding setup_proc_def Let_def
  by (rule emits_trym_with[OF emits_create_dir], simp, rule emits_mount_fs)

definition workspace_bound :: "FsIsolation \<Rightarrow> path option \<Rightarrow> trace \<Rightarrow> bool" where
  "workspace_bound jail ws e \<longleftrightarrow> (\<forall>d. ws = Some d \<longrightarrow>
     (\<exists>s t. path_cstr d = Some s \<and> path_cstr (path_join (root_path jail) ''sandbox'') = Some t \<and>
        mounted (Some s) t None [''MS_BIND'', ''MS_REC''] None e))"

lemma workspace_bound_append:
  "workspace_bound jail ws a \<or> workspace_bound jail ws b \<Longrightarrow> workspace_bound jail ws (a @ b)"
  unfolding workspace_bound_def mounted_append by blast

lemma emits_workspace:
  "emits (setup_workspace jail ws) (\<lambda>r e. r = Inr () \<longrightarrow> workspace_bound jail ws e)"
proof (cases ws)
  case None
  show ?thesis
    unfolding setup_workspace_def Let_def None option.case
    by (rule emits_trym_with[OF emits_create_dir], simp, rule emits_conseq[OF emits_mount_fs])
      (simp add: workspace_bound_def)
next
  case (Some d)
  show ?thesis
    unfolding setup_workspace_def Let_def Some option.case
    by (rule emits_trym_with[OF emits_create_dir], simp, rule emits_conseq[OF emits_bind],
        intro impI workspace_bound_append disjI2) (simp add: workspace_bound_def)
qed

text \<open>What a granted jail has done.\<close>

definition jail_ready :: "FsIsolation \<Rightarrow> path option \<Rightarrow> path list \<Rightarrow> trace \<Rightarrow> bool" where
  "jail_ready jail ws ro e \<longleftrightarrow>
     (\<exists>a rest. e = (private_remount, a) # rest \<and> ret_int a = 0) \<and>
     (\<forall>p \<in> set ro. readonly_bound jail p e) \<and> workspace_bound jail ws e \<and>
     done_ok (Pivot_root (root_path jail) (path_join (root_path jail) ''.old_root'')) e \<and>
     done_ok (Set_current_dir ''/sandbox'') e"

lemma mounted_mono: "mounted s t f fl d a \<Longrightarrow> set a \<subseteq> set b \<Longrightarrow> mounted s t f fl d b"
  unfolding mounted_def by blast

lemma readonly_bound_mono: "readonly_bound jail p a \<Longrightarrow> set a \<subseteq> set b \<Longrightarrow> readonly_bound jail p b"
  unfolding readonly_bound_def mounted_def by (meson subsetD)

lemma workspace_bound_mono: "workspace_bound jail ws a \<Longrightarrow> set a \<subseteq> set b \<Longrightarrow> workspace_bound jail ws b"
  by (cases ws; simp add: workspace_bound_def; meson mounted_mono)

lemma done_ok_mono: "done_ok c a \<Longrightarrow> set a \<subseteq> set b \<Longrightarrow> done_ok c b"
  unfolding done_ok_def by blast

lemma jail_readyI:
  assumes "ret_int a = 0" "\<forall>p \<in> set ro. readonly_bound jail p e2" "workspace_bound jail ws e5"
    "done_ok (Pivot_root (root_path jail) (path_join (root_path jail) ''.old_root'')) e6"
    "done_ok (Set_current_dir ''/sandbox'') e6"
  shows "jail_ready jail ws ro ([(private_remount, a)] @ e1 @ e2 @ e3 @ e4 @ e5 @ e6)"
proof -
  let ?e = "[(private_remount, a)] @ e1 @ e2 @ e3 @ e4 @ e5 @ e6"
  have sub: "set e2 \<subseteq> set ?e" "set e5 \<subseteq> set ?e" "set e6 \<subseteq> set ?e" by auto
  show ?thesis
    unfolding jail_ready_def
    using assms readonly_bound_mono[OF _ sub(1)] workspace_bound_mono[OF _ sub(2)]
      done_ok_mono[OF _ sub(3)] by (intro conjI) auto
qed

lemma emits_steps:
  "emits (fs_steps jail ws n ro) (\<lambda>r e. r = Inr () \<longrightarrow> jail_ready jail ws ro e)"
  unfolding fs_steps_def
proof (rule emits_trym_with[OF emits_private], simp, rule emits_trym_with[OF emits_ephemeral], simp,
    rule emits_trym_with[OF emits_setup_readonly], simp, rule emits_trym_with[OF emits_dev], simp,
    rule emits_trym_with[OF emits_proc], simp, rule emits_trym_with[OF emits_workspace], simp,
    rule emits_conseq[OF emits_pivot], goal_cases)
  case (1 x e xa e1 xb e2 xc e3 xd e4 xe e5 xf e6)
  then obtain a where "e = [(private_remount, a)]" "ret_int a = 0" by auto
  with 1 show ?case
    by (intro impI, simp only:) (rule jail_readyI; simp)
qed

lemma emits_steps_first:
  "emits (fs_steps jail ws n ro) (\<lambda>r e. \<exists>a rest. e = (private_remount, a) # rest \<and>
     (ret_int a \<noteq> 0 \<longrightarrow> rest = []))"
proof -
  have rest: "emits (trym (create_ephemeral_root jail n) (\<lambda>_.
     trym (setup_readonly_mounts jail ro) (\<lambda>_.
     trym (setup_dev jail) (\<lambda>_.
     trym (setup_proc jail) (\<lambda>_.
     trym (setup_workspace jail ws) (\<lambda>_.
     pivot_into_new_root jail)))))) (\<lambda>_ _. True)"
    by (rule emits_trym_with[OF emits_ephemeral], simp,
        rule emits_trym_with[OF emits_setup_readonly], simp, rule emits_trym_with[OF emits_dev], simp,
        rule emits_trym_with[OF emits_proc], simp, rule emits_trym_with[OF emits_workspace], simp,
        rule emits_conseq[OF emits_pivot]) simp
  show ?thesis
    unfolding fs_steps_def
    by (rule emits_trym_with[OF emits_private], force, rule emits_conseq[OF rest]) auto
qed

definition no_mount :: "trace \<Rightarrow> bool" where
  "no_mount e \<longleftrightarrow> (\<forall>s t f fl d r. (Mount s t f fl d, r) \<notin> set e)"

lemma emits_fs_drop: "emits (fs_drop jail) (\<lambda>_ e. no_mount e)"
  unfolding fs_drop_def
  by (cases "path_cstr (root_path jail)")
    (auto intro!: emits_thenm emits_execm emits_retm simp: no_mount_def)

lemma emits_setup_tail:
  "emits (case r of Inr _ \<Rightarrow> retm (Inr jail)
      | Inl e \<Rightarrow> if e = Panic then retm (Inl e) else thenm (fs_drop jail) (retm (Inl e)))
     (\<lambda>r' e. no_mount e \<and> (\<forall>j. r' = Inr j \<longrightarrow> j = jail \<and> (\<exists>u. r = Inr u)))"
proof (cases r)
  case (Inl e)
  then show ?thesis
    by (auto intro!: emits_retm emits_thenm_with[OF emits_fs_drop] simp: no_mount_def)
next
  case (Inr u)
  then show ?thesis by (auto intro!: emits_retm simp: no_mount_def)
qed

lemma jail_ready_append: "jail_ready jail ws ro a \<Longrightarrow> jail_ready jail ws ro (a @ b)"
proof -
  assume a: "jail_ready jail ws ro a"
  have sub: "set a \<subseteq> set (a @ b)" by simp
  from a obtain x rest where "a @ b = (private_remount, x) # rest" "ret_int x = 0"
    unfolding jail_ready_def by auto
  with a show ?thesis
    unfolding jail_ready_def
    using readonly_bound_mono[OF _ sub] workspace_bound_mono[OF _ sub] done_ok_mono[OF _ sub]
    by blast
qed

lemma emits_fs_setup:
  "emits (fs_setup job_id ws n ro) (\<lambda>r e.
     (\<exists>a rest. e = (private_remount, a) # rest \<and> (ret_int a \<noteq> 0 \<longrightarrow> no_mount rest)) \<and>
     (\<forall>jail. r = Inr jail \<longrightarrow> root_path jail = ''/tmp/judge_root_'' @ job_id \<and> jail_ready jail ws ro e))"
  unfolding fs_setup_def Let_def
proof (rule emits_bindm_with[OF emits_conj[OF emits_steps emits_steps_first]],
    rule emits_conseq[OF emits_setup_tail], goal_cases)
  case (1 r e r' e')
  then obtain a rest where e: "e = (private_remount, a) # rest" "ret_int a \<noteq> 0 \<longrightarrow> rest = []" by blast
  then have "\<exists>a rest. e @ e' = (private_remount, a) # rest \<and> (ret_int a \<noteq> 0 \<longrightarrow> no_mount rest)"
    using 1 by auto
  moreover have "root_path jail = ''/tmp/judge_root_'' @ job_id \<and> jail_ready jail ws ro (e @ e')"
    if "r' = Inr jail" for jail
  proof -
    have "jail = \<lparr>root_path = ''/tmp/judge_root_'' @ job_id, fs_job_id = job_id\<rparr>" "r = Inr ()"
      using 1(2) that by auto
    then show ?thesis using 1(1) by (simp only: jail_ready_append FsIsolation.simps simp_thms)
  qed
  ultimately show ?case by blast
qed

section \<open>Properties\<close>

text \<open>
  C19: the jail is set up fail-closed. Whatever the kernel answers, \<open>FsIsolation::setup\<close>
  returns a jail only after the mounts were made private, every read-only path that exists
  was bound and remounted read-only, the workspace was bound to \<open>/sandbox\<close>, and
  \<open>pivot_root\<close> and the change into \<open>/sandbox\<close> succeeded.
\<close>

theorem jail_fail_closed:
  assumes "fs_setup job_id ws n ro os tr = (Inr jail, tr')"
  shows "root_path jail = ''/tmp/judge_root_'' @ job_id \<and>
    (\<exists>e. tr' = tr @ e \<and> jail_ready jail ws ro e)"
  using emits_run[OF emits_fs_setup assms] by auto

theorem jail_fail_closed_witness:
  "\<exists>jail e. fs_setup ''j'' (Some ''/w'') 16777216 [''/usr''] (\<lambda>_ _. Ret 0) [] = (Inr jail, e) \<and>
     jail_ready jail (Some ''/w'') [''/usr''] e"
proof -
  have cstr: "path_cstr p = Some p" if "\<forall>c \<in> set p. (of_char c :: nat) < 128" "CHR 0x00 \<notin> set p" for p
    using that by (simp add: path_cstr_def cstring_def from_utf8_lossy_ascii)
  obtain jail e where run:
    "fs_setup ''j'' (Some ''/w'') 16777216 [''/usr''] (\<lambda>_ _. Ret 0) [] = (Inr jail, e)"
    by (simp add: fs_setup_def fs_steps_def make_root_private_def create_ephemeral_root_def
        setup_readonly_mounts_def required_dir_def bind_readonly_def setup_dev_def setup_proc_def
        setup_workspace_def pivot_into_new_root_def create_device_node_def mount_fs_def do_mount_def
        create_dir_def cstr path_join_def trym_def bindm_def callm_def retm_def thenm_def execm_def
        ret_ok_def ret_int_def ret_bool_def Let_def
        del: from_utf8_lossy.simps)
  then show ?thesis using jail_fail_closed[OF run] by auto
qed

text \<open>
  C20: nothing is mounted before propagation is off. In every run of the setup, successful or
  not, the first call makes the mount tree private, and if the kernel refuses it no mount
  is attempted at all.
\<close>

theorem private_before_mounts:
  assumes "fs_setup job_id ws n ro os tr = (x, tr')"
  shows "\<exists>a rest. tr' = tr @ (private_remount, a) # rest \<and>
    (ret_int a \<noteq> 0 \<longrightarrow> no_mount rest)"
  using emits_run[OF emits_fs_setup assms] by auto

theorem private_before_mounts_witness:
  "\<exists>x rest. fs_setup ''j'' None 0 [] (\<lambda>_ _. Ret (- 1)) [] = (x, (private_remount, Ret (- 1)) # rest) \<and>
     no_mount rest"
proof -
  obtain x tr where run: "fs_setup ''j'' None 0 [] (\<lambda>_ _. Ret (- 1)) [] = (x, tr)"
    by fastforce
  obtain a rest where a: "tr = (private_remount, a) # rest" "ret_int a \<noteq> 0 \<longrightarrow> no_mount rest"
    using private_before_mounts[OF run] by auto
  have "tr \<noteq> [] \<and> hd tr = (private_remount, Ret (- 1))"
    using run
    by (auto simp: fs_setup_def fs_steps_def make_root_private_def do_mount_def trym_def bindm_def
        callm_def retm_def thenm_def execm_def ret_int_def Let_def fs_drop_def private_remount_def
        split: option.splits simp del: from_utf8_lossy.simps)
  with run a show ?thesis by (auto simp: ret_int_def)
qed

text \<open>
  The detachment of the host's root is not fail-closed. There is a kernel behaviour in
  which \<open>umount2("/.old_root")\<close> and the read-only remount of the new root both fail and the
  setup still succeeds, so the child runs with the host's file system below \<open>/.old_root\<close>.
\<close>

lemma old_root_may_stay:
  "\<exists>os jail e. fs_setup ''j'' None 16777216 [] os [] = (Inr jail, e) \<and>
     (Umount2 ''/.old_root'' [''MNT_DETACH''], Ret (- 1)) \<in> set e \<and>
     (Mount None ''/'' None [''MS_BIND'', ''MS_REMOUNT'', ''MS_RDONLY''] None, Ret (- 1)) \<in> set e"
proof -
  let ?os = "\<lambda>tr c. if c = Umount2 ''/.old_root'' [''MNT_DETACH''] \<or>
    c = Mount None ''/'' None [''MS_BIND'', ''MS_REMOUNT'', ''MS_RDONLY''] None then Ret (- 1) else Ret 0"
  have cstr: "path_cstr p = Some p" if "\<forall>c \<in> set p. (of_char c :: nat) < 128" "CHR 0x00 \<notin> set p" for p
    using that by (simp add: path_cstr_def cstring_def from_utf8_lossy_ascii)
  show ?thesis
    by (rule exI[of _ ?os])
      (simp add: fs_setup_def fs_steps_def make_root_private_def create_ephemeral_root_def
        setup_readonly_mounts_def required_dir_def bind_readonly_def setup_dev_def setup_proc_def
        setup_workspace_def pivot_into_new_root_def create_device_node_def mount_fs_def do_mount_def
        create_dir_def cstr path_join_def trym_def bindm_def callm_def retm_def thenm_def execm_def
        ret_ok_def ret_int_def ret_bool_def Let_def
        del: from_utf8_lossy.simps)
qed

end
