(* ===== verification/Seccomp.thy ===== *)
theory Seccomp
  imports Os_Trace
begin

text \<open>
  The system call filter of untrusted code, \<open>src/sandbox/seccomp.rs\<close>: the informational
  allow-set, the deny-list by name and by number, and the installation of the filter. The
  constants \<open>libc::SYS_*\<close> are named, not numbered: their values depend on the architecture.
  The \<open>seccompiler\<close> crate, which turns the rules into a BPF program, is an argument.
\<close>

datatype SeccompError =
    InitError string
  | RuleError string
  | LoadError string
  | UnsupportedPlatform

fun show_seccomp_error :: "SeccompError \<Rightarrow> string" where
  "show_seccomp_error (InitError e) = ''Seccomp initialization failed: '' @ e"
| "show_seccomp_error (RuleError e) = ''Failed to add rule: '' @ e"
| "show_seccomp_error (LoadError e) = ''Failed to load filter: '' @ e"
| "show_seccomp_error UnsupportedPlatform = ''Platform not supported''"

definition standard_runner :: "(string \<times> int) list" where
  "standard_runner =
     [
      (''read'', 0), (''write'', 1), (''open'', 2), (''close'', 3), (''lseek'', 8),
      (''pread64'', 17), (''pwrite64'', 18), (''readv'', 19), (''writev'', 20),
      (''openat'', 257), (''fstat'', 5), (''newfstatat'', 262), (''statx'', 332),
      (''brk'', 12), (''mmap'', 9), (''munmap'', 11), (''mprotect'', 10), (''mremap'', 25),
      (''madvise'', 28), (''mlock'', 149), (''munlock'', 150), (''exit'', 60),
      (''exit_group'', 231), (''rt_sigreturn'', 15), (''rt_sigaction'', 13),
      (''rt_sigprocmask'', 14), (''sigaltstack'', 131), (''clock_gettime'', 228),
      (''gettimeofday'', 96), (''nanosleep'', 35), (''clock_nanosleep'', 230), (''uname'', 63),
      (''getpid'', 39), (''getppid'', 110), (''getuid'', 102), (''geteuid'', 107),
      (''getgid'', 104), (''getegid'', 108), (''getpgrp'', 111), (''getrusage'', 98),
      (''futex'', 202), (''futex_waitv'', 449), (''getrandom'', 318), (''rseq'', 334),
      (''set_tid_address'', 218), (''set_robust_list'', 273), (''get_robust_list'', 274),
      (''prctl'', 157), (''ioctl'', 16)]"

definition blocked_syscalls :: "string list" where
  "blocked_syscalls =
     [
      ''ptrace'', ''process_vm_readv'', ''process_vm_writev'', ''mount'', ''umount2'',
      ''pivot_root'', ''chroot'', ''swapon'', ''swapoff'', ''setns'', ''unshare'',
      ''init_module'', ''finit_module'', ''delete_module'', ''kexec_load'', ''reboot'',
      ''bpf'', ''perf_event_open'', ''io_uring_setup'', ''io_uring_enter'',
      ''io_uring_register'', ''userfaultfd'', ''add_key'', ''keyctl'', ''request_key'',
      ''settimeofday'', ''clock_settime'', ''adjtimex'', ''clock_adjtime'', ''acct'',
      ''quotactl'']"

definition blocked_syscall_numbers :: "string list" where
  "blocked_syscall_numbers =
     [
      ''SYS_ptrace'', ''SYS_process_vm_readv'', ''SYS_process_vm_writev'', ''SYS_mount'',
      ''SYS_umount2'', ''SYS_pivot_root'', ''SYS_chroot'', ''SYS_swapon'', ''SYS_swapoff'',
      ''SYS_setns'', ''SYS_unshare'', ''SYS_init_module'', ''SYS_finit_module'',
      ''SYS_delete_module'', ''SYS_kexec_load'', ''SYS_reboot'', ''SYS_bpf'',
      ''SYS_perf_event_open'', ''SYS_io_uring_setup'', ''SYS_io_uring_enter'',
      ''SYS_io_uring_register'', ''SYS_userfaultfd'', ''SYS_add_key'', ''SYS_keyctl'',
      ''SYS_request_key'', ''SYS_settimeofday'', ''SYS_clock_settime'', ''SYS_adjtimex'',
      ''SYS_clock_adjtime'', ''SYS_acct'', ''SYS_quotactl'']"

text \<open>
  What the crate answers: whether it knows the architecture, the error of \<open>SeccompFilter::new\<close>
  and of the conversion into a program, if any, for the denied system calls.
\<close>

record seccompiler =
  arch_known :: bool
  filter_error :: "string list \<Rightarrow> string option"
  program_error :: "string list \<Rightarrow> string option"

text \<open>
  The rules are a map keyed by number: inserting a number twice keeps one rule. Loading the
  program is one call that carries the denied system calls.
\<close>

definition install_bpf_filter :: "seccompiler \<Rightarrow> (SeccompError + unit) os_m" where
  "install_bpf_filter sc =
     (let rules = remdups blocked_syscall_numbers in
      if \<not> arch_known sc then retm (Inl UnsupportedPlatform)
      else case filter_error sc rules of
        Some e \<Rightarrow> retm (Inl (RuleError e))
      | None \<Rightarrow>
          (case program_error sc rules of
             Some e \<Rightarrow> retm (Inl (LoadError e))
           | None \<Rightarrow>
               bindm (callm (Seccomp_load rules)) (\<lambda>r.
                 if \<not> ret_ok r then retm (Inl (LoadError (ret_msg r))) else retm (Inr ()))))"

definition install :: "seccompiler \<Rightarrow> (SeccompError + unit) os_m" where
  "install sc =
     bindm (callm Prctl_no_new_privs) (\<lambda>r.
       if ret_int r \<noteq> 0 then retm (Inl (InitError ''Failed to set PR_SET_NO_NEW_PRIVS''))
       else install_bpf_filter sc)"

section \<open>Facts\<close>

lemma numbers_distinct [simp]: "remdups blocked_syscall_numbers = blocked_syscall_numbers"
  by (rule distinct_remdups_id) (simp add: blocked_syscall_numbers_def)

text \<open>After a successful installation privileges cannot grow and the whole deny-list is loaded.\<close>

definition filtered :: "trace \<Rightarrow> bool" where
  "filtered e \<longleftrightarrow>
     (\<exists>r. (Prctl_no_new_privs, r) \<in> set e \<and> ret_int r = 0) \<and>
     (\<exists>r. (Seccomp_load blocked_syscall_numbers, r) \<in> set e \<and> ret_ok r)"

lemma emits_install: "emits (install sc) (\<lambda>r e. r = Inr () \<longrightarrow> filtered e)"
  unfolding install_def install_bpf_filter_def Let_def
  by (rule emits_call_bindm)
    (auto intro!: emits_retm emits_call_bindm simp: filtered_def split: option.split)

section \<open>Properties\<close>

text \<open>
  The two hand-written deny-lists agree entry by entry, name a system call only once, and
  leave out every system call of the informational allow-set and those that the launch of
  the program and the language runtimes need.
\<close>

lemma deny_lists_agree:
  "blocked_syscall_numbers = map ((@) ''SYS_'') blocked_syscalls \<and> distinct blocked_syscalls \<and>
   list_all (\<lambda>(name, nr). name \<notin> set blocked_syscalls) standard_runner \<and>
   list_all (\<lambda>name. name \<notin> set blocked_syscalls)
     [''clone'', ''clone3'', ''fork'', ''vfork'', ''execve'', ''execveat'', ''kill'', ''tgkill'',
      ''setgroups'', ''setresgid'', ''setresuid'', ''setuid'']"
  by (simp add: blocked_syscall_numbers_def blocked_syscalls_def standard_runner_def)

end
