(* ===== verification/Child.thy ===== *)
theory Child
  imports Fs_Isolation Seccomp Sandbox_Config
begin

text \<open>
  The child between \<open>fork\<close> and \<open>execve\<close>, \<open>src/sandbox/child.rs\<close>: pipes, resource limits,
  environment, namespaces, the file system jail, the system call filter, the privilege drop
  and the execution of the program. The order of the calls is the one of the code.

  The function does not return normally: it ends by replacing the process image, by
  \<open>exit\<close>, by returning an error (the caller then exits), or by a panic, which aborts.
\<close>

section \<open>Data\<close>

datatype ChildError =
    PipeError
  | RlimitError string
  | PathConversionError string
  | ChdirError string
  | ExecveError string
  | NamespaceError string
  | IsolationError string
  | Seccomp_Error string
  | PrivDropError string

record ChildProcessPipes =
  stdin_read :: int
  stdin_write :: int
  stdout_read :: int
  stdout_write :: int
  stderr_read :: int
  stderr_write :: int

datatype child_end = Image_replaced | Exited int | Returned ChildError | Aborted

section \<open>Pipes\<close>

definition fcntl_set_cloexec :: "int \<Rightarrow> (ChildError + unit) os_m" where
  "fcntl_set_cloexec fd =
     bindm (callm (Fcntl_cloexec fd)) (\<lambda>r.
       if ret_int r = - 1 then retm (Inl (NamespaceError ''Failed to set FD_CLOEXEC''))
       else retm (Inr ()))"

definition cloexec_pipe :: "(ChildError + int \<times> int) os_m" where
  "cloexec_pipe =
     bindm (callm Pipe) (\<lambda>r.
       case r of
         Fds a b \<Rightarrow>
           trym (fcntl_set_cloexec a) (\<lambda>_. trym (fcntl_set_cloexec b) (\<lambda>_. retm (Inr (a, b))))
       | _ \<Rightarrow> retm (Inl PipeError))"

definition pipes_new :: "(ChildError + ChildProcessPipes) os_m" where
  "pipes_new =
     trym cloexec_pipe (\<lambda>(in_r, in_w).
     trym cloexec_pipe (\<lambda>(out_r, out_w).
     trym cloexec_pipe (\<lambda>(err_r, err_w).
     retm (Inr \<lparr> stdin_read = in_r, stdin_write = in_w, stdout_read = out_r, stdout_write = out_w,
                stderr_read = err_r, stderr_write = err_w \<rparr>))))"

definition close_parent_ends :: "ChildProcessPipes \<Rightarrow> unit os_m" where
  "close_parent_ends p =
     thenm (execm (Close (stdin_read p)))
     (thenm (execm (Close (stdout_write p))) (execm (Close (stderr_write p))))"

definition close_child_ends :: "ChildProcessPipes \<Rightarrow> unit os_m" where
  "close_child_ends p =
     thenm (execm (Close (stdin_write p)))
     (thenm (execm (Close (stdout_read p))) (execm (Close (stderr_read p))))"

definition close_all :: "ChildProcessPipes \<Rightarrow> unit os_m" where
  "close_all p =
     for_each (\<lambda>fd. execm (Close fd))
       [stdin_read p, stdin_write p, stdout_read p, stdout_write p, stderr_read p, stderr_write p]"

section \<open>Steps of the child\<close>

text \<open>\<open>a || b\<close> on calls that answer -1: the next one is made only if the one before is fine.\<close>

fun dup_all :: "(int \<times> int) list \<Rightarrow> bool os_m" where
  "dup_all [] = retm True"
| "dup_all ((a, b) # ds) =
     bindm (callm (Dup2 a b)) (\<lambda>r. if ret_int r = - 1 then retm False else dup_all ds)"

definition redirect_stdio :: "ChildProcessPipes \<Rightarrow> (child_end + unit) os_m" where
  "redirect_stdio p =
     bindm (dup_all [(stdin_read p, 0), (stdout_write p, 1), (stderr_write p, 2)]) (\<lambda>ok.
       if \<not> ok
       then thenm (execm (Perror ''dup2'')) (thenm (execm (Exit 1)) (retm (Inl (Exited 1))))
       else thenm (close_parent_ends p) (retm (Inr ())))"

definition limit :: "string \<Rightarrow> u64 \<Rightarrow> (ChildError + unit) os_m" where
  "limit res n =
     bindm (callm (Setrlimit res n n)) (\<lambda>r.
       if \<not> ret_ok r then retm (Inl (RlimitError (res @ '': '' @ ret_msg r))) else retm (Inr ()))"

definition cpu_limit_secs :: "SandboxConfig \<Rightarrow> u64" where
  "cpu_limit_secs config = max 1 ((time_limit_ms config + 999) div 1000)"

definition fsize_limit :: "SandboxConfig \<Rightarrow> u64" where
  "fsize_limit config =
     (if profile config = Compile then 256 * 1024 * 1024 else 16 * 1024 * 1024)"

definition apply_resource_limits :: "SandboxConfig \<Rightarrow> (ChildError + unit) os_m" where
  "apply_resource_limits config =
     trym (limit ''RLIMIT_CPU'' (cpu_limit_secs config)) (\<lambda>_.
     trym (limit ''RLIMIT_FSIZE'' (fsize_limit config)) (\<lambda>_.
     limit ''RLIMIT_STACK'' (64 * 1024 * 1024)))"

definition apply_environment_sanitization :: "unit os_m" where
  "apply_environment_sanitization =
     thenm (execm Clearenv)
     (thenm (execm (Setenv ''PATH'' ''/usr/bin:/bin'')) (execm (Setenv ''LANG'' ''C.UTF-8'')))"

definition unshare :: "string \<Rightarrow> string list \<Rightarrow> (child_end + unit) os_m" where
  "unshare what flags =
     bindm (callm (Unshare flags)) (\<lambda>r.
       if \<not> ret_ok r
       then retm (Inl (Returned (NamespaceError (what @ '' unshare failed: '' @ ret_msg r))))
       else retm (Inr ()))"

definition isolate_network :: "SandboxConfig \<Rightarrow> (child_end + unit) os_m" where
  "isolate_network config =
     (if enable_network_isolation config
      then unshare ''network/IPC'' [''CLONE_NEWNET'', ''CLONE_NEWIPC'']
      else retm (Inr ()))"

definition isolate_fs :: "string \<Rightarrow> SandboxConfig \<Rightarrow> (child_end + FsIsolation option) os_m" where
  "isolate_fs uuid config =
     (if enable_fs_isolation config
      then
        trym (unshare ''mount-namespace'' [''CLONE_NEWNS'']) (\<lambda>_.
        let job_id = (if jail_id config = [] then uuid else jail_id config) in
        bindm (fs_setup job_id (workspace_dir config) (fs_workdir_size_bytes config)
                (fs_readonly_paths config)) (\<lambda>r.
          retm (case r of
             Inl e \<Rightarrow> Inl (if e = Panic then Aborted else Returned (IsolationError (show_fs_error e)))
           | Inr jail \<Rightarrow> Inr (Some jail))))
      else retm (Inr None))"

definition enter_work_dir :: "SandboxConfig \<Rightarrow> (child_end + unit) os_m" where
  "enter_work_dir config =
     (case work_dir config of
        None \<Rightarrow> retm (Inr ())
      | Some wd \<Rightarrow>
          bindm (callm (Metadata wd)) (\<lambda>r.
            if ret_ok r
            then (case cstring wd of
                    None \<Rightarrow> retm (Inl Aborted)
                  | Some d \<Rightarrow>
                      bindm (callm (Chdir d)) (\<lambda>r.
                        if ret_int r = - 1 then retm (Inl (Returned (ChdirError ''chdir failed'')))
                        else retm (Inr ())))
            else retm (Inr ())))"

text \<open>\<open>Path::file_name().unwrap_or_default()\<close>: the last component, none after \<open>..\<close>.\<close>

definition file_name :: "path \<Rightarrow> path" where
  "file_name p =
     (case rev (filter (\<lambda>c. c \<noteq> [] \<and> c \<noteq> ''.'') (split_on (CHR ''/'') p)) of
        [] \<Rightarrow> []
      | c # _ \<Rightarrow> if c = ''..'' then [] else c)"

definition cstring_or_empty :: "bytes \<Rightarrow> bytes" where
  "cstring_or_empty b = (case cstring b of Some c \<Rightarrow> c | None \<Rightarrow> [])"

definition argv :: "SandboxConfig \<Rightarrow> string list" where
  "argv config =
     cstring_or_empty (file_name (executable_path config)) # map cstring_or_empty (args config)"

definition gocache_dir :: "SandboxConfig \<Rightarrow> path os_m" where
  "gocache_dir config =
     bindm (callm (Path_exists ''/var/cache/gocache'')) (\<lambda>r. retm
       (if ret_bool r then ''/var/cache/gocache''
        else case work_dir config of Some wd \<Rightarrow> path_join wd ''.gocache'' | None \<Rightarrow> ''/tmp''))"

definition envp :: "path \<Rightarrow> string list option" where
  "envp gocache =
     (case (cstring (''GOCACHE='' @ from_utf8_lossy gocache),
            cstring (''GOPATH='' @ from_utf8_lossy (path_join gocache ''pkg''))) of
        (Some c, Some g) \<Rightarrow>
          Some [''PATH=/usr/bin:/bin:/usr/local/bin'', ''LANG=C.UTF-8'', ''HOME=/tmp'', c, g]
      | _ \<Rightarrow> None)"

text \<open>A call whose nonzero answer is a failed privilege drop.\<close>

definition drop_call :: "os_call \<Rightarrow> string \<Rightarrow> (child_end + unit) os_m" where
  "drop_call c msg =
     bindm (callm c) (\<lambda>r.
       if ret_int r \<noteq> 0 then retm (Inl (Returned (PrivDropError msg))) else retm (Inr ()))"

definition still_privileged :: child_end where
  "still_privileged =
     Returned (PrivDropError ''privilege drop did not take effect (still privileged)'')"

text \<open>\<open>getuid() == 0 || geteuid() == 0 || setuid(0) == 0\<close>, evaluated left to right.\<close>

definition verify_drop :: "(child_end + unit) os_m" where
  "verify_drop =
     bindm (callm Getuid) (\<lambda>r.
       if ret_int r = 0 then retm (Inl still_privileged)
       else bindm (callm Geteuid) (\<lambda>r.
         if ret_int r = 0 then retm (Inl still_privileged)
         else bindm (callm (Setuid 0)) (\<lambda>r.
           if ret_int r = 0 then retm (Inl still_privileged) else retm (Inr ()))))"

definition confine :: "seccompiler \<Rightarrow> SandboxConfig \<Rightarrow> (child_end + unit) os_m" where
  "confine sc config =
     (if profile config = Run
      then
        trym (bindm (install sc) (\<lambda>r. retm (map_err (\<lambda>e. Returned (Seccomp_Error (show_seccomp_error e))) r))) (\<lambda>_.
        trym (drop_call (Setgroups 0) ''setgroups(0) failed'') (\<lambda>_.
        trym (drop_call (Setresgid 65534 65534 65534) ''setresgid failed'') (\<lambda>_.
        trym (drop_call (Setresuid 65534 65534 65534) ''setresuid failed'') (\<lambda>_.
        verify_drop))))
      else retm (Inr ()))"

text \<open>\<open>execve\<close> only returns, with -1, when it fails.\<close>

definition exec_program :: "bytes \<Rightarrow> string list \<Rightarrow> string list \<Rightarrow> child_end os_m" where
  "exec_program prog av ev =
     bindm (callm (Execve prog av ev)) (\<lambda>r.
       if ret_int r = - 1
       then thenm (execm (Perror ''execve'')) (thenm (execm (Exit 127)) (retm (Exited 127)))
       else retm Image_replaced)"

definition finish_with :: "(child_end + child_end) os_m \<Rightarrow> child_end os_m" where
  "finish_with m = bindm m (\<lambda>r. retm (case r of Inl e \<Rightarrow> e | Inr e \<Rightarrow> e))"

text \<open>From the working directory on; the jail, if any, is dropped when an error is returned.\<close>

definition launch :: "seccompiler \<Rightarrow> SandboxConfig \<Rightarrow> child_end os_m" where
  "launch sc config =
     finish_with
     (trym (enter_work_dir config) (\<lambda>_.
      case cstring (executable_path config) of
        None \<Rightarrow> retm (Inl (Returned (ExecveError ''Invalid executable path'')))
      | Some prog \<Rightarrow>
          bindm (gocache_dir config) (\<lambda>gocache.
          case envp gocache of
            None \<Rightarrow> retm (Inl Aborted)
          | Some env \<Rightarrow>
              trym (confine sc config) (\<lambda>_.
              bindm (exec_program prog (argv config) env) (\<lambda>e. retm (Inr e))))))"

definition drop_jail :: "FsIsolation option \<Rightarrow> child_end \<Rightarrow> unit os_m" where
  "drop_jail jail fin =
     (case (jail, fin) of (Some j, Returned _) \<Rightarrow> fs_drop j | _ \<Rightarrow> retm ())"

definition setup_child_process ::
  "seccompiler \<Rightarrow> string \<Rightarrow> SandboxConfig \<Rightarrow> ChildProcessPipes \<Rightarrow> child_end os_m" where
  "setup_child_process sc uuid config pipes =
     finish_with
     (thenm (close_child_ends pipes)
     (trym (redirect_stdio pipes) (\<lambda>_.
      thenm (execm (Setpgid 0 0))
     (trym (bindm (apply_resource_limits config) (\<lambda>r. retm (map_err Returned r))) (\<lambda>_.
      thenm apply_environment_sanitization
     (trym (isolate_network config) (\<lambda>_.
      trym (isolate_fs uuid config) (\<lambda>jail.
      bindm (launch sc config) (\<lambda>fin.
      thenm (drop_jail jail fin) (retm (Inr fin)))))))))))"

section \<open>What is in force before the program is executed\<close>

definition answered :: "os_call \<Rightarrow> (int \<Rightarrow> bool) \<Rightarrow> trace \<Rightarrow> bool" where
  "answered c P e \<longleftrightarrow> (\<exists>r. (c, r) \<in> set e \<and> P (ret_int r))"

text \<open>Unprivileged, with the drop verified.\<close>

definition dropped :: "trace \<Rightarrow> bool" where
  "dropped e \<longleftrightarrow>
     answered (Setgroups 0) (\<lambda>i. i = 0) e \<and> answered (Setresgid 65534 65534 65534) (\<lambda>i. i = 0) e \<and>
     answered (Setresuid 65534 65534 65534) (\<lambda>i. i = 0) e \<and>
     answered Getuid (\<lambda>i. i \<noteq> 0) e \<and> answered Geteuid (\<lambda>i. i \<noteq> 0) e \<and>
     answered (Setuid 0) (\<lambda>i. i \<noteq> 0) e"

definition limited :: "SandboxConfig \<Rightarrow> trace \<Rightarrow> bool" where
  "limited config e \<longleftrightarrow>
     done_ok (Setrlimit ''RLIMIT_CPU'' (cpu_limit_secs config) (cpu_limit_secs config)) e \<and>
     done_ok (Setrlimit ''RLIMIT_FSIZE'' (fsize_limit config) (fsize_limit config)) e \<and>
     done_ok (Setrlimit ''RLIMIT_STACK'' 67108864 67108864) e"

definition jailed :: "SandboxConfig \<Rightarrow> trace \<Rightarrow> bool" where
  "jailed config e \<longleftrightarrow> done_ok (Unshare [''CLONE_NEWNS'']) e \<and>
     (\<exists>jail pre mid post. e = pre @ mid @ post \<and>
        jail_ready jail (workspace_dir config) (fs_readonly_paths config) mid)"

definition confined :: "SandboxConfig \<Rightarrow> trace \<Rightarrow> bool" where
  "confined config e \<longleftrightarrow> limited config e \<and>
     (enable_network_isolation config \<longrightarrow> done_ok (Unshare [''CLONE_NEWNET'', ''CLONE_NEWIPC'']) e) \<and>
     (enable_fs_isolation config \<longrightarrow> jailed config e) \<and>
     (profile config = Run \<longrightarrow> filtered e \<and> dropped e)"

lemma answered_append [simp]: "answered c P (a @ b) \<longleftrightarrow> answered c P a \<or> answered c P b"
  by (auto simp: answered_def)

lemma limited_append [intro]: "limited config a \<or> limited config b \<Longrightarrow> limited config (a @ b)"
  by (auto simp: limited_def)

lemma jailed_append [intro]: "jailed config a \<or> jailed config b \<Longrightarrow> jailed config (a @ b)"
proof (elim disjE)
  assume "jailed config a"
  then obtain jail pre mid post where "a = pre @ mid @ post"
    "jail_ready jail (workspace_dir config) (fs_readonly_paths config) mid"
    "done_ok (Unshare [''CLONE_NEWNS'']) a" by (auto simp: jailed_def)
  then show ?thesis
    unfolding jailed_def
    by (intro conjI exI[of _ jail] exI[of _ pre] exI[of _ mid] exI[of _ "post @ b"]) auto
next
  assume "jailed config b"
  then obtain jail pre mid post where "b = pre @ mid @ post"
    "jail_ready jail (workspace_dir config) (fs_readonly_paths config) mid"
    "done_ok (Unshare [''CLONE_NEWNS'']) b" by (auto simp: jailed_def)
  then show ?thesis
    unfolding jailed_def
    by (intro conjI exI[of _ jail] exI[of _ "a @ pre"] exI[of _ mid] exI[of _ post]) auto
qed

lemma filtered_append [intro]: "filtered a \<or> filtered b \<Longrightarrow> filtered (a @ b)"
  unfolding filtered_def by auto

lemma dropped_append [intro]: "dropped a \<or> dropped b \<Longrightarrow> dropped (a @ b)"
  by (auto simp: dropped_def)

section \<open>The steps make no other \<open>execve\<close>\<close>

lemma only_do_mount [intro!]: "only plain (do_mount err s t f fl d)"
  unfolding do_mount_def by (auto intro!: only_intros split: option.split)

lemma only_fs_drop [intro!]: "only plain (fs_drop jail)"
  unfolding fs_drop_def by (auto intro!: only_intros)

lemma only_fs_setup [intro!]: "only plain (fs_setup job ws n ro)"
  unfolding fs_setup_def fs_steps_def make_root_private_def create_ephemeral_root_def
    setup_readonly_mounts_def required_dir_def bind_readonly_def setup_dev_def setup_proc_def
    setup_workspace_def pivot_into_new_root_def create_device_node_def mount_fs_def create_dir_def
    Let_def
  by (auto intro!: only_intros only_do_mount only_fs_drop)

lemma only_install [intro!]: "only plain (install sc)"
  unfolding install_def install_bpf_filter_def Let_def by (auto intro!: only_intros)

lemma only_steps [intro!]:
  "only plain (close_child_ends p)"
  "only plain (close_parent_ends p)"
  "only plain (apply_resource_limits config)"
  "only plain apply_environment_sanitization"
  "only plain (isolate_network config)"
  "only plain (isolate_fs uuid config)"
  "only plain (enter_work_dir config)"
  "only plain (gocache_dir config)"
  "only plain (confine sc config)"
  "only plain (drop_jail jail fin)"
  unfolding close_child_ends_def close_parent_ends_def apply_resource_limits_def limit_def
    apply_environment_sanitization_def isolate_network_def unshare_def isolate_fs_def
    enter_work_dir_def gocache_dir_def confine_def drop_call_def verify_drop_def drop_jail_def Let_def
  by (auto intro!: only_intros only_fs_setup only_install only_fs_drop split: child_end.split)

lemma only_redirect [intro!]: "only plain (redirect_stdio p)"
proof -
  have "only plain (dup_all ds)" for ds
    by (induction ds) (auto intro!: only_intros)
  then show ?thesis
    unfolding redirect_stdio_def by (auto intro!: only_intros only_steps)
qed

section \<open>What the steps establish\<close>

lemma emits_limit: "emits (limit res n) (\<lambda>r e. r = Inr () \<longrightarrow> done_ok (Setrlimit res n n) e)"
  unfolding limit_def by (rule emits_call_bindm) (auto intro!: emits_retm simp: done_ok_def)

lemma emits_limits: "emits (apply_resource_limits config) (\<lambda>r e. r = Inr () \<longrightarrow> limited config e)"
  unfolding apply_resource_limits_def
  by (rule emits_trym_with[OF emits_limit], simp, rule emits_trym_with[OF emits_limit], simp,
      rule emits_conseq[OF emits_limit]) (simp add: limited_def)

lemma emits_limits_err:
  "emits (bindm (apply_resource_limits config) (\<lambda>r. retm (map_err Returned r)))
     (\<lambda>r e. (\<exists>x. r = Inr x) \<longrightarrow> limited config e)"
  by (rule emits_bindm_with[OF emits_limits], rule emits_retm)
    (auto simp: map_err_def split: sum.splits)

lemma emits_unshare: "emits (unshare what flags) (\<lambda>r e. r = Inr () \<longrightarrow> done_ok (Unshare flags) e)"
  unfolding unshare_def by (rule emits_call_bindm) (auto intro!: emits_retm simp: done_ok_def)

lemma emits_network:
  "emits (isolate_network config) (\<lambda>r e. r = Inr () \<longrightarrow> enable_network_isolation config \<longrightarrow>
     done_ok (Unshare [''CLONE_NEWNET'', ''CLONE_NEWIPC'']) e)"
  unfolding isolate_network_def by (auto intro!: emits_retm emits_conseq[OF emits_unshare])

lemma emits_isolate_fs:
  "emits (isolate_fs uuid config) (\<lambda>r e. (\<exists>j. r = Inr j) \<longrightarrow> enable_fs_isolation config \<longrightarrow> jailed config e)"
proof (cases "enable_fs_isolation config")
  case True
  show ?thesis
    unfolding isolate_fs_def Let_def if_P[OF True]
  proof (rule emits_trym_with[OF emits_unshare], simp, rule emits_bindm_with[OF emits_fs_setup],
      rule emits_retm, goal_cases)
    case (1 x e r e')
    show ?case
    proof (cases r)
      case (Inl err)
      then show ?thesis by simp
    next
      case (Inr jail)
      with 1(2) have "jail_ready jail (workspace_dir config) (fs_readonly_paths config) e'" by simp
      then show ?thesis
        using 1(1) unfolding jailed_def
        by (intro impI conjI exI[of _ jail] exI[of _ e] exI[of _ e'] exI[of _ "[]"]) auto
    qed
  qed
next
  case False
  then show ?thesis unfolding isolate_fs_def by (auto intro!: emits_retm)
qed

lemma emits_drop_call:
  "emits (drop_call c msg) (\<lambda>r e. r = Inr () \<longrightarrow> answered c (\<lambda>i. i = 0) e)"
  unfolding drop_call_def by (rule emits_call_bindm) (auto intro!: emits_retm simp: answered_def)

lemma emits_verify:
  "emits verify_drop (\<lambda>r e. r = Inr () \<longrightarrow> answered Getuid (\<lambda>i. i \<noteq> 0) e \<and>
     answered Geteuid (\<lambda>i. i \<noteq> 0) e \<and> answered (Setuid 0) (\<lambda>i. i \<noteq> 0) e)"
  unfolding verify_drop_def
  by (rule emits_call_bindm) (auto intro!: emits_call_bindm emits_retm simp: answered_def)

lemma emits_install_err:
  "emits (bindm (install sc) (\<lambda>r. retm (map_err f r))) (\<lambda>r e. r = Inr () \<longrightarrow> filtered e)"
  by (rule emits_bindm_with[OF emits_install], rule emits_retm)
    (auto simp: map_err_def split: sum.splits)

lemma emits_confine:
  "emits (confine sc config) (\<lambda>r e. r = Inr () \<longrightarrow> profile config = Run \<longrightarrow> filtered e \<and> dropped e)"
proof (cases "profile config = Run")
  case True
  show ?thesis
    unfolding confine_def if_P[OF True]
    by (rule emits_trym_with[OF emits_install_err], simp, rule emits_trym_with[OF emits_drop_call],
        simp, rule emits_trym_with[OF emits_drop_call], simp,
        rule emits_trym_with[OF emits_drop_call], simp, rule emits_conseq[OF emits_verify])
      (auto simp: dropped_def)
next
  case False
  then show ?thesis unfolding confine_def by (auto intro!: emits_retm)
qed

lemma emits_exec: "G [] \<Longrightarrow> emits (exec_program prog av ev) (\<lambda>_. guarded is_exec G)"
  unfolding exec_program_def
  by (rule emits_call_bindm)
    (auto intro!: emits_retm emits_thenm emits_execm simp: guarded_def Cons_eq_append_conv)

lemma emits_launch:
  assumes "\<And>e. profile config = Run \<longrightarrow> filtered e \<and> dropped e \<Longrightarrow> G e"
  shows "emits (launch sc config) (\<lambda>_. guarded is_exec G)"
  unfolding launch_def finish_with_def
proof (rule emits_guard_tail, rule emits_guard_trym[OF not_exec[OF only_steps(7)] emits_only[OF only_steps(7)]],
    goal_cases)
  case (1 x e)
  have last: "emits (trym (confine sc config) (\<lambda>_. bindm (exec_program prog av ev) (\<lambda>e. retm (Inr e))))
      (\<lambda>_. guarded is_exec (\<lambda>e2. G (e @ e' @ e2)))" for prog av ev e'
    by (rule emits_guard_trym[OF not_exec[OF only_steps(9)] emits_confine], rule emits_guard_tail, rule emits_exec)
      (auto intro!: assms only_retm)
  show ?case
    by (auto intro!: emits_retm guarded_none emits_guard_bindm[OF not_exec[OF only_steps(8)] emits_only[OF only_steps(8)]] last
        split: option.split)
next
  case (2 x)
  show ?case by (rule only_retm)
qed

text \<open>Every \<open>execve\<close> of the child comes after all the steps of its configuration.\<close>

lemma emits_child:
  "emits (setup_child_process sc uuid config pipes) (\<lambda>_. guarded is_exec (confined config))"
  unfolding setup_child_process_def finish_with_def
proof (rule emits_guard_tail,
    rule emits_guard_thenm[OF not_exec[OF only_steps(1)] emits_only[OF only_steps(1)]],
    rule emits_guard_trym[OF not_exec[OF only_redirect] emits_only[OF only_redirect]],
    rule emits_guard_thenm[where Q = "\<lambda>_ _. True"], goal_cases)
  case (3 x e xa ea xb eb)
  have lims: "only plain (bindm (apply_resource_limits config) (\<lambda>r. retm (map_err Returned r)))"
    by (auto intro!: only_intros only_steps)
  show ?case
  proof (rule emits_guard_trym[OF not_exec[OF lims] emits_limits_err],
      rule emits_guard_thenm[OF not_exec[OF only_steps(4)] emits_only[OF only_steps(4)]],
      rule emits_guard_trym[OF not_exec[OF only_steps(5)] emits_network],
      rule emits_guard_trym[OF not_exec[OF only_steps(6)] emits_isolate_fs],
      rule emits_guard_tail, rule emits_launch, goal_cases)
    case (1 xc ec xd ed xe ee xf ef eg)
    then have parts: "limited config ec" "enable_fs_isolation config \<longrightarrow> jailed config ef"
      "enable_network_isolation config \<longrightarrow> done_ok (Unshare [''CLONE_NEWNET'', ''CLONE_NEWIPC'']) ee"
      "profile config = Run \<longrightarrow> filtered eg \<and> dropped eg" by auto
    show ?case
      unfolding confined_def
      using limited_append[OF disjI1[OF parts(1)]] parts(2-4)
      by (meson limited_append jailed_append filtered_append dropped_append done_ok_append)
  next
    case (2 xc ec xd ed xe ee xf ef fin)
    show ?case by (auto intro!: only_intros not_exec[OF only_steps(10)])
  qed
qed (auto intro!: only_intros emits_execm)

section \<open>Properties\<close>

text \<open>
  Untrusted code is executed only when fully confined. Whatever the kernel answers, before
  any \<open>execve\<close> of the child the resource limits were set; with network isolation the network
  and IPC namespaces were unshared; with file system isolation the mount namespace was
  unshared and the jail was completely set up; and for the run profile the system call
  filter was loaded with privileges frozen, all groups, the GID and the UID were dropped to
  65534, and the drop was verified to be irreversible.
\<close>

lemma exec_only_confined:
  assumes "setup_child_process sc uuid config pipes os tr = (fin, tr @ e1 @ (Execve p a v, r) # e2)"
  shows "confined config e1"
  using emits_run[OF emits_child assms] by (auto simp: guarded_def)

lemma exec_only_confined_witness:
  "\<exists>e1 p a v r. snd (setup_child_process
       \<lparr>arch_known = True, filter_error = (\<lambda>_. None), program_error = (\<lambda>_. None)\<rparr> ''u''
       (with_fs_isolation False (new_config ''/bin/cat''))
       \<lparr>stdin_read = 3, stdin_write = 4, stdout_read = 5, stdout_write = 6, stderr_read = 7,
        stderr_write = 8\<rparr>
       (\<lambda>_ c. if c \<in> {Getuid, Geteuid, Setuid 0} then Ret 65534 else Ret 0) []) =
     e1 @ [(Execve p a v, r)] \<and> filtered e1 \<and> dropped e1"
proof -
  let ?config = "with_fs_isolation False (new_config ''/bin/cat'')"
  let ?sc = "\<lparr>arch_known = True, filter_error = (\<lambda>_. None), program_error = (\<lambda>_. None)\<rparr>"
  let ?pipes = "\<lparr>stdin_read = 3, stdin_write = 4, stdout_read = 5, stdout_write = 6, stderr_read = 7,
        stderr_write = 8\<rparr>"
  let ?os = "\<lambda>_ c. if c \<in> {Getuid, Geteuid, Setuid 0} then Ret 65534 else Ret 0"
  let ?run = "setup_child_process ?sc ''u'' ?config ?pipes ?os []"
  have env: "envp ''/tmp'' \<noteq> None"
    by (simp add: envp_def cstring_def path_join_def from_utf8_lossy_ascii del: from_utf8_lossy.simps)
  have "snd ?run \<noteq> [] \<and> (\<exists>p a v. last (snd ?run) = (Execve p a v, Ret 0))"
    using env
    by (auto simp: setup_child_process_def finish_with_def close_child_ends_def close_parent_ends_def
        redirect_stdio_def apply_resource_limits_def limit_def apply_environment_sanitization_def
        isolate_network_def unshare_def isolate_fs_def launch_def enter_work_dir_def gocache_dir_def
        confine_def drop_call_def verify_drop_def drop_jail_def install_def install_bpf_filter_def
        exec_program_def new_config_def builder_simps map_err_def cstring_def
        trym_def bindm_def callm_def retm_def thenm_def execm_def
        ret_ok_def ret_int_def ret_bool_def Let_def
        simp del: from_utf8_lossy.simps)
  then obtain p a v where run: "snd ?run = butlast (snd ?run) @ [(Execve p a v, Ret 0)]"
    by (metis append_butlast_last_id)
  then have "?run = (fst ?run, [] @ butlast (snd ?run) @ (Execve p a v, Ret 0) # [])"
    by (metis append_Nil prod.collapse)
  then have "confined ?config (butlast (snd ?run))" by (rule exec_only_confined)
  moreover have "profile ?config = Run" by (simp add: builder_simps new_config_def)
  ultimately have "filtered (butlast (snd ?run)) \<and> dropped (butlast (snd ?run))"
    unfolding confined_def by blast
  with run show ?thesis by blast
qed

end
