(* ===== verification/Cgroups.thy ===== *)
theory Cgroups
  imports Os_Trace Sandbox_Config Languages
begin

text \<open>
  The cgroup of one execution, \<open>src/sandbox/cgroups.rs\<close>: its creation with the memory,
  process and CPU limits, attaching a process, reading the statistics, and the teardown.
  The files under \<open>/sys/fs/cgroup\<close> are reached through the calls of \<open>Os_Trace\<close>; the
  text of an \<open>io::Error\<close> is whatever the kernel's answer carries. The log messages
  (\<open>tracing::warn\<close>, once per process for a missing \<open>cpu.max\<close>) are left out.
\<close>

section \<open>Data\<close>

datatype CgroupError =
    DirectoryCreationFailed string
  | SettingWriteFailed string
  | StatReadFailed string
  | NotAvailable string
  | CleanupFailed string

record CgroupStats =
  memory_current_bytes :: u64
  memory_peak_bytes :: u64
  cpu_usage_usec :: u64
  oom_kill_count :: u64

record CgroupManager =
  cgroup_root :: path
  cg_job_id :: string
  cgroup_path :: path

definition EBUSY :: int where
  "EBUSY = 16"

definition SIGKILL :: int where
  "SIGKILL = 9"

section \<open>Files\<close>

definition write_cgroup_file :: "path \<Rightarrow> string \<Rightarrow> (CgroupError + unit) os_m" where
  "write_cgroup_file p v =
     bindm (callm (Open_write p)) (\<lambda>r.
       if \<not> ret_ok r
       then retm (Inl (SettingWriteFailed (''Cannot write to '' @ p @ '': '' @ ret_msg r)))
       else bindm (callm (Write_all p v)) (\<lambda>r.
         if \<not> ret_ok r
         then retm (Inl (SettingWriteFailed (''Failed to write '' @ [CHR 0x27] @ v @ [CHR 0x27] @
                '' to '' @ p @ '': '' @ ret_msg r)))
         else retm (Inr ())))"

definition read_to_string :: "path \<Rightarrow> (string + string) os_m" where
  "read_to_string p =
     bindm (callm (Read_to_string p)) (\<lambda>r.
       retm (case r of Contents s \<Rightarrow> Inr s | _ \<Rightarrow> Inl (ret_msg r)))"

text \<open>The parsing of a file's contents.\<close>

definition parse_cgroup_value :: "string \<Rightarrow> u64 option" where
  "parse_cgroup_value contents = parse_u64 (trim contents)"

fun find_usage_usec :: "string list \<Rightarrow> CgroupError + u64" where
  "find_usage_usec [] = Inr 0"
| "find_usage_usec (line # lines) =
     (if strip_prefix ''usage_usec'' line \<noteq> None
      then (case split_whitespace line of
              _ # value_str # _ \<Rightarrow>
                (case parse_u64 value_str of
                   Some v \<Rightarrow> Inr v
                 | None \<Rightarrow> Inl (StatReadFailed
                     (''Cannot parse CPU stat: '' @ parse_uint_error 64 value_str)))
            | _ \<Rightarrow> find_usage_usec lines)
      else find_usage_usec lines)"

fun find_oom_kill :: "string list \<Rightarrow> u64" where
  "find_oom_kill [] = 0"
| "find_oom_kill (line # lines) =
     (case strip_prefix ''oom_kill '' line of
        Some rest \<Rightarrow>
          (case parse_u64 (trim rest) of Some v \<Rightarrow> v | None \<Rightarrow> find_oom_kill lines)
      | None \<Rightarrow> find_oom_kill lines)"

definition read_cgroup_value :: "path \<Rightarrow> (CgroupError + u64) os_m" where
  "read_cgroup_value p =
     bindm (read_to_string p) (\<lambda>r. retm
       (case r of
          Inl e \<Rightarrow> Inl (StatReadFailed (''Cannot read '' @ p @ '': '' @ e))
        | Inr contents \<Rightarrow>
            (case parse_cgroup_value contents of
               Some v \<Rightarrow> Inr v
             | None \<Rightarrow> Inl (StatReadFailed
                 (''Cannot parse value: '' @ parse_uint_error 64 (trim contents))))))"

definition read_cpu_stat :: "path \<Rightarrow> (CgroupError + u64) os_m" where
  "read_cpu_stat p =
     bindm (read_to_string p) (\<lambda>r. retm
       (case r of
          Inl e \<Rightarrow> Inl (StatReadFailed (''Cannot read '' @ p @ '': '' @ e))
        | Inr contents \<Rightarrow> find_usage_usec (rust_lines contents)))"

definition read_oom_kill :: "path \<Rightarrow> u64 os_m" where
  "read_oom_kill p =
     bindm (read_to_string p) (\<lambda>r. retm
       (case r of Inr contents \<Rightarrow> find_oom_kill (rust_lines contents) | Inl e \<Rightarrow> 0))"

definition unwrap_or :: "'a \<Rightarrow> 'e + 'a \<Rightarrow> 'a" where
  "unwrap_or d r = (case r of Inr x \<Rightarrow> x | Inl e \<Rightarrow> d)"

section \<open>Operations\<close>

text \<open>The quota line of \<open>cpu.max\<close> for a percentage of one core.\<close>

definition cpu_max_value :: "u32 \<Rightarrow> string" where
  "cpu_max_value percent =
     (let period_us = 100000 :: u64;
          quota_us = saturating_mul (ucast percent) period_us div 100
      in show_nat (unat (max quota_us 1000)) @ '' '' @ show_nat (unat period_us))"

definition cgroup_create :: "CgroupManager \<Rightarrow> SandboxConfig \<Rightarrow> (CgroupError + unit) os_m" where
  "cgroup_create mgr config =
     bindm (callm (Create_dir_all (cgroup_path mgr))) (\<lambda>r.
       if \<not> ret_ok r
       then retm (Inl (DirectoryCreationFailed
              (''Failed to create '' @ cgroup_path mgr @ '': '' @ ret_msg r)))
       else
         trym (write_cgroup_file (path_join (cgroup_path mgr) ''memory.max'')
                 (show_nat (unat (memory_limit_bytes config)))) (\<lambda>_.
         bindm (write_cgroup_file (path_join (cgroup_path mgr) ''memory.swap.max'') ''0'') (\<lambda>_.
         bindm (write_cgroup_file (path_join (cgroup_path mgr) ''memory.zswap.max'') ''0'') (\<lambda>_.
         trym (if profile config \<noteq> Compile
               then write_cgroup_file (path_join (cgroup_path mgr) ''pids.max'')
                      (show_nat (unat (pids_limit config)))
               else retm (Inr ())) (\<lambda>_.
         bindm (case cpu_max_percent config of
                  Some percent \<Rightarrow>
                    bindm (write_cgroup_file (path_join (cgroup_path mgr) ''cpu.max'')
                      (cpu_max_value percent)) (\<lambda>_. retm ())
                | None \<Rightarrow> retm ()) (\<lambda>_.
         retm (Inr ())))))))"

definition attach_proc :: "CgroupManager \<Rightarrow> int \<Rightarrow> (CgroupError + unit) os_m" where
  "attach_proc mgr p =
     write_cgroup_file (path_join (cgroup_path mgr) ''cgroup.procs'')
       (if p < 0 then CHR ''-'' # show_nat (nat (- p)) else show_nat (nat p))"

definition read_stats :: "CgroupManager \<Rightarrow> (CgroupError + CgroupStats) os_m" where
  "read_stats mgr =
     bindm (read_cgroup_value (path_join (cgroup_path mgr) ''memory.current'')) (\<lambda>cur.
     bindm (read_cgroup_value (path_join (cgroup_path mgr) ''memory.peak'')) (\<lambda>peak.
     bindm (read_cpu_stat (path_join (cgroup_path mgr) ''cpu.stat'')) (\<lambda>cpu.
     bindm (read_oom_kill (path_join (cgroup_path mgr) ''memory.events'')) (\<lambda>oom.
     let current = unwrap_or 0 cur in
     retm (Inr \<lparr> memory_current_bytes = current, memory_peak_bytes = unwrap_or current peak,
                cpu_usage_usec = unwrap_or 0 cpu, oom_kill_count = oom \<rparr>)))))"

definition kill_line :: "string \<Rightarrow> unit os_m" where
  "kill_line line =
     (case parse_i32 line of Some p \<Rightarrow> execm (Kill p SIGKILL) | None \<Rightarrow> retm ())"

definition kill_all :: "CgroupManager \<Rightarrow> unit os_m" where
  "kill_all mgr =
     (let kill_path = path_join (cgroup_path mgr) ''cgroup.kill'' in
      bindm (callm (Open_write kill_path)) (\<lambda>r.
      thenm (if ret_ok r then execm (Write_all kill_path (''1'' @ [CHR 0x0A])) else retm ())
      (bindm (read_to_string (path_join (cgroup_path mgr) ''cgroup.procs'')) (\<lambda>r.
        case r of
          Inr contents \<Rightarrow> for_each kill_line (rust_lines contents)
        | Inl e \<Rightarrow> retm ()))))"

definition cleanup_failed :: "CgroupManager \<Rightarrow> os_ret \<Rightarrow> CgroupError" where
  "cleanup_failed mgr r =
     CleanupFailed (''Failed to remove cgroup '' @ cgroup_path mgr @ '': '' @ ret_msg r)"

definition cgroup_cleanup :: "CgroupManager \<Rightarrow> (CgroupError + unit) os_m" where
  "cgroup_cleanup mgr =
     thenm (kill_all mgr)
     (bindm (callm (Remove_dir (cgroup_path mgr))) (\<lambda>r.
       case r of
         Err e n \<Rightarrow>
           if n = EBUSY
           then thenm (execm Yield_now)
             (bindm (callm (Remove_dir (cgroup_path mgr))) (\<lambda>r.
               if \<not> ret_ok r then retm (Inl (cleanup_failed mgr r)) else retm (Inr ())))
           else retm (Inl (cleanup_failed mgr r))
       | _ \<Rightarrow> retm (Inr ())))"

definition cgroup_drop :: "CgroupManager \<Rightarrow> unit os_m" where
  "cgroup_drop mgr = bindm (cgroup_cleanup mgr) (\<lambda>_. retm ())"

text \<open>When the setup fails the manager goes out of scope, and its \<open>Drop\<close> removes what there is.\<close>

definition cgroup_new :: "string \<Rightarrow> SandboxConfig \<Rightarrow> (CgroupError + CgroupManager) os_m" where
  "cgroup_new uuid config =
     (let root = ''/sys/fs/cgroup/judge'';
          mgr = \<lparr> cgroup_root = root, cg_job_id = uuid, cgroup_path = path_join root uuid \<rparr>
      in bindm (callm (Metadata root)) (\<lambda>r.
         trym (if \<not> ret_ok r
               then bindm (callm (Create_dir_all root)) (\<lambda>r.
                 if \<not> ret_ok r
                 then retm (Inl (NotAvailable
                        (''Cannot access /sys/fs/cgroup/judge: '' @ ret_msg r)))
                 else retm (Inr ()))
               else retm (Inr ())) (\<lambda>_.
         bindm (cgroup_create mgr config) (\<lambda>r.
           case r of
             Inl e \<Rightarrow> thenm (cgroup_drop mgr) (retm (Inl e))
           | Inr _ \<Rightarrow> retm (Inr mgr)))))"

section \<open>Facts about the files\<close>

text \<open>The history holds a successful write of a value to a file.\<close>

definition wrote :: "path \<Rightarrow> string \<Rightarrow> trace \<Rightarrow> bool" where
  "wrote p v tr \<longleftrightarrow> (\<exists>r. (Write_all p v, r) \<in> set tr \<and> ret_ok r)"

lemma wrote_append [simp]: "wrote p v (a @ b) \<longleftrightarrow> wrote p v a \<or> wrote p v b"
  by (auto simp: wrote_def)

lemma emits_write: "emits (write_cgroup_file p v) (\<lambda>r e. r = Inr () \<longrightarrow> wrote p v e)"
  unfolding write_cgroup_file_def
  by (rule emits_bindm', rule emits_callm)
    (auto intro!: emits_bindm' emits_callm emits_retm simp: wrote_def)

lemma emits_read: "emits (read_to_string p) (\<lambda>_ _. True)"
  unfolding read_to_string_def by (rule emits_bindm', rule emits_callm, rule emits_retm) simp

lemma emits_write_pids:
  "emits (if profile config \<noteq> Compile
          then write_cgroup_file p (show_nat (unat (pids_limit config))) else retm (Inr ()))
     (\<lambda>r e. r = Inr () \<longrightarrow> profile config = Run \<longrightarrow> wrote p (show_nat (unat (pids_limit config))) e)"
  by (cases "profile config") (auto intro: emits_conseq[OF emits_write] emits_retm)

lemma emits_write_cpu:
  "emits (case pc of Some percent \<Rightarrow> bindm (write_cgroup_file p (cpu_max_value percent)) (\<lambda>_. retm ())
     | None \<Rightarrow> retm ()) (\<lambda>_ _. True)"
  by (cases pc) (auto intro!: emits_bindm_with[OF emits_write] emits_retm)

lemma emits_create:
  "emits (cgroup_create mgr config) (\<lambda>r e. r = Inr () \<longrightarrow>
     wrote (path_join (cgroup_path mgr) ''memory.max'') (show_nat (unat (memory_limit_bytes config))) e \<and>
     (profile config = Run \<longrightarrow>
        wrote (path_join (cgroup_path mgr) ''pids.max'') (show_nat (unat (pids_limit config))) e))"
  unfolding cgroup_create_def
proof (rule emits_call_bindm, split if_split, intro conjI impI, goal_cases)
  case (1 r)
  show ?case by (rule emits_retm) simp
next
  case (2 r)
  show ?case
    by (rule emits_trym_with[OF emits_write], simp, rule emits_bindm_with[OF emits_write],
        rule emits_bindm_with[OF emits_write], rule emits_trym_with[OF emits_write_pids], simp,
        rule emits_bindm_with[OF emits_write_cpu], rule emits_retm) (auto simp: wrote_def)
qed

lemma emits_kill_line: "emits (kill_line l) (\<lambda>_ _. True)"
  by (auto simp: kill_line_def split: option.splits)

lemma emits_kill_all: "emits (kill_all mgr) (\<lambda>_ _. True)"
  unfolding kill_all_def Let_def
  by (auto intro!: emits_call_bindm emits_thenm emits_bindm_with[OF emits_read] emits_execm emits_retm
      emits_True_for_each emits_kill_line split: sum.splits)

lemma emits_cgroup_drop: "emits (cgroup_drop mgr) (\<lambda>_ _. True)"
  unfolding cgroup_drop_def cgroup_cleanup_def
  by (rule emits_bindm_with[where Q = "\<lambda>_ _. True"], rule emits_thenm_with[OF emits_kill_all])
    (auto intro!: emits_call_bindm emits_thenm emits_execm emits_retm split: os_ret.splits)

text \<open>The limits of an execution were written to its cgroup.\<close>

definition cgroup_limited :: "string \<Rightarrow> SandboxConfig \<Rightarrow> trace \<Rightarrow> bool" where
  "cgroup_limited uuid config e \<longleftrightarrow>
     wrote (path_join (path_join ''/sys/fs/cgroup/judge'' uuid) ''memory.max'')
       (show_nat (unat (memory_limit_bytes config))) e \<and>
     (profile config = Run \<longrightarrow>
        wrote (path_join (path_join ''/sys/fs/cgroup/judge'' uuid) ''pids.max'')
          (show_nat (unat (pids_limit config))) e)"

lemma cgroup_limited_append: "cgroup_limited uuid config b \<Longrightarrow> cgroup_limited uuid config (a @ b)"
  "cgroup_limited uuid config a \<Longrightarrow> cgroup_limited uuid config (a @ b)"
  by (auto simp: cgroup_limited_def)

lemma emits_new:
  "emits (cgroup_new uuid config) (\<lambda>r e. \<forall>mgr. r = Inr mgr \<longrightarrow> cgroup_limited uuid config e)"
  unfolding cgroup_new_def Let_def
proof (rule emits_call_bindm, rule emits_trym_with[where Q = "\<lambda>_ _. True"], goal_cases)
  case (1 r)
  show ?case by (auto intro!: emits_retm emits_call_bindm)
next
  case (2 r)
  show ?case by simp
next
  case (3 r)
  show ?case
    by (rule emits_bindm_with[OF emits_create])
      (auto intro!: emits_thenm_with[OF emits_cgroup_drop] emits_retm split: sum.split
        simp: cgroup_limited_def wrote_def)
qed

section \<open>Facts about the statistics\<close>

text \<open>A flat-keyed file of the kernel: one line \<open>key value\<close> per entry.\<close>

definition flat_keyed :: "(string \<times> nat) list \<Rightarrow> string" where
  "flat_keyed kvs = concat (map (\<lambda>(k, v). k @ '' '' @ show_nat v @ [CHR 0x0A]) kvs)"

definition key_word :: "string \<Rightarrow> bool" where
  "key_word k \<longleftrightarrow> CHR 0x0A \<notin> set k \<and> CHR '' '' \<notin> set k"

lemma show_nat_no_char:
  assumes "(of_char c :: nat) < 48 \<or> 57 < (of_char c :: nat)"
  shows "c \<notin> set (show_nat n)"
  using show_nat_digits digit_char_neq[OF _ assms] by metis

lemma last_show_nat_not_cr: "last (show_nat n) \<noteq> CHR 0x0D"
  using show_nat_no_char[of "CHR 0x0D" n] last_in_set[of "show_nat n"] by (auto simp del: last_in_set)

lemma split_flat_keyed:
  "\<forall>(k, v) \<in> set kvs. key_word k \<Longrightarrow>
   split_on (CHR 0x0A) (flat_keyed kvs) = map (\<lambda>(k, v). k @ '' '' @ show_nat v) kvs @ [[]]"
proof (induction kvs)
  case Nil
  then show ?case by (simp add: flat_keyed_def)
next
  case (Cons kv kvs)
  obtain k v where kv: "kv = (k, v)" by (cases kv)
  have "CHR 0x0A \<notin> set (k @ '' '' @ show_nat v)"
    using Cons.prems kv show_nat_no_char[of "CHR 0x0A" v] by (simp add: key_word_def)
  then have "split_on (CHR 0x0A) ((k @ '' '' @ show_nat v) @ CHR 0x0A # flat_keyed kvs) =
      (k @ '' '' @ show_nat v) # split_on (CHR 0x0A) (flat_keyed kvs)"
    by (rule split_on_sep)
  then show ?case using Cons kv by (simp add: flat_keyed_def)
qed

lemma lines_flat_keyed:
  assumes "\<forall>(k, v) \<in> set kvs. key_word k"
  shows "rust_lines (flat_keyed kvs) = map (\<lambda>(k, v). k @ '' '' @ show_nat v) kvs"
proof -
  have "map strip_cr (map (\<lambda>(k, v). k @ '' '' @ show_nat v) kvs) =
      map (\<lambda>(k, v). k @ '' '' @ show_nat v) kvs"
    by (auto simp: strip_cr_def last_show_nat_not_cr)
  then show ?thesis by (simp add: rust_lines_def split_flat_keyed[OF assms])
qed

lemma strip_oom_kill:
  assumes "key_word k"
  shows "strip_prefix ''oom_kill '' (k @ '' '' @ s) = (if k = ''oom_kill'' then Some s else None)"
proof (cases "k = ''oom_kill''")
  case False
  have "k @ '' '' @ s \<noteq> ''oom_kill '' @ r" for r
  proof
    assume eq: "k @ '' '' @ s = ''oom_kill '' @ r"
    have "takeWhile (\<lambda>c. c \<noteq> CHR '' '') (k @ '' '' @ s) = k"
      using assms by (induction k) (auto simp: key_word_def)
    moreover have "takeWhile (\<lambda>c. c \<noteq> CHR '' '') (''oom_kill '' @ r) = ''oom_kill''" by simp
    ultimately show False using eq False by simp
  qed
  then have "strip_prefix ''oom_kill '' (k @ '' '' @ s) \<noteq> Some r" for r
    unfolding strip_prefix_eq_Some by blast
  with False show ?thesis by (metis not_None_eq)
qed simp

lemma find_oom_kill_flat:
  assumes "\<forall>(k, v) \<in> set kvs. key_word k \<and> v < 2 ^ 64"
  shows "find_oom_kill (map (\<lambda>(k, v). k @ '' '' @ show_nat v) kvs) =
    (case map_of kvs ''oom_kill'' of Some v \<Rightarrow> of_nat v | None \<Rightarrow> 0)"
  using assms
proof (induction kvs)
  case Nil
  then show ?case by simp
next
  case (Cons kv kvs)
  obtain k v where kv: "kv = (k, v)" by (cases kv)
  with Cons.prems have "key_word k" "v < 2 ^ 64" by auto
  then show ?case
    using Cons kv by (simp add: strip_oom_kill[simplified] parse_u64_def parse_uint_show_nat)
qed

section \<open>Properties\<close>

text \<open>
  C31: cgroup setup fails closed. Whatever the kernel answers, \<open>CgroupManager::new\<close> returns
  a manager only after the configured memory limit was written to the new cgroup's
  \<open>memory.max\<close> and, for the untrusted run profile, the process limit to its \<open>pids.max\<close>,
  each without an error.
\<close>

theorem cgroup_fail_closed:
  assumes "cgroup_new uuid config os tr = (Inr mgr, tr')"
  shows "\<exists>e. tr' = tr @ e \<and>
    wrote (path_join (path_join ''/sys/fs/cgroup/judge'' uuid) ''memory.max'')
      (show_nat (unat (memory_limit_bytes config))) e \<and>
    (profile config = Run \<longrightarrow>
      wrote (path_join (path_join ''/sys/fs/cgroup/judge'' uuid) ''pids.max'')
        (show_nat (unat (pids_limit config))) e)"
  using emits_run[OF emits_new assms] by (auto simp: cgroup_limited_def)

theorem cgroup_fail_closed_witness:
  "wrote ''/sys/fs/cgroup/judge/u1/memory.max'' (show_nat 268435456)
    (snd (cgroup_new ''u1'' (new_config ''/bin/cat'') (\<lambda>_ _. Ret 0) []))"
proof -
  obtain mgr tr' where run:
    "cgroup_new ''u1'' (new_config ''/bin/cat'') (\<lambda>_ _. Ret 0) [] = (Inr mgr, tr')"
    by (simp add: cgroup_new_def cgroup_create_def write_cgroup_file_def bindm_def trym_def
        callm_def retm_def ret_ok_def Let_def new_config_def)
  show ?thesis
    using cgroup_fail_closed[OF run] run
    by (auto simp: path_join_def new_config_def)
qed

text \<open>
  The out-of-memory counter is read from exactly its own line. For a \<open>memory.events\<close>
  file of key and value lines, the value read is the one of the key \<open>oom_kill\<close>, whatever
  other keys (such as \<open>oom_group_kill\<close>) the file has, and 0 when the key is absent.
\<close>

lemma oom_kill_exact:
  assumes "\<forall>(k, v) \<in> set kvs. key_word k \<and> v < 2 ^ 64"
  shows "find_oom_kill (rust_lines (flat_keyed kvs)) =
    (case map_of kvs ''oom_kill'' of Some v \<Rightarrow> of_nat v | None \<Rightarrow> 0)"
proof -
  have "\<forall>(k, v) \<in> set kvs. key_word k" using assms by auto
  then show ?thesis using find_oom_kill_flat[OF assms] by (subst lines_flat_keyed)
qed

lemma oom_kill_exact_witness:
  "find_oom_kill (rust_lines (flat_keyed
     [(''low'', 0), (''max'', 7), (''oom'', 2), (''oom_group_kill'', 9), (''oom_kill'', 3)])) = 3"
  using oom_kill_exact[of "[(''low'', 0), (''max'', 7), (''oom'', 2), (''oom_group_kill'', 9),
      (''oom_kill'', 3)]"]
  by (simp add: key_word_def)

end
