(* ===== verification/Reaper.thy ===== *)
theory Reaper
  imports Akiro_Prelude
begin

text \<open>
  Child reaping, \<open>src/sandbox/reaper.rs\<close>: the global registry from process ids to slots,
  the handle of a supervised child, and the \<open>SIGCHLD\<close>-driven \<open>reap_all\<close>.

  A slot is an \<open>Arc<Mutex<Option<ChildExit>>>\<close> shared by the registry and the handle, so
  the state has an explicit store of slots and both sides hold a slot's address. Every
  operation takes the locks it needs for its whole effect, so the interleavings of threads
  are sequences of these operations. The answers of \<open>wait4(-1, WNOHANG)\<close> are an argument
  of \<open>reap_all\<close>.
\<close>

section \<open>Data\<close>

type_synonym c_int = "32 word"

record rusage =
  ru_utime_sec :: int
  ru_utime_usec :: int
  ru_stime_sec :: int
  ru_stime_usec :: int
  ru_maxrss :: int

type_synonym ChildExit = "c_int \<times> rusage"

record reaper =
  registry :: "int \<rightharpoonup> nat"
  slots :: "nat \<Rightarrow> ChildExit option"
  next_slot :: nat

record SupervisedChild =
  pid :: int
  slot :: nat

section \<open>Operations\<close>

definition register_child :: "int \<Rightarrow> reaper \<Rightarrow> SupervisedChild \<times> reaper" where
  "register_child p st =
     (let a = next_slot st in
      (\<lparr> pid = p, slot = a \<rparr>,
       st\<lparr> registry := (registry st)(p \<mapsto> a), slots := (slots st)(a := None), next_slot := Suc a \<rparr>))"

definition try_take :: "SupervisedChild \<Rightarrow> reaper \<Rightarrow> ChildExit option \<times> reaper" where
  "try_take h st = (slots st (slot h), st\<lparr> slots := (slots st)(slot h := None) \<rparr>)"

definition drop_child :: "SupervisedChild \<Rightarrow> reaper \<Rightarrow> reaper" where
  "drop_child h st = st\<lparr> registry := (registry st)(pid h := None) \<rparr>"

text \<open>
  One loop of \<open>reap_all\<close> per answer of \<open>wait4\<close>; an answer \<open>\<le> 0\<close>, or the end of the
  list, ends the loop.
\<close>

fun reap_all :: "(int \<times> ChildExit) list \<Rightarrow> reaper \<Rightarrow> reaper" where
  "reap_all [] st = st"
| "reap_all ((p, ex) # ws) st =
     (if p \<le> 0 then st
      else reap_all ws
        (case registry st p of
           Some a \<Rightarrow> st\<lparr> slots := (slots st)(a := Some ex) \<rparr>
         | None \<Rightarrow> st))"

text \<open>The calls the program's tasks make, in any order.\<close>

datatype reaper_op =
    Register int
  | Take SupervisedChild
  | Drop SupervisedChild
  | Reap "(int \<times> ChildExit) list"

fun reaper_step :: "reaper_op \<Rightarrow> reaper \<Rightarrow> reaper" where
  "reaper_step (Register p) st = snd (register_child p st)"
| "reaper_step (Take h) st = snd (try_take h st)"
| "reaper_step (Drop h) st = drop_child h st"
| "reaper_step (Reap ws) st = reap_all ws st"

fun reaper_run :: "reaper_op list \<Rightarrow> reaper \<Rightarrow> reaper" where
  "reaper_run [] st = st"
| "reaper_run (x # xs) st = reaper_run xs (reaper_step x st)"

section \<open>The invariant\<close>

text \<open>Registered slots are allocated, and two process ids never share one.\<close>

definition wf_reaper :: "reaper \<Rightarrow> bool" where
  "wf_reaper st \<longleftrightarrow>
     (\<forall>p a. registry st p = Some a \<longrightarrow> a < next_slot st) \<and>
     (\<forall>p q a. registry st p = Some a \<longrightarrow> registry st q = Some a \<longrightarrow> p = q)"

lemma wf_reaperD:
  "wf_reaper st \<Longrightarrow> registry st p = Some a \<Longrightarrow> a < next_slot st"
  "wf_reaper st \<Longrightarrow> registry st p = Some a \<Longrightarrow> registry st q = Some a \<Longrightarrow> p = q"
  by (auto simp: wf_reaper_def)

lemma reap_all_frame [simp]:
  "registry (reap_all ws st) = registry st" "next_slot (reap_all ws st) = next_slot st"
  by (induction ws st rule: reap_all.induct) (auto split: option.splits)

lemma register_frame [simp]:
  "fst (register_child p st) = \<lparr> pid = p, slot = next_slot st \<rparr>"
  "registry (snd (register_child p st)) = (registry st)(p \<mapsto> next_slot st)"
  "next_slot (snd (register_child p st)) = Suc (next_slot st)"
  "slots (snd (register_child p st)) = (slots st)(next_slot st := None)"
  by (simp_all add: register_child_def Let_def)

lemma take_frame [simp]:
  "registry (snd (try_take h st)) = registry st" "next_slot (snd (try_take h st)) = next_slot st"
  "slots (snd (try_take h st)) = (slots st)(slot h := None)"
  "fst (try_take h st) = slots st (slot h)"
  by (simp_all add: try_take_def)

lemma drop_frame [simp]:
  "registry (drop_child h st) = (registry st)(pid h := None)"
  "next_slot (drop_child h st) = next_slot st" "slots (drop_child h st) = slots st"
  by (simp_all add: drop_child_def)

lemma wf_reaper_step: "wf_reaper st \<Longrightarrow> wf_reaper (reaper_step x st)"
proof (cases x)
  case (Register p)
  assume "wf_reaper st"
  with Register show ?thesis by (fastforce simp: wf_reaper_def)
qed (auto simp: wf_reaper_def)

section \<open>Where an exit status goes\<close>

text \<open>The answers the loop of \<open>reap_all\<close> looks at.\<close>

definition reaped :: "(int \<times> ChildExit) list \<Rightarrow> (int \<times> ChildExit) list" where
  "reaped ws = takeWhile (\<lambda>(p, ex). p > 0) ws"

lemma reap_all_slots:
  assumes "wf_reaper st" and "registry st p = Some a"
  shows "slots (reap_all ws st) a =
    (case map_of (rev (reaped ws)) p of Some ex \<Rightarrow> Some ex | None \<Rightarrow> slots st a)"
  using assms
proof (induction ws st rule: reap_all.induct)
  case (1 st)
  then show ?case by (simp add: reaped_def)
next
  case (2 q ex ws st)
  let ?st = "case registry st q of
    Some b \<Rightarrow> st\<lparr> slots := (slots st)(b := Some ex) \<rparr> | None \<Rightarrow> st"
  show ?case
  proof (cases "q \<le> 0")
    case True
    then show ?thesis by (simp add: reaped_def)
  next
    case False
    have reg: "registry ?st = registry st" "next_slot ?st = next_slot st"
      by (auto split: option.splits)
    then have "wf_reaper ?st" "registry ?st p = Some a" using "2.prems" by (auto simp: wf_reaper_def)
    then have IH: "slots (reap_all ws ?st) a =
        (case map_of (rev (reaped ws)) p of Some ex \<Rightarrow> Some ex | None \<Rightarrow> slots ?st a)"
      using "2.IH"[OF False] by blast
    have "slots ?st a = (if q = p then Some ex else slots st a)"
      using "2.prems" by (auto split: option.splits dest: wf_reaperD(2))
    then show ?thesis using False IH
      by (auto simp: reaped_def map_add_def split: option.splits)
  qed
qed

text \<open>
  Operations of the other tasks, seen from a supervised child: they use other handles and
  other process ids, and their reaps may bring any exit but this child's.
\<close>

fun other_op :: "SupervisedChild \<Rightarrow> reaper_op \<Rightarrow> bool" where
  "other_op h (Register q) = (q \<noteq> pid h)"
| "other_op h (Take h') = (slot h' \<noteq> slot h)"
| "other_op h (Drop h') = (pid h' \<noteq> pid h)"
| "other_op h (Reap ws) = (pid h \<notin> fst ` set (reaped ws))"

definition supervised :: "SupervisedChild \<Rightarrow> ChildExit option \<Rightarrow> reaper \<Rightarrow> bool" where
  "supervised h ex st \<longleftrightarrow>
     wf_reaper st \<and> registry st (pid h) = Some (slot h) \<and> slots st (slot h) = ex"

lemma supervised_register:
  "wf_reaper st \<Longrightarrow> supervised (fst (register_child p st)) None (snd (register_child p st))"
  using wf_reaper_step[of st "Register p"] by (simp add: supervised_def)

lemma supervised_other:
  assumes "supervised h ex st" and "other_op h x"
  shows "supervised h ex (reaper_step x st)"
proof -
  have wf: "wf_reaper st" and reg: "registry st (pid h) = Some (slot h)"
    using assms(1) by (auto simp: supervised_def)
  have "slot h < next_slot st" using wf reg by (rule wf_reaperD(1))
  moreover have "map_of (rev (reaped ws)) (pid h) = None" if "x = Reap ws" for ws
    using assms(2) that by (simp add: map_of_eq_None_iff)
  ultimately show ?thesis
    using assms wf_reaper_step[OF wf, of x]
    by (cases x) (auto simp: supervised_def reap_all_slots[OF wf reg])
qed

lemma supervised_others:
  "supervised h ex st \<Longrightarrow> \<forall>x \<in> set xs. other_op h x \<Longrightarrow> supervised h ex (reaper_run xs st)"
  by (induction xs arbitrary: st) (auto intro: supervised_other)

lemma supervised_reap:
  assumes "supervised h None st" and "map_of (rev (reaped ws)) (pid h) = Some ex"
  shows "supervised h (Some ex) (reap_all ws st)"
  using assms wf_reaper_step[of st "Reap ws"] reap_all_slots[of st "pid h" "slot h" ws]
  by (simp add: supervised_def)

lemma supervised_poll: "supervised h None st \<Longrightarrow> supervised h None (reaper_step (Take h) st)"
  using wf_reaper_step[of st "Take h"] by (simp add: supervised_def)

lemma supervised_polls:
  "supervised h None st \<Longrightarrow> \<forall>x \<in> set xs. other_op h x \<or> x = Take h \<Longrightarrow>
   supervised h None (reaper_run xs st)"
proof (induction xs arbitrary: st)
  case Nil
  then show ?case by simp
next
  case (Cons x xs)
  then have "supervised h None (reaper_step x st)"
    by (auto intro: supervised_other simp del: reaper_step.simps(2) dest: supervised_poll)
  with Cons show ?case by simp
qed

section \<open>Properties\<close>

text \<open>
  C29: the exit status of a supervised child reaches its supervisor exactly once. From the
  registration on, whatever the other tasks do with other process ids and handles, and
  however often the supervisor polls in vain before, the first poll after the reaper
  collected the child returns its status and resource usage, and the next one nothing.
\<close>

theorem exit_delivered_once:
  assumes "wf_reaper st" and "h = fst (register_child p st)"
    and "\<forall>x \<in> set xs. other_op h x \<or> x = Take h"
    and "map_of (rev (reaped ws)) p = Some ex"
    and "\<forall>x \<in> set ys. other_op h x"
    and "st' = reaper_run ys (reap_all ws (reaper_run xs (snd (register_child p st))))"
  shows "fst (try_take h st') = Some ex \<and> fst (try_take h (snd (try_take h st'))) = None"
proof -
  have "supervised h None (reaper_run xs (snd (register_child p st)))"
    using assms(2,3) supervised_polls supervised_register[OF assms(1), of p] by blast
  then have "supervised h (Some ex) (reap_all ws (reaper_run xs (snd (register_child p st))))"
    using assms(2,4) by (intro supervised_reap) simp_all
  then have "supervised h (Some ex) st'"
    using assms(5,6) supervised_others by blast
  then show ?thesis by (simp add: supervised_def)
qed

definition no_children :: reaper where
  "no_children = \<lparr> registry = Map.empty, slots = (\<lambda>_. None), next_slot = 0 \<rparr>"

definition some_usage :: rusage where
  "some_usage = \<lparr> ru_utime_sec = 0, ru_utime_usec = 2000, ru_stime_sec = 0, ru_stime_usec = 1000,
     ru_maxrss = 4096 \<rparr>"

theorem exit_delivered_once_witness:
  "fst (try_take \<lparr> pid = 41, slot = 0 \<rparr>
     (reaper_run [Register 43]
       (reap_all [(42, (0, some_usage)), (41, (256, some_usage))]
         (reaper_run [Register 42, Take \<lparr> pid = 41, slot = 0 \<rparr>]
           (snd (register_child 41 no_children)))))) = Some (256, some_usage)"
  using exit_delivered_once[of no_children "\<lparr> pid = 41, slot = 0 \<rparr>" 41
      "[Register 42, Take \<lparr> pid = 41, slot = 0 \<rparr>]"
      "[(42, (0, some_usage)), (41, (256, some_usage))]" "(256, some_usage)" "[Register 43]"]
  by (simp add: no_children_def wf_reaper_def reaped_def)

text \<open>
  C40: a process id reused too early loses an exit. If the kernel gives a new child the id
  of a child that was reaped but whose handle is still alive (the supervisor has polled the
  status and has not returned yet), dropping the old handle unregisters the new child: the
  new child's exit is discarded, and its supervisor's poll finds nothing.
\<close>

theorem pid_reuse_loses_exit:
  "let (h1, s1) = register_child p st;
       (_, s2) = try_take h1 (reap_all [(p, ex1)] s1);
       (h2, s3) = register_child p s2;
       s4 = drop_child h1 s3
   in fst (try_take h2 (reap_all [(p, ex2)] s4)) = None"
  by (simp add: register_child_def try_take_def drop_child_def Let_def)

text \<open>
  A child that is reaped before it is registered is never reported: the registration
  that follows starts with an empty slot, and nothing but another exit of the same process
  id fills it.
\<close>

lemma reap_before_register_loses_exit:
  assumes "wf_reaper st" and "registry st p = None"
    and "h = fst (register_child p (reap_all [(p, ex)] st))"
    and "\<forall>x \<in> set xs. other_op h x \<or> x = Take h"
  shows "fst (try_take h (reaper_run xs (snd (register_child p (reap_all [(p, ex)] st))))) = None"
proof -
  have "supervised h None (snd (register_child p (reap_all [(p, ex)] st)))"
    using assms(3) supervised_register[of "reap_all [(p, ex)] st" p]
      wf_reaper_step[OF assms(1), of "Reap [(p, ex)]"] by simp
  then have "supervised h None (reaper_run xs (snd (register_child p (reap_all [(p, ex)] st))))"
    using assms(4) by (rule supervised_polls)
  then show ?thesis by (simp add: supervised_def)
qed

lemma reap_before_register_loses_exit_witness:
  "fst (try_take \<lparr> pid = 41, slot = 0 \<rparr>
     (reaper_run [Take \<lparr> pid = 41, slot = 0 \<rparr>]
       (snd (register_child 41 (reap_all [(41, (0, some_usage))] no_children))))) = None"
  using reap_before_register_loses_exit[of no_children 41 "\<lparr> pid = 41, slot = 0 \<rparr>"
      "(0, some_usage)" "[Take \<lparr> pid = 41, slot = 0 \<rparr>]"]
  by (simp add: no_children_def wf_reaper_def)

end
