(* ===== verification/Supervisor.thy ===== *)
theory Supervisor
  imports Cgroups Reaper Sandbox_Result
begin

text \<open>
  Supervision of one child, \<open>src/sandbox/supervisor.rs\<close>: the poll loop with the
  wall-clock deadline and the kill grace, the classification of an exit, and the reading of
  the child's output.

  What an iteration of the loop sees is an argument: the answer of the reaper's slot and the
  two clock readings (milliseconds since the start). The loop has a fuel argument;
  \<open>supervise_terminates\<close> bounds the fuel it needs. Reads of a pipe are an argument of
  \<open>read_pipe_output\<close>: the successive answers of \<open>read(2)\<close>.
\<close>

section \<open>Wait statuses\<close>

text \<open>The encoding of \<open>wait(2)\<close> on Linux, as the macros of libc read it.\<close>

definition WTERMSIG :: "c_int \<Rightarrow> c_int" where
  "WTERMSIG s = s AND 0x7F"

definition WIFEXITED :: "c_int \<Rightarrow> bool" where
  "WIFEXITED s \<longleftrightarrow> s AND 0x7F = 0"

definition WEXITSTATUS :: "c_int \<Rightarrow> c_int" where
  "WEXITSTATUS s = drop_bit 8 s AND 0xFF"

definition WIFSIGNALED :: "c_int \<Rightarrow> bool" where
  "WIFSIGNALED s \<longleftrightarrow> 2 \<le> sint (ucast ((s AND 0x7F) + 1) :: 8 word)"

definition zero_rusage :: rusage where
  "zero_rusage = \<lparr> ru_utime_sec = 0, ru_utime_usec = 0, ru_stime_sec = 0, ru_stime_usec = 0,
     ru_maxrss = 0 \<rparr>"

section \<open>The supervisor\<close>

record ProcessSupervisor =
  sup_pid :: int
  sup_config :: SandboxConfig
  sup_cgroup :: "CgroupManager option"

definition kill_process_tree :: "ProcessSupervisor \<Rightarrow> unit os_m" where
  "kill_process_tree s =
     thenm (case sup_cgroup s of Some cg \<Rightarrow> kill_all cg | None \<Rightarrow> retm ())
     (thenm (execm (Kill (- sup_pid s) SIGKILL)) (execm (Kill (sup_pid s) SIGKILL)))"

definition rusage_cpu_ms :: "rusage \<Rightarrow> u64" where
  "rusage_cpu_ms ru =
     (let user_us = ru_utime_sec ru * 1000000 + ru_utime_usec ru;
          sys_us = ru_stime_sec ru * 1000000 + ru_stime_usec ru
      in word_of_int (trunc_div (user_us + sys_us) 1000))"

definition peak_memory_kb :: "CgroupStats option \<Rightarrow> rusage \<Rightarrow> u64" where
  "peak_memory_kb stats ru =
     (case stats of
        Some s \<Rightarrow> max (memory_peak_bytes s div 1024) (word_of_int (ru_maxrss ru))
      | None \<Rightarrow> word_of_int (ru_maxrss ru))"

text \<open>The decision of \<open>build_result\<close>, from the values it has read.\<close>

definition classify_exit ::
  "SandboxConfig \<Rightarrow> bool \<Rightarrow> c_int \<Rightarrow> u64 \<Rightarrow> u64 \<Rightarrow> u64 \<Rightarrow> SandboxStatus" where
  "classify_exit config oom_killed st wall_ms cpu_ms mem_kb =
     (let exit_code = uint (WEXITSTATUS st);
          memory_limit_kb = memory_limit_bytes config div 1024
      in if oom_killed then MemoryLimitExceeded
         else if WIFEXITED st then
           (if exit_code = 0 then
              (if memory_limit_kb > 0 \<and> mem_kb > memory_limit_kb then MemoryLimitExceeded else Ok)
            else RuntimeError exit_code)
         else if WIFSIGNALED st then
           (let sig = uint (WTERMSIG st) in
            if sig = SIGKILL then
              (if wall_ms \<ge> wall_time_limit_ms config
                  \<or> cpu_ms \<ge> saturating_sub (time_limit_ms config) 50
               then TimeLimitExceeded
               else if memory_limit_kb > 0 \<and> mem_kb > memory_limit_kb then MemoryLimitExceeded
               else TimeLimitExceeded)
            else Signaled sig)
         else RuntimeError (- 1))"

text \<open>The result from the statistics and the exit; \<open>build_result\<close> reads the statistics.\<close>

definition result_of ::
  "SandboxConfig \<Rightarrow> CgroupStats option \<Rightarrow> nat \<Rightarrow> c_int \<Rightarrow> rusage \<Rightarrow> ExecutionResult" where
  "result_of config stats elapsed st ru =
     (let wall_ms = of_nat elapsed;
          cpu_ms = rusage_cpu_ms ru;
          mem_kb = peak_memory_kb stats ru;
          oom_killed = (case stats of Some x \<Rightarrow> oom_kill_count x > 0 | None \<Rightarrow> False);
          sandbox_status = classify_exit config oom_killed st wall_ms cpu_ms mem_kb
      in with_memory mem_kb (with_wall_time wall_ms (with_cpu_time cpu_ms
           (new_result sandbox_status (uint (WEXITSTATUS st))))))"

definition build_result ::
  "ProcessSupervisor \<Rightarrow> nat \<Rightarrow> c_int \<Rightarrow> rusage \<Rightarrow> ExecutionResult os_m" where
  "build_result s elapsed st ru =
     bindm (case sup_cgroup s of
              Some cg \<Rightarrow> bindm (read_stats cg) (\<lambda>r. retm (case r of Inr x \<Rightarrow> Some x | Inl e \<Rightarrow> None))
            | None \<Rightarrow> retm None) (\<lambda>stats.
     retm (result_of (sup_config s) stats elapsed st ru))"

text \<open>
  What the iteration at index \<open>i\<close> of the loop observes: the poll of the reaper's slot,
  \<open>Instant::now()\<close>, \<open>start_time.elapsed()\<close> right after, and the reading that
  \<open>build_result\<close> makes if the iteration ends the loop.
\<close>

record poll =
  polled :: "ChildExit option"
  now_ms :: nat
  elapsed_ms :: nat
  built_ms :: nat

fun supervise_loop ::
  "nat \<Rightarrow> ProcessSupervisor \<Rightarrow> (nat \<Rightarrow> poll) \<Rightarrow> nat \<Rightarrow> nat option \<Rightarrow> ExecutionResult option os_m"
where
  "supervise_loop 0 s obs i kill_grace = retm None"
| "supervise_loop (Suc fuel) s obs i kill_grace =
     (case polled (obs i) of
        Some (st, ru) \<Rightarrow>
          thenm (if kill_grace = None then kill_process_tree s else retm ())
            (bindm (build_result s (built_ms (obs i)) st ru) (\<lambda>r. retm (Some r)))
      | None \<Rightarrow>
          bindm (if kill_grace = None
                    \<and> (of_nat (elapsed_ms (obs i)) :: u64) \<ge> wall_time_limit_ms (sup_config s)
                 then thenm (kill_process_tree s) (retm (Some (now_ms (obs i) + 1000)))
                 else retm kill_grace) (\<lambda>kill_grace.
          case kill_grace of
            Some deadline \<Rightarrow>
              if now_ms (obs i) \<ge> deadline
              then bindm (build_result s (built_ms (obs i)) 9 zero_rusage) (\<lambda>r. retm (Some r))
              else supervise_loop fuel s obs (Suc i) kill_grace
          | None \<Rightarrow> supervise_loop fuel s obs (Suc i) kill_grace))"

definition supervise ::
  "nat \<Rightarrow> ProcessSupervisor \<Rightarrow> (nat \<Rightarrow> poll) \<Rightarrow> ExecutionResult option os_m" where
  "supervise fuel s obs =
     bindm (supervise_loop fuel s obs 0 None) (\<lambda>r.
     thenm (case r of
              Some _ \<Rightarrow> (case sup_cgroup s of Some cg \<Rightarrow> cgroup_drop cg | None \<Rightarrow> retm ())
            | None \<Rightarrow> retm ())
     (retm r))"

section \<open>Reading a pipe\<close>

datatype read_answer = Interrupted | Read_error | Bytes bytes

text \<open>\<open>None\<close>: the answers so far leave the read blocked.\<close>

fun read_loop :: "nat \<Rightarrow> bytes \<Rightarrow> read_answer list \<Rightarrow> bytes option" where
  "read_loop max_bytes buffer [] = None"
| "read_loop max_bytes buffer (Interrupted # as) = read_loop max_bytes buffer as"
| "read_loop max_bytes buffer (Read_error # as) = Some buffer"
| "read_loop max_bytes buffer (Bytes chunk # as) =
     (if chunk = [] then Some buffer
      else if length buffer + length chunk > max_bytes
      then Some (buffer @ take (max_bytes - length buffer) chunk)
      else read_loop max_bytes (buffer @ chunk) as)"

definition read_pipe_output :: "nat \<Rightarrow> read_answer list \<Rightarrow> bytes option" where
  "read_pipe_output max_bytes as = read_loop max_bytes [] as"


section \<open>Facts about the classification\<close>

lemma WEXITSTATUS_bound: "uint (WEXITSTATUS s) < 256"
proof -
  have "WEXITSTATUS s \<le> 0xFF" unfolding WEXITSTATUS_def by (rule word_and_le1)
  then show ?thesis by (simp add: word_le_def)
qed

lemma classify_Ok_iff:
  "classify_exit config oom st wall cpu mem = Ok \<longleftrightarrow>
     \<not> oom \<and> WIFEXITED st \<and> uint (WEXITSTATUS st) = 0 \<and>
     (memory_limit_bytes config div 1024 = 0 \<or> mem \<le> memory_limit_bytes config div 1024)"
proof -
  have "memory_limit_bytes config div 1024 > 0 \<and> mem > memory_limit_bytes config div 1024 \<longleftrightarrow>
      \<not> (memory_limit_bytes config div 1024 = 0 \<or> mem \<le> memory_limit_bytes config div 1024)"
    by (simp add: not_le word_gt_0)
  then show ?thesis unfolding classify_exit_def Let_def by simp
qed

lemma signaled_9: "WTERMSIG st = 9 \<Longrightarrow> WIFSIGNALED st \<and> \<not> WIFEXITED st"
  by (simp add: WTERMSIG_def WIFSIGNALED_def WIFEXITED_def)

section \<open>Facts about the loop\<close>

text \<open>The history holds the two signals of \<open>kill_process_tree\<close>.\<close>

definition tree_killed :: "ProcessSupervisor \<Rightarrow> trace \<Rightarrow> bool" where
  "tree_killed s tr \<longleftrightarrow>
     (\<exists>r r'. (Kill (- sup_pid s) SIGKILL, r) \<in> set tr \<and> (Kill (sup_pid s) SIGKILL, r') \<in> set tr)"

lemma tree_killed_append [simp]: "tree_killed s a \<or> tree_killed s b \<Longrightarrow> tree_killed s (a @ b)"
  by (auto simp: tree_killed_def)

lemma emits_kill_process_tree: "emits (kill_process_tree s) (\<lambda>_ e. tree_killed s e)"
proof -
  have "emits (case sup_cgroup s of Some cg \<Rightarrow> kill_all cg | None \<Rightarrow> retm ()) (\<lambda>_ _. True)"
    by (auto intro: emits_kill_all split: option.splits)
  then show ?thesis
    unfolding kill_process_tree_def
    by (rule emits_thenm_with) (auto intro!: emits_thenm emits_execm simp: tree_killed_def)
qed

lemma emits_read_stats: "emits (read_stats mgr) (\<lambda>_ _. True)"
  unfolding read_stats_def read_cgroup_value_def read_cpu_stat_def read_oom_kill_def Let_def
  by (auto intro!: emits_bindm' emits_retm emits_conseq[OF emits_read])

lemma emits_build_result:
  "emits (build_result s el st ru) (\<lambda>r _. \<exists>stats. r = result_of (sup_config s) stats el st ru)"
proof -
  have "emits (case sup_cgroup s of
      Some cg \<Rightarrow> bindm (read_stats cg) (\<lambda>r. retm (case r of Inr x \<Rightarrow> Some x | Inl e \<Rightarrow> None))
    | None \<Rightarrow> retm None) (\<lambda>_ _. True)"
    by (auto intro!: emits_bindm_with[OF emits_read_stats] emits_retm split: option.splits)
  then show ?thesis
    unfolding build_result_def by (rule emits_bindm_with) (auto intro!: emits_retm)
qed

lemma emits_build_Some:
  "emits (bindm (build_result s el st ru) (\<lambda>r. retm (Some r)))
     (\<lambda>r _. \<exists>stats. r = Some (result_of (sup_config s) stats el st ru))"
  by (rule emits_bindm_with[OF emits_build_result]) (auto intro!: emits_retm)

text \<open>
  One iteration without a delivered exit: the deadline is set, with the tree killed, as soon
  as the elapsed time reaches the limit.
\<close>

definition next_grace :: "ProcessSupervisor \<Rightarrow> poll \<Rightarrow> nat option \<Rightarrow> nat option" where
  "next_grace s ob kg =
     (if kg = None \<and> (of_nat (elapsed_ms ob) :: u64) \<ge> wall_time_limit_ms (sup_config s)
      then Some (now_ms ob + 1000) else kg)"

lemma emits_grace:
  "emits (if kg = None \<and> (of_nat (elapsed_ms ob) :: u64) \<ge> wall_time_limit_ms (sup_config s)
          then thenm (kill_process_tree s) (retm (Some (now_ms ob + 1000))) else retm kg)
     (\<lambda>kg' e. kg' = next_grace s ob kg \<and> (kg = None \<longrightarrow> kg' \<noteq> None \<longrightarrow> tree_killed s e))"
  by (auto simp: next_grace_def intro!: emits_retm emits_thenm_with[OF emits_kill_process_tree])

text \<open>The result comes from a delivered exit or stands for a kill that was never delivered.\<close>

definition loop_result ::
  "ProcessSupervisor \<Rightarrow> (nat \<Rightarrow> poll) \<Rightarrow> nat option \<Rightarrow> ExecutionResult option \<Rightarrow> trace \<Rightarrow> bool" where
  "loop_result s obs kg r e \<longleftrightarrow> (\<forall>x. r = Some x \<longrightarrow>
     (kg = None \<longrightarrow> tree_killed s e) \<and>
     (\<exists>j stats st ru. x = result_of (sup_config s) stats (built_ms (obs j)) st ru \<and>
        (polled (obs j) = Some (st, ru) \<or> polled (obs j) = None \<and> st = 9 \<and> ru = zero_rusage)))"

lemma loop_result_step:
  assumes "loop_result s obs kg' r e'" "kg = None \<longrightarrow> kg' \<noteq> None \<longrightarrow> tree_killed s e"
    "kg \<noteq> None \<longrightarrow> kg' = kg"
  shows "loop_result s obs kg r (e @ e')"
  using assms unfolding loop_result_def by (cases "kg = None"; cases "kg' = None") auto

lemma loop_result_built:
  assumes "kg = None \<longrightarrow> tree_killed s e"
    "polled (obs j) = Some (st, ru) \<or> polled (obs j) = None \<and> st = 9 \<and> ru = zero_rusage"
  shows "loop_result s obs kg (Some (result_of (sup_config s) stats (built_ms (obs j)) st ru)) e"
  using assms unfolding loop_result_def by blast

lemma emits_loop: "emits (supervise_loop fuel s obs i kg) (loop_result s obs kg)"
proof (induction fuel arbitrary: i kg)
  case 0
  then show ?case by (auto intro!: emits_retm simp: loop_result_def)
next
  case (Suc fuel)
  show ?case
  proof (cases "polled (obs i)")
    case None
    have "emits (case kg' of
            Some deadline \<Rightarrow>
              if now_ms (obs i) \<ge> deadline
              then bindm (build_result s (built_ms (obs i)) 9 zero_rusage) (\<lambda>r. retm (Some r))
              else supervise_loop fuel s obs (Suc i) kg'
          | None \<Rightarrow> supervise_loop fuel s obs (Suc i) kg') (loop_result s obs kg')" for kg'
      using Suc.IH[of "Suc i" kg'] None
      by (cases kg') (auto intro!: emits_conseq[OF emits_build_Some] loop_result_built)
    note tail = emits_conseq[OF this]
    show ?thesis
      unfolding supervise_loop.simps None option.case
      by (rule emits_bindm_with[OF emits_grace], rule tail, erule loop_result_step)
        (auto simp: next_grace_def)
  next
    case (Some ex)
    obtain st ru where ex: "ex = (st, ru)" by (cases ex)
    have "emits (if kg = None then kill_process_tree s else retm ())
        (\<lambda>_ e. kg = None \<longrightarrow> tree_killed s e)"
      by (auto intro: emits_kill_process_tree)
    then show ?thesis
      using Some ex
      by (auto intro!: emits_thenm_with emits_conseq[OF emits_build_Some] loop_result_built)
  qed
qed

text \<open>
  The clocks of an execution: consecutive iterations are at least the 5 ms of the sleep
  apart, and the elapsed time, read after \<open>now\<close>, is not below it.
\<close>

definition clock_ok :: "(nat \<Rightarrow> poll) \<Rightarrow> nat \<Rightarrow> bool" where
  "clock_ok obs n \<longleftrightarrow> (\<forall>i < n. now_ms (obs i) + 5 \<le> now_ms (obs (Suc i)) \<and>
     now_ms (obs i) \<le> elapsed_ms (obs i) \<and> elapsed_ms (obs i) < 2 ^ 64)"

text \<open>An upper bound on the iterations that are left.\<close>

definition rounds_left :: "u64 \<Rightarrow> nat \<Rightarrow> nat option \<Rightarrow> nat" where
  "rounds_left wall now kg =
     (case kg of None \<Rightarrow> (unat wall - now + 4) div 5 + 202 | Some d \<Rightarrow> (d - now + 4) div 5 + 1)"

lemma rounds_step:
  fixes now now' a :: nat
  assumes "now + 5 \<le> now'" "now < a"
  shows "(a - now' + 4) div 5 < (a - now + 4) div 5"
proof (cases "a \<le> now'")
  case True
  then show ?thesis using assms by simp
next
  case False
  then have "a - now' + 4 + 5 \<le> a - now + 4" using assms by simp
  then have "(a - now' + 4 + 5) div 5 \<le> (a - now + 4) div 5" by (rule div_le_mono)
  then show ?thesis by (simp only: div_add_self2)
qed

lemma rounds_left_step:
  assumes "now + 5 \<le> now'" "kg = None \<longrightarrow> now < unat wall" "\<forall>d. kg = Some d \<longrightarrow> now < d"
  shows "rounds_left wall now' kg < rounds_left wall now kg"
  using assms rounds_step[OF assms(1)] by (cases kg) (simp_all add: rounds_left_def)

lemma rounds_left_kill:
  "now + 5 \<le> now' \<Longrightarrow> rounds_left wall now' (Some (now + 1000)) < rounds_left wall now None"
  by (simp add: rounds_left_def)

lemma rounds_left_pos: "0 < rounds_left wall now kg"
  by (auto simp: rounds_left_def split: option.splits)

lemma rounds_left_next:
  assumes "clock_ok obs n" "i < n"
    and "\<forall>d. next_grace s (obs i) kg = Some d \<longrightarrow> now_ms (obs i) < d"
  shows "rounds_left (wall_time_limit_ms (sup_config s)) (now_ms (obs (Suc i)))
      (next_grace s (obs i) kg)
    < rounds_left (wall_time_limit_ms (sup_config s)) (now_ms (obs i)) kg"
proof (cases "next_grace s (obs i) kg = kg")
  case True
  have "now_ms (obs i) < unat (wall_time_limit_ms (sup_config s))" if "kg = None"
    using that True assms(1,2)
    by (auto simp: next_grace_def clock_ok_def not_le word_less_nat_alt unat_of_nat
        split: if_splits)
  then show ?thesis
    using True assms by (auto intro!: rounds_left_step simp: clock_ok_def)
next
  case False
  then have "kg = None" "next_grace s (obs i) kg = Some (now_ms (obs i) + 1000)"
    by (auto simp: next_grace_def split: if_splits)
  then show ?thesis using assms(1,2) by (auto intro!: rounds_left_kill simp: clock_ok_def)
qed

lemma emits_loop_returns:
  assumes "clock_ok obs n"
    and "rounds_left (wall_time_limit_ms (sup_config s)) (now_ms (obs i)) kg \<le> fuel" "i + fuel \<le> n"
  shows "emits (supervise_loop fuel s obs i kg) (\<lambda>r _. r \<noteq> None)"
  using assms(2,3)
proof (induction fuel arbitrary: i kg)
  case 0
  then show ?case using rounds_left_pos[of "wall_time_limit_ms (sup_config s)" "now_ms (obs i)" kg]
    by simp
next
  case (Suc fuel)
  show ?case
  proof (cases "polled (obs i)")
    case None
    let ?kg = "next_grace s (obs i) kg"
    have rec: "emits (supervise_loop fuel s obs (Suc i) ?kg) (\<lambda>r _. r \<noteq> None)"
      if "\<forall>d. ?kg = Some d \<longrightarrow> now_ms (obs i) < d"
      using Suc.IH[of "Suc i" ?kg] Suc.prems rounds_left_next[OF assms(1) _ that] by simp
    show ?thesis
      unfolding supervise_loop.simps None option.case
    proof (rule emits_bindm_with[OF emits_grace], elim conjE, goal_cases)
      case (1 kg' e)
      then show ?case
        using rec by (cases ?kg) (auto intro: emits_conseq[OF emits_build_Some])
    qed
  next
    case (Some ex)
    have "emits (if kg = None then kill_process_tree s else retm ()) (\<lambda>_ _. True)"
      by (auto intro: emits_conseq[OF emits_kill_process_tree])
    then show ?thesis
      using Some
      by (auto intro!: emits_thenm_with emits_conseq[OF emits_build_Some] split: prod.splits)
  qed
qed

lemma emits_supervise_tail:
  assumes "\<And>e'. Q r e'"
  shows "emits (thenm (case r of
      Some _ \<Rightarrow> (case sup_cgroup s of Some cg \<Rightarrow> cgroup_drop cg | None \<Rightarrow> retm ())
    | None \<Rightarrow> retm ()) (retm r)) Q"
proof -
  have "emits (case r of
      Some _ \<Rightarrow> (case sup_cgroup s of Some cg \<Rightarrow> cgroup_drop cg | None \<Rightarrow> retm ())
    | None \<Rightarrow> retm ()) (\<lambda>_ _. True)"
    by (auto intro: emits_cgroup_drop split: option.splits)
  then show ?thesis by (rule emits_thenm_with) (auto intro!: emits_retm assms)
qed

lemma loop_result_append: "loop_result s obs kg r e \<Longrightarrow> loop_result s obs kg r (e @ e')"
  by (auto simp: loop_result_def)

lemma emits_supervise: "emits (supervise fuel s obs) (loop_result s obs None)"
  unfolding supervise_def
  by (rule emits_bindm_with[OF emits_loop]) (rule emits_supervise_tail, auto intro: loop_result_append)

section \<open>Facts about the reading\<close>

text \<open>What a sequence of answers delivers before the end of the stream or an error.\<close>

fun delivered :: "read_answer list \<Rightarrow> bytes option" where
  "delivered [] = None"
| "delivered (Interrupted # as) = delivered as"
| "delivered (Read_error # as) = Some []"
| "delivered (Bytes chunk # as) =
     (if chunk = [] then Some [] else map_option ((@) chunk) (delivered as))"

lemma read_loop_delivered:
  assumes "length buffer \<le> max_bytes" "delivered as = Some xs"
  shows "read_loop max_bytes buffer as = Some (take max_bytes (buffer @ xs))"
  using assms
  by (induction max_bytes buffer as arbitrary: xs rule: read_loop.induct) auto

lemma read_loop_bound:
  "length buffer \<le> max_bytes \<Longrightarrow> read_loop max_bytes buffer as = Some out \<Longrightarrow>
   length out \<le> max_bytes"
  by (induction max_bytes buffer as rule: read_loop.induct) (auto split: if_splits)

section \<open>Properties\<close>

text \<open>
  C22: supervision always ends, with a verdict and with the process tree killed. When the
  iterations of the poll loop are at least the 5 ms of its sleep apart, \<open>supervise\<close> returns
  within \<open>(wall_time_limit_ms + 4) / 5 + 202\<close> iterations for every behaviour of the kernel
  and of the reaper, both kill signals have been sent, and the result is built from an exit
  the reaper delivered or, when it delivered none, from a death by \<open>SIGKILL\<close>.
\<close>

theorem supervise_returns:
  assumes "clock_ok obs fuel"
    and "(unat (wall_time_limit_ms (sup_config s)) + 4) div 5 + 202 \<le> fuel"
  shows "\<exists>x e. supervise fuel s obs os tr = (Some x, tr @ e) \<and> tree_killed s e \<and>
    (\<exists>j stats st ru. x = result_of (sup_config s) stats (built_ms (obs j)) st ru \<and>
       (polled (obs j) = Some (st, ru) \<or> polled (obs j) = None \<and> st = 9 \<and> ru = zero_rusage))"
proof -
  have "rounds_left (wall_time_limit_ms (sup_config s)) (now_ms (obs 0)) None \<le> fuel"
    using assms(2) unfolding rounds_left_def option.case
    by (meson add_le_mono div_le_mono diff_le_self le_refl le_trans)
  then have "emits (supervise_loop fuel s obs 0 None) (\<lambda>r e. loop_result s obs None r e \<and> r \<noteq> None)"
    by (intro emits_conj emits_loop emits_loop_returns[OF assms(1)]) simp_all
  then have "emits (supervise fuel s obs) (\<lambda>r e. loop_result s obs None r e \<and> r \<noteq> None)"
    unfolding supervise_def by (rule emits_bindm_with) (rule emits_supervise_tail, auto intro: loop_result_append)
  then obtain x e where "supervise fuel s obs os tr = (Some x, tr @ e)"
      "loop_result s obs None (Some x) e"
    unfolding emits_def by blast
  then show ?thesis by (auto simp: loop_result_def)
qed

theorem supervise_returns_witness:
  "\<exists>x e. supervise 803 \<lparr>sup_pid = 42, sup_config = new_config ''/bin/cat'', sup_cgroup = None\<rparr>
     (\<lambda>i. \<lparr>polled = None, now_ms = 5 * i, elapsed_ms = 5 * i, built_ms = 5 * i\<rparr>)
     (\<lambda>_ _. Ret 0) [] = (Some x, e) \<and>
   (\<exists>r. (Kill 42 9, r) \<in> set e)"
proof -
  let ?s = "\<lparr>sup_pid = 42, sup_config = new_config ''/bin/cat'', sup_cgroup = None\<rparr>"
  let ?obs = "\<lambda>i. \<lparr>polled = None, now_ms = 5 * i, elapsed_ms = 5 * i, built_ms = 5 * i\<rparr>"
  have "clock_ok ?obs 803" "(unat (wall_time_limit_ms (sup_config ?s)) + 4) div 5 + 202 \<le> 803"
    by (simp_all add: clock_ok_def new_config_def)
  from supervise_returns[OF this, of "\<lambda>_ _. Ret 0" "[]"] show ?thesis
    unfolding tree_killed_def SIGKILL_def ProcessSupervisor.simps append_Nil by blast
qed

text \<open>
  A run is reported \<open>Ok\<close> exactly when the child exited with code 0, the kernel counted
  no out-of-memory kill, and the peak memory is within the limit, which is compared in whole
  KiB and not at all below 1 KiB.
\<close>

lemma ok_iff_clean_exit:
  "ExecutionResult.status (result_of config stats el st ru) = Ok \<longleftrightarrow>
     (\<forall>x. stats = Some x \<longrightarrow> oom_kill_count x = 0) \<and> WIFEXITED st \<and> uint (WEXITSTATUS st) = 0 \<and>
     (memory_limit_bytes config div 1024 = 0 \<or>
      peak_memory_kb stats ru \<le> memory_limit_bytes config div 1024)"
  by (cases stats)
    (simp_all add: result_of_def Let_def builder_simps new_result_def classify_Ok_iff word_gt_0)

lemma ok_iff_clean_exit_witness:
  "ExecutionResult.status (result_of (new_config ''/bin/cat'')
     (Some \<lparr>memory_current_bytes = 0, memory_peak_bytes = 4096, cpu_usage_usec = 0,
            oom_kill_count = 1\<rparr>) 10 0 zero_rusage) \<noteq> Ok"
  by (simp add: ok_iff_clean_exit)

text \<open>
  A child that died by \<open>SIGKILL\<close> is reported as over its time or its memory limit, never
  as a success or a runtime error: this is the status of every run the supervisor kills.
\<close>

lemma killed_is_limit:
  assumes "WTERMSIG st = 9"
  shows "ExecutionResult.status (result_of config stats el st ru)
    \<in> {TimeLimitExceeded, MemoryLimitExceeded}"
  using signaled_9[OF assms] assms
  by (simp add: result_of_def Let_def builder_simps new_result_def classify_exit_def SIGKILL_def)

lemma killed_is_limit_witness:
  "ExecutionResult.status (result_of (new_config ''/bin/cat'') None 3000 9 zero_rusage)
    \<in> {TimeLimitExceeded, MemoryLimitExceeded}"
  by (rule killed_is_limit) (simp add: WTERMSIG_def)

text \<open>
  The output read from a pipe is exactly what the child wrote, cut at the limit, however
  the writes are split into reads and however often a read is interrupted by a signal.
\<close>

lemma read_pipe_exact:
  assumes "delivered as = Some xs"
  shows "read_pipe_output max_bytes as = Some (take max_bytes xs)"
  unfolding read_pipe_output_def using read_loop_delivered[OF _ assms, of "[]"] by simp

lemma read_pipe_exact_witness:
  "read_pipe_output 3 [Interrupted, Bytes ''hi'', Interrupted, Bytes ''! '', Bytes []]
     = Some ''hi!''"
  using read_pipe_exact[of "[Interrupted, Bytes ''hi'', Interrupted, Bytes ''! '', Bytes []]"
      "''hi! ''" 3]
  by (simp add: numeral_3_eq_3)

end
