(* ===== verification/Sandbox.thy ===== *)
theory Sandbox
  imports Child Supervisor Admission
begin

text \<open>
  \<open>Sandbox::execute\<close>, \<open>src/sandbox/mod.rs\<close>: admission, pipes, cgroup, \<open>fork\<close> with retries, and then
  either the child's setup or, in the parent, attachment to the cgroup, feeding of the
  input, supervision and collection of the output.

  Both sides of \<open>fork\<close> are one definition: an answer 0 of \<open>fork\<close> means the history is the
  child's. The permits of the memory budget are the calls \<open>Acquire_permits\<close> and
  \<open>Release_permits\<close>. A blocking task that is spawned is a call of its own. The futures of
  \<open>read_pipe_output\<close> are lazy, as all futures of Rust are: their blocking tasks start when
  they are first awaited, after the supervision.
\<close>

section \<open>Data\<close>

datatype SandboxError =
    ForkError string
  | Child_error ChildError
  | Supervisor_error
  | Cgroup_error CgroupError
  | IoError string

text \<open>
  What the parent observes of one execution: whether the blocking task of the cgroup setup
  panicked, the polls of the supervision, and for each output pipe whether it was drained
  before the timeout and the answers of its reads.
\<close>

record observed =
  setup_panicked :: bool
  polls :: "nat \<Rightarrow> poll"
  out_in_time :: bool
  out_reads :: "read_answer list"
  err_in_time :: bool
  err_reads :: "read_answer list"

datatype sandbox_end =
    Finished_with "SandboxError + ExecutionResult"
  | Still_running
  | In_child child_end

section \<open>Feeding the input\<close>

text \<open>
  \<open>write_all_to_fd\<close> on the answers of \<open>write(2)\<close>: the bytes that were written. An answer of
  at most 0, also one for an interrupted call, ends the loop.
\<close>

fun write_all_to_fd :: "bytes \<Rightarrow> int list \<Rightarrow> bytes option" where
  "write_all_to_fd data answers =
     (if data = [] then Some []
      else case answers of
        [] \<Rightarrow> None
      | ret # rest \<Rightarrow>
          if ret \<le> 0 then Some []
          else map_option ((@) (take (nat ret) data)) (write_all_to_fd (drop (nat ret) data) rest))"

declare write_all_to_fd.simps [simp del]

section \<open>Forking\<close>

definition EAGAIN :: int where
  "EAGAIN = 11"

fun is_eagain :: "os_ret \<Rightarrow> bool" where
  "is_eagain (Err e n) = (n = EAGAIN)"
| "is_eagain _ = False"

text \<open>The retry loop; \<open>left\<close> is \<open>10 - retries\<close>.\<close>

fun fork_loop :: "nat \<Rightarrow> os_ret \<Rightarrow> os_ret os_m" where
  "fork_loop left r =
     (if is_eagain r \<and> left > 0
      then thenm (execm (Sleep_ms (20 * (11 - left)))) (bindm (callm Fork) (fork_loop (left - 1)))
      else retm r)"

declare fork_loop.simps [simp del]

definition fork_retry :: "os_ret os_m" where
  "fork_retry = bindm (callm Fork) (fork_loop 10)"

section \<open>The parent\<close>

definition drained :: "usize \<Rightarrow> bool \<Rightarrow> read_answer list \<Rightarrow> bytes" where
  "drained max_bytes in_time reads =
     (if in_time then (case read_pipe_output (unat max_bytes) reads of Some b \<Rightarrow> b | None \<Rightarrow> []) else [])"

definition collect_output :: "SandboxConfig \<Rightarrow> bytes \<Rightarrow> bytes \<Rightarrow> ExecutionResult \<Rightarrow> ExecutionResult" where
  "collect_output config out err res =
     (let res = res\<lparr>stdout := out, stderr := err\<rparr> in
      if length (stdout res) \<ge> unat (max_output_bytes config)
      then res\<lparr>status := OutputLimitExceeded\<rparr> else res)"

definition jail_root :: "SandboxConfig \<Rightarrow> path" where
  "jail_root config = ''/tmp/judge_root_'' @ jail_id config"

definition parent_side ::
  "nat \<Rightarrow> observed \<Rightarrow> SandboxConfig \<Rightarrow> ChildProcessPipes \<Rightarrow> CgroupManager \<Rightarrow> int \<Rightarrow> sandbox_end os_m" where
  "parent_side fuel w config pipes cg child =
     thenm (close_parent_ends pipes)
     (bindm (attach_proc cg child) (\<lambda>r.
       case r of
         Inl e \<Rightarrow>
           thenm (execm (Kill child SIGKILL))
           (thenm (cgroup_drop cg) (retm (Finished_with (Inl (Cgroup_error e)))))
       | Inr _ \<Rightarrow>
           thenm (execm (Spawn_writer (stdin_write pipes) (stdin_data config)))
           (bindm (supervise fuel \<lparr>sup_pid = child, sup_config = config, sup_cgroup = Some cg\<rparr> (polls w)) (\<lambda>res.
             case res of
               None \<Rightarrow> retm Still_running
             | Some res \<Rightarrow>
                 thenm (if enable_fs_isolation config \<and> jail_id config \<noteq> []
                        then execm (Remove_dir (jail_root config)) else retm ())
                 (thenm (execm (Spawn_reader (stdout_read pipes)))
                 (thenm (execm (Spawn_reader (stderr_read pipes)))
                 (let out = drained (max_output_bytes config) (out_in_time w) (out_reads w);
                      err = drained (max_output_bytes config) (err_in_time w) (err_reads w)
                  in retm (Finished_with (Inr (collect_output config out err res))))))))))"

definition child_side ::
  "seccompiler \<Rightarrow> string \<Rightarrow> SandboxConfig \<Rightarrow> ChildProcessPipes \<Rightarrow> sandbox_end os_m" where
  "child_side sc uuid config pipes =
     bindm (setup_child_process sc uuid config pipes) (\<lambda>fin.
       case fin of
         Returned e \<Rightarrow> thenm (execm (Exit 1)) (retm (In_child (Exited 1)))
       | _ \<Rightarrow> retm (In_child fin))"

definition with_fresh_jail :: "string \<Rightarrow> SandboxConfig \<Rightarrow> SandboxConfig" where
  "with_fresh_jail uuid config =
     (if enable_fs_isolation config \<and> jail_id config = [] then config\<lparr>jail_id := uuid\<rparr> else config)"

text \<open>Past the admission. \<open>jail\<close>, \<open>cgid\<close> and \<open>cid\<close> are the fresh ids of the jail, the cgroup and the child.\<close>

definition admitted_run ::
  "nat \<Rightarrow> seccompiler \<Rightarrow> string \<Rightarrow> string \<Rightarrow> string \<Rightarrow> observed \<Rightarrow> SandboxConfig \<Rightarrow> sandbox_end os_m" where
  "admitted_run fuel sc jail cgid cid w config =
     (let config = with_fresh_jail jail config in
      bindm pipes_new (\<lambda>r.
        case r of
          Inl e \<Rightarrow> retm (Finished_with (Inl (Child_error e)))
        | Inr pipes \<Rightarrow>
            if setup_panicked w
            then retm (Finished_with (Inl (IoError ''cgroup setup task panicked'')))
            else bindm (cgroup_new cgid config) (\<lambda>r.
              case r of
                Inl e \<Rightarrow> retm (Finished_with (Inl (Cgroup_error e)))
              | Inr cg \<Rightarrow>
                  bindm fork_retry (\<lambda>r.
                    if \<not> ret_ok r
                    then thenm (cgroup_drop cg) (retm (Finished_with (Inl (ForkError (ret_msg r)))))
                    else if ret_int r = 0 then child_side sc cid config pipes
                    else parent_side fuel w config pipes cg (ret_int r)))))"

definition sandbox_execute ::
  "nat \<Rightarrow> env \<Rightarrow> seccompiler \<Rightarrow> string \<Rightarrow> string \<Rightarrow> string \<Rightarrow> observed \<Rightarrow> SandboxConfig \<Rightarrow> sandbox_end os_m" where
  "sandbox_execute fuel env sc jail cgid cid w config =
     (let units = unat (units_for env (memory_limit_bytes config)) in
      thenm (execm (Acquire_permits units))
      (bindm (admitted_run fuel sc jail cgid cid w config) (\<lambda>fin.
        case fin of
          Finished_with r \<Rightarrow> thenm (execm (Release_permits units)) (retm fin)
        | _ \<Rightarrow> retm fin)))"

section \<open>Facts about the calls\<close>

lemma only_write [intro!]: "only plain (write_cgroup_file p v)"
  unfolding write_cgroup_file_def by (auto intro!: only_intros)

lemma only_read [intro!]: "only plain (read_to_string p)"
  unfolding read_to_string_def by (auto intro!: only_intros)

lemma only_cgroup [intro!]:
  "only plain (cgroup_create cg config)" "only plain (attach_proc cg child)"
  "only plain (kill_all cg)" "only plain (read_stats cg)"
  unfolding cgroup_create_def attach_proc_def kill_all_def kill_line_def read_stats_def
    read_cgroup_value_def read_cpu_stat_def read_oom_kill_def Let_def
  by (auto intro!: only_intros only_write only_read)

lemma only_cgroup_drop [intro!]: "only plain (cgroup_drop cg)"
  unfolding cgroup_drop_def cgroup_cleanup_def
  by (auto intro!: only_intros only_cgroup split: os_ret.split)

lemma only_cgroup_new [intro!]: "only plain (cgroup_new uuid config)"
  unfolding cgroup_new_def Let_def by (auto intro!: only_intros only_cgroup only_cgroup_drop)

lemma only_kill_tree [intro!]: "only plain (kill_process_tree s)"
  unfolding kill_process_tree_def by (auto intro!: only_intros only_cgroup)

lemma only_build [intro!]: "only plain (build_result s el st ru)"
  unfolding build_result_def by (auto intro!: only_intros only_cgroup)

lemma only_loop [intro!]: "only plain (supervise_loop fuel s obs i kg)"
  by (induction fuel arbitrary: i kg)
    (auto intro!: only_intros only_kill_tree only_build split: option.split prod.split)

lemma only_supervise [intro!]: "only plain (supervise fuel s obs)"
  unfolding supervise_def by (auto intro!: only_intros only_loop only_cgroup_drop)

lemma only_pipes [intro!]: "only plain pipes_new" "only plain (close_parent_ends pipes)"
  unfolding pipes_new_def cloexec_pipe_def fcntl_set_cloexec_def close_parent_ends_def
  by (auto intro!: only_intros split: os_ret.split prod.split)

lemma only_fork_loop: "only plain (fork_loop left r)"
  by (induction left r rule: fork_loop.induct) (subst fork_loop.simps, auto intro!: only_intros)

lemma only_fork [intro!]: "only plain fork_retry"
  unfolding fork_retry_def by (auto intro!: only_intros only_fork_loop)

text \<open>The answer of the last \<open>fork\<close> is the one the execution goes on with.\<close>

lemma emits_fork_loop:
  "emits (fork_loop left r) (\<lambda>x e. (e = [] \<and> x = r) \<or> (\<exists>p. e = p @ [(Fork, x)]))"
proof (induction left r rule: fork_loop.induct)
  case (1 left r)
  show ?case
  proof (cases "is_eagain r \<and> left > 0")
    case True
    have "emits (fork_loop (left - 1) x) (\<lambda>y e. \<exists>p. (Sleep_ms k, u) # (Fork, x) # e = p @ [(Fork, y)])" for x k u
    proof (rule emits_conseq[OF "1.IH"[OF True]], elim disjE conjE exE, goal_cases)
      case (1 y e)
      then show ?case by (intro exI[of _ "[(Sleep_ms k, u)]"]) simp
    next
      case (2 y e p)
      then show ?case by (intro exI[of _ "(Sleep_ms k, u) # (Fork, x) # p"]) simp
    qed
    then have "emits (thenm (execm (Sleep_ms k)) (bindm (callm Fork) (fork_loop (left - 1))))
        (\<lambda>x e. \<exists>p. e = p @ [(Fork, x)])" for k
      by (intro emits_thenm emits_execm emits_call_bindm) simp
    then show ?thesis
      using True by (subst fork_loop.simps) (auto intro: emits_conseq)
  next
    case False
    then show ?thesis by (subst fork_loop.simps) auto
  qed
qed

lemma emits_fork: "emits fork_retry (\<lambda>x e. \<exists>p. e = p @ [(Fork, x)])"
  unfolding fork_retry_def
  by (rule emits_call_bindm, rule emits_conseq[OF emits_fork_loop]) (metis append.left_neutral append_Cons)

section \<open>What comes before a call of either side\<close>

text \<open>
  A guard \<open>G\<close> on the calls of a kind that neither the setup nor the cgroup makes holds for the
  whole execution when it holds for the two sides of \<open>fork\<close>, where the limits of the cgroup
  have been written.
\<close>

lemma unplain: "only plain m \<Longrightarrow> \<forall>c. K c \<longrightarrow> \<not> plain c \<Longrightarrow> only (\<lambda>c. \<not> K c) m"
  by (erule only_mono) blast

lemma emits_forked_guard:
  assumes plain: "\<forall>c. K c \<longrightarrow> \<not> plain c"
    and child: "\<And>r pipes. ret_ok r \<Longrightarrow> ret_int r = 0 \<Longrightarrow>
      emits (child_side sc cid config pipes) (\<lambda>_. guarded K (\<lambda>e. G (a @ (Fork, r) # e)))"
    and parent: "\<And>r pipes cg. ret_ok r \<Longrightarrow> ret_int r \<noteq> 0 \<Longrightarrow>
      emits (parent_side fuel w config pipes cg (ret_int r)) (\<lambda>_. guarded K (\<lambda>e. G (a @ (Fork, r) # e)))"
  shows "emits (if \<not> ret_ok r
      then thenm (cgroup_drop cg) (retm (Finished_with (Inl (ForkError (ret_msg r)))))
      else if ret_int r = 0 then child_side sc cid config pipes
      else parent_side fuel w config pipes cg (ret_int r))
    (\<lambda>_. guarded K (\<lambda>e. G (a @ (Fork, r) # e)))"
proof -
  have "only (\<lambda>c. \<not> K c) (cgroup_drop cg)" by (rule unplain[OF only_cgroup_drop plain])
  then show ?thesis using child parent by (auto intro!: emits_only_guard only_intros)
qed

lemma emits_admitted_guard:
  assumes plain: "\<forall>c. K c \<longrightarrow> \<not> plain c"
    and child: "\<And>a r pipes. cgroup_limited cgid (with_fresh_jail jail config) a \<Longrightarrow> ret_ok r \<Longrightarrow> ret_int r = 0 \<Longrightarrow>
      emits (child_side sc cid (with_fresh_jail jail config) pipes) (\<lambda>_. guarded K (\<lambda>e. G (a @ (Fork, r) # e)))"
    and parent: "\<And>a r pipes cg. ret_ok r \<Longrightarrow> ret_int r \<noteq> 0 \<Longrightarrow>
      emits (parent_side fuel w (with_fresh_jail jail config) pipes cg (ret_int r))
        (\<lambda>_. guarded K (\<lambda>e. G (a @ (Fork, r) # e)))"
  shows "emits (admitted_run fuel sc jail cgid cid w config) (\<lambda>_. guarded K (\<lambda>e. G (a @ e)))"
proof -
  let ?c = "with_fresh_jail jail config"
  note free = unplain[OF only_pipes(1) plain] unplain[OF only_fork plain] unplain[OF only_cgroup_new plain]
  have forked: "emits (bindm fork_retry (\<lambda>r. if \<not> ret_ok r
      then thenm (cgroup_drop cg) (retm (Finished_with (Inl (ForkError (ret_msg r)))))
      else if ret_int r = 0 then child_side sc cid ?c pipes
      else parent_side fuel w ?c pipes cg (ret_int r)))
    (\<lambda>_. guarded K (\<lambda>e. G (b @ e)))" if b: "cgroup_limited cgid ?c b" for cg pipes b
  proof (rule emits_guard_bindm[OF free(2) emits_fork], elim exE, goal_cases)
    case (1 r e p)
    have "cgroup_limited cgid ?c (b @ p)" using b by (rule cgroup_limited_append)
    from emits_forked_guard[OF plain child[OF this] parent] show ?case using 1 by simp
  qed
  have prepared: "emits (bindm (cgroup_new cgid ?c) (\<lambda>r. case r of
        Inl e \<Rightarrow> retm (Finished_with (Inl (Cgroup_error e)))
      | Inr cg \<Rightarrow> bindm fork_retry (\<lambda>r. if \<not> ret_ok r
          then thenm (cgroup_drop cg) (retm (Finished_with (Inl (ForkError (ret_msg r)))))
          else if ret_int r = 0 then child_side sc cid ?c pipes
          else parent_side fuel w ?c pipes cg (ret_int r))))
      (\<lambda>_. guarded K (\<lambda>e. G (b @ e)))" for pipes b
  proof (rule emits_guard_bindm[OF free(3) emits_new], goal_cases)
    case (1 r e)
    show ?case
    proof (cases r)
      case (Inl err)
      then show ?thesis by (auto intro!: emits_only_guard only_retm)
    next
      case (Inr cg)
      then have "cgroup_limited cgid ?c (b @ e)" using 1 by (blast intro: cgroup_limited_append)
      from forked[OF this, of cg pipes] show ?thesis using Inr by simp
    qed
  qed
  show ?thesis
    unfolding admitted_run_def Let_def
    by (rule emits_guard_bindm[OF free(1) emits_only[OF only_pipes(1)]])
      (use prepared[where b = "a @ _"] in \<open>auto split: sum.split intro!: emits_only_guard only_retm\<close>)
qed

lemma emits_sandbox_guard:
  assumes plain: "\<forall>c. K c \<longrightarrow> \<not> plain c \<and> \<not> is_permit c"
    and child: "\<And>a r pipes. cgroup_limited cgid (with_fresh_jail jail config) a \<Longrightarrow> ret_ok r \<Longrightarrow> ret_int r = 0 \<Longrightarrow>
      emits (child_side sc cid (with_fresh_jail jail config) pipes) (\<lambda>_. guarded K (\<lambda>e. G (a @ (Fork, r) # e)))"
    and parent: "\<And>a r pipes cg. ret_ok r \<Longrightarrow> ret_int r \<noteq> 0 \<Longrightarrow>
      emits (parent_side fuel w (with_fresh_jail jail config) pipes cg (ret_int r))
        (\<lambda>_. guarded K (\<lambda>e. G (a @ (Fork, r) # e)))"
  shows "emits (sandbox_execute fuel env sc jail cgid cid w config) (\<lambda>_. guarded K G)"
proof -
  have permit: "\<not> K (Acquire_permits n)" "\<not> K (Release_permits n)" for n
    using plain by (metis is_permit.simps(1), metis is_permit.simps(2))
  have "emits (admitted_run fuel sc jail cgid cid w config) (\<lambda>_. guarded K (\<lambda>e. G (a @ e)))" for a
    by (rule emits_admitted_guard) (use plain child parent in blast)+
  then have "emits (bindm (admitted_run fuel sc jail cgid cid w config) (\<lambda>fin.
        case fin of
          Finished_with r \<Rightarrow> thenm (execm (Release_permits n)) (retm fin)
        | _ \<Rightarrow> retm fin))
     (\<lambda>_. guarded K (\<lambda>e. G (a @ e)))" for n a
    by (rule emits_guard_tail) (auto intro!: only_intros simp: permit split: sandbox_end.split)
  note rest = this
  show ?thesis
    unfolding sandbox_execute_def Let_def
    by (rule emits_guard_thenm[where Q = "\<lambda>_ _. True"]) (auto intro!: only_intros emits_execm rest simp: permit)
qed

section \<open>The child is confined\<close>

lemma emits_child_side:
  "emits (child_side sc uuid config pipes) (\<lambda>_. guarded is_exec (confined config))"
  unfolding child_side_def
  by (rule emits_guard_tail[OF emits_child]) (auto intro!: only_intros split: child_end.split)

lemma only_parent: "only (\<lambda>c. \<not> is_exec c) (parent_side fuel w config pipes cg child)"
  unfolding parent_side_def Let_def
  by (auto intro!: only_intros not_exec[OF only_cgroup(2)] not_exec[OF only_cgroup_drop]
      not_exec[OF only_supervise] not_exec[OF only_pipes(2)])

text \<open>In the child, and with the limits of the cgroup written before \<open>fork\<close>.\<close>

definition child_confined :: "string \<Rightarrow> SandboxConfig \<Rightarrow> trace \<Rightarrow> bool" where
  "child_confined cgid config e \<longleftrightarrow> (\<exists>e0 r e1. e = e0 @ (Fork, r) # e1 \<and> ret_int r = 0 \<and>
     cgroup_limited cgid config e0 \<and> confined config e1)"

lemma emits_sandbox:
  "emits (sandbox_execute fuel env sc jail cgid cid w config)
     (\<lambda>_. guarded is_exec (child_confined cgid (with_fresh_jail jail config)))"
proof (rule emits_sandbox_guard, goal_cases)
  case 1
  show ?case by (auto simp: plain_def elim: is_exec.elims is_reader.elims)
next
  case (2 a r pipes)
  then show ?case
    by (intro emits_conseq[OF emits_child_side]) (auto simp: child_confined_def elim!: guarded_weaken)
next
  case (3 a r pipes cg)
  show ?case by (rule emits_only_guard[OF only_parent])
qed

lemma exec_child_confined:
  assumes "sandbox_execute fuel env sc jail cgid cid w config os tr = (fin, tr @ e1 @ (Execve p a v, r) # e2)"
  shows "child_confined cgid (with_fresh_jail jail config) e1"
  using emits_run[OF emits_sandbox assms] by (auto simp: guarded_def)

section \<open>When the output is read\<close>

definition killed :: "int \<Rightarrow> trace \<Rightarrow> bool" where
  "killed child e \<longleftrightarrow>
     (\<exists>r r'. (Kill (- child) SIGKILL, r) \<in> set e \<and> (Kill child SIGKILL, r') \<in> set e)"

lemma emits_readers:
  assumes "G []" "\<And>r. G [(Spawn_reader fd, r)]"
  shows "emits (thenm (execm (Spawn_reader fd)) (thenm (execm (Spawn_reader fd')) (retm x)))
    (\<lambda>_. guarded is_reader G)"
  using assms
  by (auto intro!: emits_thenm emits_execm emits_retm simp: guarded_def Cons_eq_append_conv)

lemma emits_supervise_killed:
  "emits (supervise fuel \<lparr>sup_pid = child, sup_config = config, sup_cgroup = cg\<rparr> obs)
     (\<lambda>r e. r \<noteq> None \<longrightarrow> killed child e)"
  by (rule emits_conseq[OF emits_supervise])
    (auto simp: loop_result_def tree_killed_def killed_def)

lemma emits_parent_readers:
  "emits (parent_side fuel w config pipes cg child) (\<lambda>_. guarded is_reader (killed child))"
  unfolding parent_side_def
proof (rule emits_guard_thenm[OF not_reader[OF only_pipes(2)] emits_only[OF only_pipes(2)]],
    rule emits_guard_bindm[OF not_reader[OF only_cgroup(2)] emits_only[OF only_cgroup(2)]], goal_cases)
  case (1 x e r e')
  show ?case
  proof (cases r)
    case (Inl err)
    then show ?thesis
      by (auto intro!: emits_only_guard only_intros not_reader[OF only_cgroup_drop])
  next
    case (Inr u)
    show ?thesis
      unfolding Inr sum.case
    proof (rule emits_guard_thenm[where Q = "\<lambda>_ _. True"], goal_cases)
      case (3 y e2)
      show ?case
      proof (rule emits_guard_bindm[OF not_reader[OF only_supervise] emits_supervise_killed], goal_cases)
        case (1 res e3)
        show ?case
        proof (cases res)
          case None
          then show ?thesis by (auto intro!: emits_only_guard only_retm)
        next
          case (Some x)
          then have "killed child e3" using 1 by simp
          then have k: "killed child (e @ e' @ e2 @ e3 @ z)" for z
            by (auto simp: killed_def)
          show ?thesis
            unfolding Some option.case Let_def
            by (rule emits_guard_thenm[where Q = "\<lambda>_ _. True"])
              (auto intro!: only_intros emits_execm emits_retm emits_readers k split: if_split)
        qed
      qed
    qed (auto intro!: only_intros emits_execm)
  qed
qed

lemma only_child_side: "only (\<lambda>c. \<not> is_reader c) (child_side sc uuid config pipes)"
proof -
  have "only (\<lambda>c. \<not> is_reader c) (launch sc config)"
    unfolding launch_def finish_with_def exec_program_def
    by (auto intro!: only_intros not_reader[OF only_steps(7)] not_reader[OF only_steps(8)]
        not_reader[OF only_steps(9)])
  then show ?thesis
    unfolding child_side_def setup_child_process_def finish_with_def
    by (auto intro!: only_intros not_reader[OF only_steps(1)] not_reader[OF only_redirect]
        not_reader[OF only_steps(3)] not_reader[OF only_steps(4)] not_reader[OF only_steps(5)]
        not_reader[OF only_steps(6)] not_reader[OF only_steps(10)] split: child_end.split)
qed

text \<open>In the parent, with both signals sent to the child that \<open>fork\<close> returned.\<close>

definition child_killed :: "trace \<Rightarrow> bool" where
  "child_killed e \<longleftrightarrow> (\<exists>e0 r e1. e = e0 @ (Fork, r) # e1 \<and> ret_ok r \<and> ret_int r \<noteq> 0 \<and> killed (ret_int r) e1)"

lemma emits_sandbox_readers:
  "emits (sandbox_execute fuel env sc jail cgid cid w config) (\<lambda>_. guarded is_reader child_killed)"
proof (rule emits_sandbox_guard, goal_cases)
  case 1
  show ?case by (auto simp: plain_def elim: is_exec.elims is_reader.elims)
next
  case (2 a r pipes)
  show ?case by (rule emits_only_guard[OF only_child_side])
next
  case (3 a r pipes cg)
  then show ?case
    by (intro emits_conseq[OF emits_parent_readers]) (auto simp: child_killed_def elim!: guarded_weaken)
qed

section \<open>Facts about the result\<close>

lemma drained_bound: "length (drained n in_time reads) \<le> unat n"
  using read_loop_bound[of "[]" "unat n" reads]
  by (auto simp: drained_def read_pipe_output_def split: option.split)

lemma classify_not_output: "classify_exit config oom st wall cpu mem \<noteq> OutputLimitExceeded"
  by (simp add: classify_exit_def Let_def)

lemma result_of_not_output:
  "ExecutionResult.status (result_of config stats el st ru) \<noteq> OutputLimitExceeded"
  by (simp add: result_of_def Let_def builder_simps new_result_def classify_not_output)

text \<open>What the result of a finished execution is made of.\<close>

definition good_result :: "SandboxConfig \<Rightarrow> observed \<Rightarrow> ExecutionResult \<Rightarrow> bool" where
  "good_result config w res \<longleftrightarrow> (\<exists>j stats st ru.
     (polled (polls w j) = Some (st, ru) \<or> polled (polls w j) = None \<and> st = 9 \<and> ru = zero_rusage) \<and>
     res = collect_output config
       (drained (max_output_bytes config) (out_in_time w) (out_reads w))
       (drained (max_output_bytes config) (err_in_time w) (err_reads w))
       (result_of config stats (built_ms (polls w j)) st ru))"

lemma emits_parent_result:
  "emits (parent_side fuel w config pipes cg child)
     (\<lambda>fin _. \<forall>res. fin = Finished_with (Inr res) \<longrightarrow> good_result config w res)"
  unfolding parent_side_def
proof (rule emits_thenm_with[OF emits_only[OF only_pipes(2)]],
    rule emits_bindm_with[OF emits_only[OF only_cgroup(2)]], goal_cases)
  case (1 x e r e')
  show ?case
  proof (cases r)
    case (Inl err)
    then show ?thesis
      by (auto intro!: emits_thenm emits_execm emits_thenm_with[OF emits_cgroup_drop] emits_retm)
  next
    case (Inr u)
    show ?thesis
      unfolding Inr sum.case
    proof (rule emits_thenm_with[where Q = "\<lambda>_ _. True"], rule emits_execm, rule TrueI,
        rule emits_bindm_with[OF emits_supervise], goal_cases)
      case (1 y e2 res e3)
      show ?case
      proof (cases res)
        case None
        then show ?thesis by (auto intro!: emits_retm)
      next
        case (Some x)
        with 1 have "good_result config w (collect_output config
            (drained (max_output_bytes config) (out_in_time w) (out_reads w))
            (drained (max_output_bytes config) (err_in_time w) (err_reads w)) x)"
          unfolding loop_result_def good_result_def by fastforce
        then show ?thesis
          unfolding Some option.case Let_def
          by (auto intro!: emits_thenm emits_execm emits_retm)
      qed
    qed
  qed
qed

lemma emits_child_side_result:
  "emits (child_side sc uuid config pipes) (\<lambda>fin _. \<exists>c. fin = In_child c)"
  unfolding child_side_def
  by (rule emits_bindm_with[OF emits_child])
    (auto intro!: emits_retm emits_thenm emits_execm split: child_end.split)

lemma emits_admitted_result:
  "emits (admitted_run fuel sc jail cgid cid w config)
     (\<lambda>fin _. \<forall>res. fin = Finished_with (Inr res) \<longrightarrow> good_result (with_fresh_jail jail config) w res)"
proof -
  have forked: "emits (if \<not> ret_ok r
      then thenm (cgroup_drop cg) (retm (Finished_with (Inl (ForkError (ret_msg r)))))
      else if ret_int r = 0 then child_side sc cid c pipes
      else parent_side fuel w c pipes cg (ret_int r))
    (\<lambda>fin _. \<forall>res. fin = Finished_with (Inr res) \<longrightarrow> good_result c w res)" for r cg c pipes
    by (auto intro!: emits_thenm_with[OF emits_cgroup_drop] emits_retm emits_parent_result
        emits_conseq[OF emits_child_side_result])
  show ?thesis
    unfolding admitted_run_def Let_def
    by (rule emits_bindm_with[OF emits_only[OF only_pipes(1)]])
      (auto split: sum.split intro!: emits_retm forked emits_bindm_with[OF emits_only[OF only_fork]]
        emits_bindm_with[OF emits_only[OF only_cgroup_new]])
qed

lemma emits_sandbox_result:
  "emits (sandbox_execute fuel env sc jail cgid cid w config)
     (\<lambda>fin _. \<forall>res. fin = Finished_with (Inr res) \<longrightarrow> good_result (with_fresh_jail jail config) w res)"
  unfolding sandbox_execute_def Let_def
  by (rule emits_thenm_with[where Q = "\<lambda>_ _. True"], rule emits_execm, rule TrueI,
      rule emits_bindm_with[OF emits_admitted_result])
    (auto split: sandbox_end.split intro!: emits_retm emits_thenm emits_execm)

lemma collect_output_bounds:
  assumes "length out \<le> unat (max_output_bytes config)" "length err \<le> unat (max_output_bytes config)"
    and "ExecutionResult.status r \<noteq> OutputLimitExceeded"
  shows "let res = collect_output config out err r in
    length (stdout res) \<le> unat (max_output_bytes config) \<and>
    length (stderr res) \<le> unat (max_output_bytes config) \<and>
    (ExecutionResult.status res = OutputLimitExceeded \<longleftrightarrow>
     length (stdout res) = unat (max_output_bytes config))"
  using assms by (simp add: collect_output_def Let_def)

lemma good_result_output:
  assumes "good_result config w res"
  shows "length (stdout res) \<le> unat (max_output_bytes config) \<and>
    length (stderr res) \<le> unat (max_output_bytes config) \<and>
    (ExecutionResult.status res = OutputLimitExceeded \<longleftrightarrow>
     length (stdout res) = unat (max_output_bytes config))"
  using assms collect_output_bounds[OF drained_bound drained_bound result_of_not_output]
  unfolding good_result_def Let_def by blast

lemma max_output_fresh [simp]: "max_output_bytes (with_fresh_jail jail config) = max_output_bytes config"
  by (simp add: with_fresh_jail_def)

section \<open>Facts about the input\<close>

lemma write_all_progress:
  assumes "\<forall>n \<in> set ns. 0 < n"
  shows "write_all_to_fd data (map int ns @ rest) =
    (if length data \<le> sum_list ns then Some data
     else map_option ((@) (take (sum_list ns) data)) (write_all_to_fd (drop (sum_list ns) data) rest))"
  using assms
proof (induction ns arbitrary: data)
  case Nil
  then show ?case by (cases "write_all_to_fd data rest") (auto simp: write_all_to_fd.simps)
next
  case (Cons n ns)
  show ?case
  proof (cases "data = []")
    case True
    then show ?thesis by (simp add: write_all_to_fd.simps)
  next
    case False
    have "write_all_to_fd data (map int (n # ns) @ rest) =
        map_option ((@) (take n data)) (write_all_to_fd (drop n data) (map int ns @ rest))"
      using False Cons.prems by (subst write_all_to_fd.simps) simp
    then show ?thesis
      using Cons False
      by (auto simp: option.map_comp comp_def take_add append_assoc[symmetric] add.commute
          simp del: append_assoc)
  qed
qed

section \<open>Facts about descriptors\<close>

definition no_close :: "os_call \<Rightarrow> bool" where
  "no_close c \<longleftrightarrow> (\<forall>fd. c \<noteq> Close fd)"

lemma only_no_close:
  "only no_close pipes_new" "only no_close (cgroup_new uuid config)"
proof -
  have w: "only no_close (write_cgroup_file p v)" for p v
    unfolding write_cgroup_file_def by (auto intro!: only_intros simp: no_close_def)
  have d: "only no_close (cgroup_drop cg)" for cg
    unfolding cgroup_drop_def cgroup_cleanup_def kill_all_def kill_line_def read_to_string_def Let_def
    by (auto intro!: only_intros simp: no_close_def split: os_ret.split)
  show "only no_close pipes_new"
    unfolding pipes_new_def cloexec_pipe_def fcntl_set_cloexec_def
    by (auto intro!: only_intros simp: no_close_def split: os_ret.split prod.split)
  show "only no_close (cgroup_new uuid config)"
    unfolding cgroup_new_def cgroup_create_def Let_def
    by (auto intro!: only_intros w d simp: no_close_def)
qed

lemma emits_cloexec_pipe:
  "emits cloexec_pipe (\<lambda>r e. (\<exists>p. r = Inr p) \<longrightarrow> count_list (map fst e) Pipe = 1)"
  unfolding cloexec_pipe_def fcntl_set_cloexec_def
  by (rule emits_call_bindm)
    (auto intro!: emits_retm emits_trym emits_bindm' emits_callm split: os_ret.split)

lemma emits_pipes:
  "emits pipes_new (\<lambda>r e. (\<exists>p. r = Inr p) \<longrightarrow> count_list (map fst e) Pipe = 3)"
  unfolding pipes_new_def
  by (rule emits_trym_with[OF emits_cloexec_pipe], simp, split prod.split, intro allI impI,
      rule emits_trym_with[OF emits_cloexec_pipe], simp, split prod.split, intro allI impI,
      rule emits_trym_with[OF emits_cloexec_pipe], simp, split prod.split, intro allI impI,
      rule emits_retm) simp

text \<open>An execution that never forked ended with an error and closed nothing.\<close>

definition never_forked :: "trace \<Rightarrow> bool" where
  "never_forked e \<longleftrightarrow> (\<forall>r. (Fork, r) \<notin> set e)"

lemma emits_any: "emits m (\<lambda>_ _. True) \<Longrightarrow> (\<And>x e. Q x e) \<Longrightarrow> emits m Q"
  by (erule emits_conseq) auto

lemma emits_forked_any:
  "emits (if \<not> ret_ok r
      then thenm (cgroup_drop cg) (retm (Finished_with (Inl (ForkError (ret_msg r)))))
      else if ret_int r = 0 then child_side sc cid c pipes
      else parent_side fuel w c pipes cg (ret_int r)) (\<lambda>_ _. True)"
  by (auto intro!: emits_thenm_with[OF emits_cgroup_drop] emits_retm
      emits_conseq[OF emits_parent_result] emits_conseq[OF emits_child_side_result])

lemma emits_admitted_leak:
  "emits (admitted_run fuel sc jail cgid cid w config)
     (\<lambda>fin e. never_forked e \<longrightarrow> (\<forall>(c, r) \<in> set e. no_close c) \<and>
        (\<forall>x. fin = Finished_with (Inl (Cgroup_error x)) \<longrightarrow> 3 \<le> count_list (map fst e) Pipe))"
  unfolding admitted_run_def Let_def
proof (rule emits_bindm_with[OF emits_conj[OF only_no_close(1)[unfolded only_def] emits_pipes]], goal_cases)
  case (1 x e)
  show ?case
  proof (cases x)
    case (Inl err)
    then show ?thesis using 1 by (auto intro!: emits_retm)
  next
    case (Inr pipes)
    with 1 have e: "\<forall>(c, r) \<in> set e. no_close c" "count_list (map fst e) Pipe = 3" by auto
    have forked: "emits (bindm fork_retry (\<lambda>r. if \<not> ret_ok r
        then thenm (cgroup_drop cg) (retm (Finished_with (Inl (ForkError (ret_msg r)))))
        else if ret_int r = 0 then child_side sc cid (with_fresh_jail jail config) pipes
        else parent_side fuel w (with_fresh_jail jail config) pipes cg (ret_int r)))
      (\<lambda>_ e. \<not> never_forked e)" for cg
      by (rule emits_bindm_with[OF emits_fork], rule emits_any[OF emits_forked_any])
        (auto simp: never_forked_def)
    show ?thesis
      unfolding Inr sum.case
    proof (split if_split, intro conjI impI, goal_cases)
      case 1
      show ?case using e by (auto intro!: emits_retm)
    next
      case 2
      show ?case
      proof (rule emits_bindm_with[OF only_no_close(2)[unfolded only_def]], goal_cases)
        case (1 y e')
        show ?case
          by (cases y) (use e 1 in \<open>auto intro!: emits_retm emits_conseq[OF forked] simp: never_forked_def\<close>)
      qed
    qed
  qed
qed

section \<open>A sample execution\<close>

text \<open>A kernel that grants everything, with given answers of \<open>fork\<close>.\<close>

definition sample_os :: "int \<Rightarrow> os" where
  "sample_os forked = (\<lambda>_ c.
     if c = Pipe then Fds 3 4 else if c = Fork then Ret forked
     else if c \<in> {Getuid, Geteuid, Setuid 0} then Ret 65534 else Ret 0)"

definition sample_observed :: observed where
  "sample_observed = \<lparr> setup_panicked = False,
     polls = (\<lambda>i. \<lparr>polled = Some (0, zero_rusage), now_ms = 5 * i, elapsed_ms = 5 * i, built_ms = 5 * i\<rparr>),
     out_in_time = True, out_reads = [Bytes ''ok'', Bytes []], err_in_time = True,
     err_reads = [Bytes []] \<rparr>"

definition sample_config :: SandboxConfig where
  "sample_config = with_max_output 2 (with_fs_isolation False (new_config ''/bin/cat''))"

definition sample_seccompiler :: seccompiler where
  "sample_seccompiler = \<lparr>arch_known = True, filter_error = (\<lambda>_. None), program_error = (\<lambda>_. None)\<rparr>"

lemmas run_simps = trym_def bindm_def callm_def retm_def thenm_def execm_def ret_ok_def ret_int_def
  ret_bool_def ret_msg_def Let_def

lemma sample_cgroup:
  "\<exists>cg e. cgroup_new ''c'' config (sample_os n) tr = (Inr cg, tr @ e)"
  using emits_only[OF only_cgroup_new]
  by (cases "profile config"; cases "cpu_max_percent config")
    (simp_all add: cgroup_new_def cgroup_create_def write_cgroup_file_def run_simps sample_os_def)

lemma sample_pipes:
  "\<exists>pipes e. pipes_new (sample_os n) tr = (Inr pipes, tr @ e)"
  by (simp add: pipes_new_def cloexec_pipe_def fcntl_set_cloexec_def run_simps sample_os_def)

lemma sample_fork: "fork_retry (sample_os n) tr = (Ret n, tr @ [(Fork, Ret n)])"
  by (simp add: fork_retry_def fork_loop.simps run_simps sample_os_def)

lemma sample_admitted:
  assumes "n \<noteq> 0"
  shows "\<exists>pipes cg e. admitted_run 1 sample_seccompiler ''j'' ''c'' ''u'' sample_observed sample_config
    (sample_os n) tr =
    parent_side 1 sample_observed sample_config pipes cg n (sample_os n) (tr @ e)"
proof -
  obtain pipes e where p: "pipes_new (sample_os n) tr = (Inr pipes, tr @ e)" using sample_pipes by blast
  obtain cg e' where c: "cgroup_new ''c'' sample_config (sample_os n) (tr @ e) = (Inr cg, (tr @ e) @ e')"
    using sample_cgroup by blast
  have "with_fresh_jail ''j'' sample_config = sample_config"
    by (simp add: with_fresh_jail_def sample_config_def builder_simps new_config_def)
  then show ?thesis
    using assms p c
    by (intro exI[of _ pipes] exI[of _ cg] exI[of _ "e @ e' @ [(Fork, Ret n)]"])
      (simp add: admitted_run_def bindm_def sample_fork sample_observed_def Let_def ret_ok_def ret_int_def)
qed

lemma sample_supervise:
  "\<exists>x e. supervise 1 \<lparr>sup_pid = n, sup_config = config, sup_cgroup = cg\<rparr> (polls sample_observed) os tr =
     (Some x, tr @ e)"
proof -
  let ?s = "\<lparr>sup_pid = n, sup_config = config, sup_cgroup = cg\<rparr>"
  have "emits (supervise_loop (Suc 0) ?s (polls sample_observed) 0 None) (\<lambda>r _. r \<noteq> None)"
    by (auto simp: sample_observed_def
        intro!: emits_thenm_with[OF emits_kill_process_tree] emits_conseq[OF emits_build_Some])
  then have "emits (supervise 1 ?s (polls sample_observed)) (\<lambda>r _. r \<noteq> None)"
    unfolding supervise_def One_nat_def by (rule emits_bindm_with) (rule emits_supervise_tail)
  then show ?thesis unfolding emits_def by (metis not_None_eq)
qed

lemma sample_parent:
  "\<exists>res e. parent_side 1 sample_observed sample_config pipes cg n (sample_os n) tr =
     (Finished_with (Inr res), tr @ e @ [(Spawn_reader (stdout_read pipes), Ret 0),
        (Spawn_reader (stderr_read pipes), Ret 0)])"
proof -
  obtain u e1 where p1: "close_parent_ends pipes (sample_os n) tr = (u, tr @ e1)"
    using emits_only[OF only_pipes(2)] unfolding emits_def by metis
  obtain e2 where p2: "attach_proc cg n (sample_os n) (tr @ e1) = (Inr (), tr @ e1 @ e2)"
    by (simp add: attach_proc_def write_cgroup_file_def run_simps sample_os_def)
  let ?tr = "tr @ e1 @ e2 @ [(Spawn_writer (stdin_write pipes) None, Ret 0)]"
  obtain x e3 where p3: "supervise 1 \<lparr>sup_pid = n, sup_config = sample_config, sup_cgroup = Some cg\<rparr>
      (polls sample_observed) (sample_os n) ?tr = (Some x, ?tr @ e3)"
    using sample_supervise by blast
  have c: "stdin_data sample_config = None" "\<not> enable_fs_isolation sample_config"
    by (simp_all add: sample_config_def builder_simps new_config_def)
  have os: "sample_os n t (Spawn_writer fd d) = Ret 0" "sample_os n t (Spawn_reader fd) = Ret 0" for t fd d
    by (simp_all add: sample_os_def)
  show ?thesis
    using p1 p2 p3 c by (simp add: parent_side_def thenm_def bindm_def execm_def callm_def retm_def os Let_def)
qed

lemma sample_execute_parent:
  "\<exists>res e fd. sandbox_execute 1 (\<lambda>_. None) sample_seccompiler ''j'' ''c'' ''u'' sample_observed sample_config
     (sample_os 42) [] = (Finished_with (Inr res), e @ [(Spawn_reader fd, Ret 0),
       (Release_permits (unat (units_for (\<lambda>_. None) (memory_limit_bytes sample_config))), Ret 0)])"
proof -
  let ?u = "unat (units_for (\<lambda>_. None) (memory_limit_bytes sample_config))"
  have os: "sample_os 42 t (Acquire_permits k) = Ret 0" "sample_os 42 t (Release_permits k) = Ret 0" for t k
    by (simp_all add: sample_os_def)
  obtain pipes cg e where a: "admitted_run 1 sample_seccompiler ''j'' ''c'' ''u'' sample_observed sample_config
      (sample_os 42) [(Acquire_permits ?u, Ret 0)] =
      parent_side 1 sample_observed sample_config pipes cg 42 (sample_os 42) ([(Acquire_permits ?u, Ret 0)] @ e)"
    using sample_admitted[of 42 "[(Acquire_permits ?u, Ret 0)]"] by (auto simp del: One_nat_def)
  obtain res e' where "parent_side 1 sample_observed sample_config pipes cg 42 (sample_os 42)
      ([(Acquire_permits ?u, Ret 0)] @ e) = (Finished_with (Inr res), ([(Acquire_permits ?u, Ret 0)] @ e) @ e' @
        [(Spawn_reader (stdout_read pipes), Ret 0), (Spawn_reader (stderr_read pipes), Ret 0)])"
    using sample_parent by blast
  with a show ?thesis
    by (simp add: sandbox_execute_def thenm_def bindm_def execm_def callm_def retm_def os Let_def)
qed

lemma ex_snoc: "(\<exists>e. xs = e @ [y]) \<longleftrightarrow> xs \<noteq> [] \<and> last xs = y"
  by (cases xs rule: rev_cases) auto

lemma sample_child:
  "\<exists>prog av ev e. setup_child_process sample_seccompiler ''u'' sample_config pipes (sample_os 0) tr =
     (Image_replaced, tr @ e @ [(Execve prog av ev, Ret 0)])"
proof -
  have "envp ''/tmp'' \<noteq> None"
    by (simp add: envp_def cstring_def path_join_def from_utf8_lossy_ascii del: from_utf8_lossy.simps)
  then obtain ev where ev: "envp ''/tmp'' = Some ev" by blast
  then show ?thesis
    by (simp add: setup_child_process_def finish_with_def close_child_ends_def close_parent_ends_def
        redirect_stdio_def apply_resource_limits_def limit_def apply_environment_sanitization_def
        isolate_network_def unshare_def isolate_fs_def launch_def enter_work_dir_def gocache_dir_def
        confine_def drop_call_def verify_drop_def drop_jail_def install_def install_bpf_filter_def
        exec_program_def sample_config_def new_config_def builder_simps map_err_def cstring_def
        sample_seccompiler_def sample_os_def run_simps ex_snoc
        del: from_utf8_lossy.simps)
qed

lemma sample_execute_child_of:
  assumes "\<And>pipes tr. \<exists>prog av ev e. setup_child_process sample_seccompiler ''u'' (with_fresh_jail ''j'' config) pipes
      (sample_os 0) tr = (Image_replaced, tr @ e @ [(Execve prog av ev, Ret 0)])"
  shows "\<exists>fin e prog av ev. sandbox_execute 1 (\<lambda>_. None) sample_seccompiler ''j'' ''c'' ''u'' sample_observed config
     (sample_os 0) [] = (fin, [] @ e @ (Execve prog av ev, Ret 0) # [])"
proof -
  let ?u = "unat (units_for (\<lambda>_. None) (memory_limit_bytes config))" and ?c = "with_fresh_jail ''j'' config"
  let ?tr = "[(Acquire_permits ?u, Ret 0)]"
  have os: "sample_os 0 t (Acquire_permits k) = Ret 0" for t k by (simp add: sample_os_def)
  obtain pipes e where p: "pipes_new (sample_os 0) ?tr = (Inr pipes, ?tr @ e)" using sample_pipes by blast
  obtain cg e' where c: "cgroup_new ''c'' ?c (sample_os 0) (?tr @ e) = (Inr cg, (?tr @ e) @ e')"
    using sample_cgroup by blast
  obtain prog av ev e3 where x: "setup_child_process sample_seccompiler ''u'' ?c pipes (sample_os 0)
      (?tr @ e @ e' @ [(Fork, Ret 0)]) =
      (Image_replaced, (?tr @ e @ e' @ [(Fork, Ret 0)]) @ e3 @ [(Execve prog av ev, Ret 0)])"
    using assms by blast
  show ?thesis
    using p c x
    by (intro exI[of _ "In_child Image_replaced"] exI[of _ "?tr @ e @ e' @ (Fork, Ret 0) # e3"]
        exI[of _ prog] exI[of _ av] exI[of _ ev])
      (simp add: sandbox_execute_def admitted_run_def child_side_def thenm_def bindm_def execm_def
        callm_def retm_def os sample_fork sample_observed_def ret_ok_def ret_int_def Let_def)
qed

lemma sample_execute_child:
  "\<exists>fin e prog av ev. sandbox_execute 1 (\<lambda>_. None) sample_seccompiler ''j'' ''c'' ''u'' sample_observed sample_config
     (sample_os 0) [] = (fin, [] @ e @ (Execve prog av ev, Ret 0) # [])"
proof -
  have "with_fresh_jail ''j'' sample_config = sample_config"
    by (simp add: with_fresh_jail_def sample_config_def builder_simps new_config_def)
  then show ?thesis by (intro sample_execute_child_of) (simp only: sample_child)
qed

section \<open>Properties\<close>

text \<open>
  C3: no program runs unconfined. Whatever the kernel answers in a whole run of
  \<open>Sandbox::execute\<close>, every \<open>execve\<close> is made by the child of \<open>fork\<close>. Before that \<open>fork\<close> the
  execution's cgroup was created and its memory limit written, and for the program of a
  submission the process limit too. In the child, before the \<open>execve\<close>: the limits on CPU time,
  file size and stack, the separate network and the jail where the configuration asks for
  them, and for the program of a submission the seccomp filter and the dropped privileges. (It
  is the parent that puts the child into that cgroup, after \<open>fork\<close> and without a handshake, so
  nothing is said about whether that happens before the \<open>execve\<close>.)
\<close>

theorem sandbox_exec_confined:
  assumes "sandbox_execute fuel env sc jail cgid cid w config os tr =
    (fin, tr @ e1 @ (Execve p a v, r) # e2)"
  shows "\<exists>before answer child. e1 = before @ (Fork, answer) # child \<and> ret_int answer = 0 \<and>
    cgroup_limited cgid (with_fresh_jail jail config) before \<and> confined (with_fresh_jail jail config) child"
  using exec_child_confined[OF assms] unfolding child_confined_def .

theorem sandbox_exec_confined_witness:
  "\<exists>fin a child prog av ev. sandbox_execute 1 (\<lambda>_. None) sample_seccompiler ''j'' ''c'' ''u'' sample_observed
     sample_config (sample_os 0) [] = (fin, a @ child @ [(Execve prog av ev, Ret 0)]) \<and>
     wrote ''/sys/fs/cgroup/judge/c/memory.max'' (show_nat 268435456) a \<and> filtered child \<and> dropped child"
proof -
  obtain fin e prog av ev where run: "sandbox_execute 1 (\<lambda>_. None) sample_seccompiler ''j'' ''c'' ''u''
      sample_observed sample_config (sample_os 0) [] = (fin, [] @ e @ (Execve prog av ev, Ret 0) # [])"
    using sample_execute_child by blast
  have c: "profile (with_fresh_jail ''j'' sample_config) = Run"
    "unat (memory_limit_bytes (with_fresh_jail ''j'' sample_config)) = 268435456"
    by (simp_all add: with_fresh_jail_def sample_config_def builder_simps new_config_def)
  obtain a f child where e: "e = a @ (Fork, f) # child" and
    limits: "cgroup_limited ''c'' (with_fresh_jail ''j'' sample_config) a"
      "confined (with_fresh_jail ''j'' sample_config) child"
    using sandbox_exec_confined[OF run] by blast
  have "wrote ''/sys/fs/cgroup/judge/c/memory.max'' (show_nat 268435456) (a @ [(Fork, f)])"
    using limits(1) unfolding cgroup_limited_def c by (simp add: path_join_def)
  moreover have "filtered child \<and> dropped child"
    using limits(2) c unfolding confined_def by blast
  ultimately show ?thesis using run e by (intro exI[of _ fin] exI[of _ "a @ [(Fork, f)]"] exI[of _ child]) auto
qed

text \<open>
  C26: the output of a program is bounded and its overflow is reported. In every result of a
  sandbox both captured streams are within \<open>max_output_bytes\<close>, and the status is
  \<open>OutputLimitExceeded\<close> exactly when the captured standard output fills the limit.
\<close>

theorem sandbox_output_bounded:
  assumes "sandbox_execute fuel env sc jail cgid cid w config os tr = (Finished_with (Inr res), tr')"
  shows "length (stdout res) \<le> unat (max_output_bytes config) \<and>
    length (stderr res) \<le> unat (max_output_bytes config) \<and>
    (ExecutionResult.status res = OutputLimitExceeded \<longleftrightarrow>
     length (stdout res) = unat (max_output_bytes config))"
  using emits_run[OF emits_sandbox_result assms] good_result_output[of "with_fresh_jail jail config" w res]
  by auto

theorem sandbox_output_bounded_witness:
  "\<exists>res tr. sandbox_execute 1 (\<lambda>_. None) sample_seccompiler ''j'' ''c'' ''u'' sample_observed sample_config
     (sample_os 42) [] = (Finished_with (Inr res), tr) \<and> length (stdout res) \<le> 2"
proof -
  obtain res tr where run: "sandbox_execute 1 (\<lambda>_. None) sample_seccompiler ''j'' ''c'' ''u'' sample_observed
      sample_config (sample_os 42) [] = (Finished_with (Inr res), tr)"
    using sample_execute_parent by blast
  then show ?thesis
    using sandbox_output_bounded[OF run] by (simp add: sample_config_def builder_simps)
qed

text \<open>
  C39: output is only read from a killed process. The tasks that read the two output pipes are
  started by the parent, and only after it has sent SIGKILL both to the process group of the
  child that \<open>fork\<close> returned and to the child itself.
\<close>

theorem output_read_after_kill:
  assumes "sandbox_execute fuel env sc jail cgid cid w config os tr =
    (fin, tr @ e1 @ (Spawn_reader fd, r) # e2)"
  shows "\<exists>before answer after. e1 = before @ (Fork, answer) # after \<and> ret_ok answer \<and> ret_int answer \<noteq> 0 \<and>
    killed (ret_int answer) after"
  using emits_run[OF emits_sandbox_readers assms] by (auto simp: guarded_def child_killed_def)

theorem output_read_after_kill_witness:
  "\<exists>fin e1 e2 fd answer. sandbox_execute 1 (\<lambda>_. None) sample_seccompiler ''j'' ''c'' ''u'' sample_observed
     sample_config (sample_os 42) [] = (fin, e1 @ (Spawn_reader fd, Ret 0) # e2) \<and>
     (Fork, answer) \<in> set e1 \<and> killed (ret_int answer) e1"
proof -
  obtain res e fd u where run: "sandbox_execute 1 (\<lambda>_. None) sample_seccompiler ''j'' ''c'' ''u'' sample_observed
      sample_config (sample_os 42) [] =
      (Finished_with (Inr res), [] @ e @ (Spawn_reader fd, Ret 0) # [(Release_permits u, Ret 0)])"
    using sample_execute_parent by auto
  obtain a f b where e: "e = a @ (Fork, f) # b" and k: "killed (ret_int f) b"
    using output_read_after_kill[OF run] by blast
  have "killed (ret_int f) e" using k by (auto simp: e killed_def)
  then show ?thesis using run e by (metis append_Nil in_set_conv_decomp)
qed

text \<open>
  An execution that fails before \<open>fork\<close> leaks its pipes. When the cgroup cannot be set up
  all three pipes have been created and none of their descriptors is ever closed.
\<close>

lemma cgroup_failure_leaks_pipes:
  assumes "admitted_run fuel sc jail cgid cid w config os tr = (Finished_with (Inl (Cgroup_error x)), tr @ e)"
    and "never_forked e"
  shows "3 \<le> count_list (map fst e) Pipe \<and> (\<forall>fd r. (Close fd, r) \<notin> set e)"
  using emits_run[OF emits_admitted_leak assms(1)] assms(2) by (auto simp: no_close_def)

lemma cgroup_failure_leaks_pipes_witness:
  "\<exists>x e. admitted_run 1 sample_seccompiler ''j'' ''c'' ''u'' sample_observed sample_config
     (\<lambda>_ c. if c = Pipe then Fds 3 4 else if c = Fcntl_cloexec 3 \<or> c = Fcntl_cloexec 4 then Ret 0
            else Err ''read-only'' 30) [] = (Finished_with (Inl (Cgroup_error x)), e) \<and>
     3 \<le> count_list (map fst e) Pipe \<and> (\<forall>fd r. (Close fd, r) \<notin> set e)"
proof -
  let ?os = "\<lambda>_ c. if c = Pipe then Fds 3 4 else if c = Fcntl_cloexec 3 \<or> c = Fcntl_cloexec 4 then Ret 0
            else Err ''read-only'' 30"
  obtain x e where run: "admitted_run 1 sample_seccompiler ''j'' ''c'' ''u'' sample_observed sample_config
      ?os [] = (Finished_with (Inl (Cgroup_error x)), [] @ e)" and e: "never_forked e"
    by (simp add: admitted_run_def pipes_new_def cloexec_pipe_def fcntl_set_cloexec_def cgroup_new_def
        run_simps sample_observed_def never_forked_def)
  then show ?thesis using cgroup_failure_leaks_pipes[OF run e] by auto
qed

text \<open>
  The input reaches the program unless a write fails. As long as the writes succeed the
  whole input is written, however it is split; the first failed write, also one that was
  merely interrupted by a signal, silently drops the rest.
\<close>

lemma stdin_written_until_failure:
  assumes "\<forall>n \<in> set ns. 0 < n"
  shows "(length data \<le> sum_list ns \<longrightarrow> write_all_to_fd data (map int ns @ rest) = Some data) \<and>
    (sum_list ns < length data \<longrightarrow>
       write_all_to_fd data (map int ns @ (- 1) # rest) = Some (take (sum_list ns) data))"
  using write_all_progress[OF assms] by (auto simp: write_all_to_fd.simps)

lemma stdin_written_until_failure_witness:
  "write_all_to_fd ''hello'' [3, - 1, 2] = Some ''hel''"
  using stdin_written_until_failure[of "[3]" "''hello''" "[2]"] by simp

end
