(* ===== verification/Redis_Client.thy ===== *)
theory Redis_Client
  imports Io_Trace Job
begin

text \<open>
  The outside of the cluster code and of the handlers: the Redis server behind the \<open>redis\<close>
  crate, the clock, the WebSocket peer, and the JSON encoding of \<open>serde\<close>. None of it is part
  of the repository, so every definition takes it as an argument: the commands are calls of
  \<open>Io_Trace\<close>, and \<open>serde\<close> is a record of its conversions. The local worker pool, modelled in
  \<open>Pool\<close>, is a call here too: what it answers to a submission is arbitrary. The crate converts a reply to the type the
  caller asks for, so an answer carries a value of that type or an error.
\<close>

section \<open>Commands\<close>

text \<open>\<open>redis::Value\<close>; the variants the code never looks into are one.\<close>

datatype redis_value =
    NilV
  | IntV int
  | BulkStringV bytes
  | ArrayV "redis_value list"
  | OtherV

text \<open>
  The commands with the arguments the code gives them. \<open>SET\<close> has a key, a value, a time to
  live and the \<open>NX\<close> flag, \<open>XADD\<close> an optional \<open>MAXLEN ~\<close> and one field with its value;
  \<open>XGROUP CREATE\<close> the id it starts after and the \<open>MKSTREAM\<close> flag; \<open>XREADGROUP\<close> is always called
  with \<open>>\<close>.
\<close>

datatype redis_cmd =
    GET string
  | SET string string u64 bool
  | DEL string
  | EXISTS string
  | KEYS string
  | XADD string "u64 option" string string
  | XACK string string string
  | PUBLISH string string
  | XGROUP_CREATE string string string bool
  | XGROUP_CREATECONSUMER string string string
  | XREADGROUP string string nat nat string
  | XAUTOCLAIM string string string u64 string nat
  | XINFO_CONSUMERS string string

section \<open>Calls and answers\<close>

datatype wake = Bell | Lagged | Closed | Slept

text \<open>A frame of a WebSocket, and a frame, an error or the end of the stream as it is received.\<close>

datatype ws_frame = Text_frame string | Close_frame | Other_frame

datatype ws_input = Frame ws_frame | Broken | Ended

datatype (plugins only: code size) net_call =
    Open_client string
  | Connect
  | Cmd redis_cmd
  | Piped "redis_cmd list"
  | Pause_ms nat
  | Now
  | Select_bell nat
  | Submit_job JobRequest
  | Available_permits
  | Try_acquire
  | Acquire
  | Release
  | Spawn_process string JobRequest
  | Spawn_reclaim u64 u64
  | Get_pubsub
  | Psubscribe string
  | Next_message
  | Ring string
  | Ws_next
  | Ws_send ws_frame
  | Ws_closed
  | Spawn_submit JobRequest
  | Progress_next

datatype (plugins only: code size) net_ret =
    Refused string
  | Done
  | Value redis_value
  | Text "string option"
  | Names "string list"
  | Flag bool
  | Claim int "string option"
  | Time nat
  | Woken wake
  | Count nat
  | Answered "string + JobResult"
  | Input ws_input
  | Event "ProgressEvent option"

type_synonym net = "(net_call, net_ret) outside_world"
type_synonym net_trace = "(net_call, net_ret) history"
type_synonym 'a net_m = "(net_call, net_ret, 'a) io"

definition net_ok :: "net_ret \<Rightarrow> bool" where
  "net_ok r = (case r of Refused _ \<Rightarrow> False | _ \<Rightarrow> True)"

definition net_msg :: "net_ret \<Rightarrow> string" where
  "net_msg r = (case r of Refused e \<Rightarrow> e | _ \<Rightarrow> [])"

definition net_text :: "net_ret \<Rightarrow> string option" where
  "net_text r = (case r of Text t \<Rightarrow> t | _ \<Rightarrow> None)"

definition net_flag :: "net_ret \<Rightarrow> bool" where
  "net_flag r = (case r of Flag b \<Rightarrow> b | _ \<Rightarrow> False)"

definition net_time :: "net_ret \<Rightarrow> nat" where
  "net_time r = (case r of Time t \<Rightarrow> t | _ \<Rightarrow> 0)"

definition net_wake :: "net_ret \<Rightarrow> wake" where
  "net_wake r = (case r of Woken w \<Rightarrow> w | _ \<Rightarrow> Slept)"

definition net_count :: "net_ret \<Rightarrow> nat" where
  "net_count r = (case r of Count n \<Rightarrow> n | _ \<Rightarrow> 0)"

definition net_answer :: "net_ret \<Rightarrow> string + JobResult" where
  "net_answer r = (case r of Answered a \<Rightarrow> a | _ \<Rightarrow> Inl [])"

definition net_input :: "net_ret \<Rightarrow> ws_input" where
  "net_input r = (case r of Input i \<Rightarrow> i | _ \<Rightarrow> Ended)"

definition net_event :: "net_ret \<Rightarrow> ProgressEvent option" where
  "net_event r = (case r of Event e \<Rightarrow> e | _ \<Rightarrow> None)"

lemmas net_ret_defs = net_ok_def net_msg_def net_text_def net_flag_def net_time_def net_wake_def
  net_count_def net_answer_def net_input_def net_event_def

lemma net_ret_simps [simp]:
  "net_ok Done" "net_ok (Value v)" "net_ok (Text t)" "net_ok (Flag b)" "net_ok (Claim i t)"
  "\<not> net_ok (Refused e)" "net_text (Text t) = t" "net_text (Refused e) = None"
  "net_flag (Flag b) = b" "net_flag (Refused e) = False" "net_time (Time n) = n"
  "net_wake (Woken w) = w" "net_count (Count n) = n" "net_answer (Answered a) = a"
  "net_msg (Refused e) = e" "net_input (Input inp) = inp" "net_event (Event ev) = ev"
  by (simp_all add: net_ret_defs)

text \<open>\<open>std::env::var(key).ok().and_then(|s| s.parse().ok()).unwrap_or(default)\<close>.\<close>

definition env_u64 :: "env \<Rightarrow> string \<Rightarrow> u64 \<Rightarrow> u64" where
  "env_u64 env key dflt = (case Option.bind (env key) parse_u64 of Some n \<Rightarrow> n | None \<Rightarrow> dflt)"

section \<open>JSON\<close>

record serde =
  job_to_json :: "JobRequest \<Rightarrow> string option"
  job_of_json :: "string \<Rightarrow> string + JobRequest"
  result_to_json :: "JobResult \<Rightarrow> string option"
  result_of_json :: "string \<Rightarrow> JobResult option"
  event_to_json :: "ProgressEvent \<Rightarrow> string option"

text \<open>
  What the code relies on: a derived \<open>Deserialize\<close> reads back what the derived \<open>Serialize\<close> of
  the same type wrote, and the text is UTF-8.
\<close>

locale serde_codec =
  fixes sd :: serde
  assumes job_codec: "job_to_json sd r = Some json \<Longrightarrow> job_of_json sd json = Inr r"
    and result_codec: "result_to_json sd res = Some json \<Longrightarrow> result_of_json sd json = Some res"
    and job_utf8: "job_to_json sd r = Some json \<Longrightarrow> from_utf8_lossy json = json"

section \<open>Kinds of calls\<close>

fun is_submit :: "net_call \<Rightarrow> bool" where
  "is_submit (Submit_job r) = True"
| "is_submit _ = False"

fun is_spawn :: "net_call \<Rightarrow> bool" where
  "is_spawn (Spawn_process m r) = True"
| "is_spawn _ = False"

fun is_xadd :: "net_call \<Rightarrow> bool" where
  "is_xadd (Cmd (XADD s n f v)) = True"
| "is_xadd _ = False"

fun is_publish :: "net_call \<Rightarrow> bool" where
  "is_publish (Piped p) = (\<exists>ch m. PUBLISH ch m \<in> set p)"
| "is_publish _ = False"

end
