(* ===== verification/Redis_Queue.thy ===== *)
theory Redis_Queue
  imports Redis_Client
begin

text \<open>
  The Redis consumer, \<open>src/queue/redis.rs\<close>: reading jobs from the stream, running them on the
  local pool, publishing their results with retries, and the sweep that reclaims the jobs of
  dead workers. The two endless loops are modelled by their bodies and a number of rounds;
  \<open>tokio::spawn\<close> of a task is a call, and the task's body a definition of its own. Log
  messages are left out.
\<close>

section \<open>The consumer\<close>

record RedisConsumer =
  redis_url :: string
  num_workers :: usize
  stream_key :: string
  consumer_group :: string
  consumer_name :: string

definition consumer_new ::
  "string \<Rightarrow> string \<Rightarrow> usize \<Rightarrow> string option \<Rightarrow> string option \<Rightarrow> RedisConsumer" where
  "consumer_new uuid url workers_count stream grp =
     \<lparr> redis_url = url, num_workers = workers_count,
       stream_key = (case stream of Some s \<Rightarrow> s | None \<Rightarrow> ''judge:jobs''),
       consumer_group = (case grp of Some g \<Rightarrow> g | None \<Rightarrow> ''judge_workers''),
       consumer_name = ''worker-w'' @ show_nat (unat workers_count) @ ''-'' @ uuid \<rparr>"

text \<open>The permits of the semaphore that bounds the jobs in flight.\<close>

definition consumer_capacity :: "RedisConsumer \<Rightarrow> usize" where
  "consumer_capacity c = max (num_workers c * 2) 4"

section \<open>Keys\<close>

definition result_key :: "string \<Rightarrow> string" where
  "result_key jid = ''judge:results:'' @ jid"

definition pending_key :: "string \<Rightarrow> string" where
  "pending_key jid = ''judge:pending:'' @ jid"

definition done_channel :: "string \<Rightarrow> string" where
  "done_channel jid = ''judge:done:'' @ jid"

section \<open>Publishing a result\<close>

definition MAX_ATTEMPTS :: nat where
  "MAX_ATTEMPTS = 12"

text \<open>One attempt: a fresh connection, then the pipe; the first error ends it.\<close>

definition pipe_attempt :: "redis_cmd list \<Rightarrow> bool net_m" where
  "pipe_attempt p =
     bindm (callm Connect) (\<lambda>r.
       if \<not> net_ok r then retm False
       else bindm (callm (Piped p)) (\<lambda>r. retm (net_ok r)))"

function retry_from :: "redis_cmd list \<Rightarrow> nat \<Rightarrow> bool net_m" where
  "retry_from p attempt =
     (if attempt > MAX_ATTEMPTS then retm False
      else bindm (pipe_attempt p) (\<lambda>ok.
        if ok then retm True
        else if attempt = MAX_ATTEMPTS then retm False
        else thenm (execm (Pause_ms (min 2000 (200 * attempt)))) (retry_from p (attempt + 1))))"
  by pat_completeness auto
termination by (relation "measure (\<lambda>(p, attempt). Suc MAX_ATTEMPTS - attempt)") auto

declare retry_from.simps [simp del]

definition run_pipe_with_retry :: "redis_cmd list \<Rightarrow> bool net_m" where
  "run_pipe_with_retry p = retry_from p 1"

definition publish_pipe :: "RedisConsumer \<Rightarrow> string \<Rightarrow> string \<Rightarrow> string \<Rightarrow> u64 \<Rightarrow> redis_cmd list" where
  "publish_pipe c msg_id jid result_json result_ttl =
     [SET (result_key jid) result_json result_ttl False,
      DEL (pending_key jid),
      XACK (stream_key c) (consumer_group c) msg_id,
      PUBLISH (done_channel jid) jid]"

definition publish_result ::
  "serde \<Rightarrow> RedisConsumer \<Rightarrow> string \<Rightarrow> JobResult \<Rightarrow> u64 \<Rightarrow> unit net_m" where
  "publish_result sd c msg_id result result_ttl =
     (let result_json = (case result_to_json sd result of Some j \<Rightarrow> j | None \<Rightarrow> []) in
      bindm (run_pipe_with_retry
        (publish_pipe c msg_id (JobResult.job_id result) result_json result_ttl)) (\<lambda>_. retm ()))"

definition ack_pipe :: "RedisConsumer \<Rightarrow> string \<Rightarrow> string \<Rightarrow> redis_cmd list" where
  "ack_pipe c msg_id jid =
     [DEL (pending_key jid),
      XACK (stream_key c) (consumer_group c) msg_id,
      PUBLISH (done_channel jid) jid]"

definition ack_existing :: "RedisConsumer \<Rightarrow> string \<Rightarrow> string \<Rightarrow> unit net_m" where
  "ack_existing c msg_id jid =
     bindm (run_pipe_with_retry (ack_pipe c msg_id jid)) (\<lambda>_. retm ())"

section \<open>Running a job\<close>

definition failed_result :: "JobRequest \<Rightarrow> JobResult" where
  "failed_result request =
     \<lparr> JobResult.job_id = JobRequest.job_id request, verdict = RuntimeError, total_cpu_time_ms = 0,
       peak_memory_kb = 0, compile_output = None, test_results = [] \<rparr>"

text \<open>The task that \<open>spawn_process\<close> starts; dropping the permit is its last action.\<close>

definition process_task ::
  "serde \<Rightarrow> RedisConsumer \<Rightarrow> u64 \<Rightarrow> string \<Rightarrow> JobRequest \<Rightarrow> unit net_m" where
  "process_task sd c result_ttl msg_id request =
     bindm (callm (Submit_job request)) (\<lambda>r.
       let result = (case net_answer r of Inr res \<Rightarrow> res | Inl e \<Rightarrow> failed_result request) in
       thenm (publish_result sd c msg_id result result_ttl) (execm Release))"

section \<open>Reading the stream\<close>

text \<open>The loop over the field and value pairs; a field without a value ends it.\<close>

fun extract_pairs :: "redis_value list \<Rightarrow> string option" where
  "extract_pairs (k # v # kvs) =
     (case (k, v) of
        (BulkStringV k_bytes, BulkStringV v_bytes) \<Rightarrow>
          if from_utf8_lossy k_bytes = ''job'' then Some (from_utf8_lossy v_bytes)
          else extract_pairs kvs
      | _ \<Rightarrow> extract_pairs kvs)"
| "extract_pairs _ = None"

definition extract_job_field :: "redis_value \<Rightarrow> string option" where
  "extract_job_field flds = (case flds of ArrayV kvs \<Rightarrow> extract_pairs kvs | _ \<Rightarrow> None)"

text \<open>A message \<open>[id, fields, ...]\<close> with a bulk string as its id.\<close>

definition entry_of :: "redis_value \<Rightarrow> (string \<times> redis_value) option" where
  "entry_of msg =
     (case msg of
        ArrayV (BulkStringV id_bytes # flds # _) \<Rightarrow> Some (from_utf8_lossy id_bytes, flds)
      | _ \<Rightarrow> None)"

text \<open>The messages of one stream \<open>[key, messages, ...]\<close> of the reply.\<close>

definition stream_messages :: "redis_value \<Rightarrow> redis_value list" where
  "stream_messages key_item =
     (case key_item of ArrayV (_ # ArrayV messages # _) \<Rightarrow> messages | _ \<Rightarrow> [])"

definition consume_message :: "serde \<Rightarrow> redis_value \<Rightarrow> unit net_m" where
  "consume_message sd msg =
     (case entry_of msg of
        None \<Rightarrow> retm ()
      | Some (msg_id, flds) \<Rightarrow>
          (case extract_job_field flds of
             None \<Rightarrow> retm ()
           | Some json_str \<Rightarrow>
               (case job_of_json sd json_str of
                  Inl e \<Rightarrow> retm ()
                | Inr request \<Rightarrow>
                    bindm (callm Try_acquire) (\<lambda>r.
                      if net_ok r then execm (Spawn_process msg_id request)
                      else bindm (callm Acquire) (\<lambda>r.
                        if net_ok r then execm (Spawn_process msg_id request) else retm ())))))"

definition batch_size :: "RedisConsumer \<Rightarrow> nat \<Rightarrow> nat" where
  "batch_size c available = min (max available 1) (max (unat (num_workers c)) 4)"

text \<open>The creation of the consumer group, at the start and after a reconnect.\<close>

definition group_cmd :: "RedisConsumer \<Rightarrow> redis_cmd" where
  "group_cmd c = XGROUP_CREATE (stream_key c) (consumer_group c) ''$'' True"

text \<open>The body of the main loop.\<close>

definition consume_round :: "serde \<Rightarrow> RedisConsumer \<Rightarrow> unit net_m" where
  "consume_round sd c =
     thenm (execm (Cmd (SET (''judge:heartbeat:'' @ consumer_name c)
                          (show_nat (unat (num_workers c))) 20 False)))
     (thenm (execm (Cmd (XGROUP_CREATECONSUMER (stream_key c) (consumer_group c) (consumer_name c))))
     (bindm (callm Available_permits) (\<lambda>a.
      bindm (callm (Cmd (XREADGROUP (consumer_group c) (consumer_name c) 2000
                          (batch_size c (net_count a)) (stream_key c)))) (\<lambda>r.
      case r of
        Value (ArrayV ks) \<Rightarrow> for_each (consume_message sd) (concat (map stream_messages ks))
      | Refused e \<Rightarrow>
          thenm (execm (Pause_ms 1000))
          (bindm (callm Connect) (\<lambda>r.
             if net_ok r then execm (Cmd (group_cmd c))
             else retm ()))
      | _ \<Rightarrow> retm ()))))"

text \<open>Connecting at start-up gives up after the eleventh failure.\<close>

function connect_loop :: "nat \<Rightarrow> (string + unit) net_m" where
  "connect_loop retries =
     bindm (callm Connect) (\<lambda>r.
       if net_ok r then retm (Inr ())
       else if retries + 1 > 10 then retm (Inl (net_msg r))
       else thenm (execm (Pause_ms 500)) (connect_loop (retries + 1)))"
  by pat_completeness auto
termination by (relation "measure (\<lambda>retries. 11 - retries)") auto

declare connect_loop.simps [simp del]

fun rounds :: "nat \<Rightarrow> unit net_m \<Rightarrow> unit net_m" where
  "rounds 0 body = retm ()"
| "rounds (Suc n) body = thenm body (rounds n body)"

definition consumer_run :: "serde \<Rightarrow> env \<Rightarrow> nat \<Rightarrow> RedisConsumer \<Rightarrow> (string + unit) net_m" where
  "consumer_run sd env n c =
     bindm (callm (Open_client (redis_url c))) (\<lambda>r.
     if \<not> net_ok r then retm (Inl (net_msg r))
     else trym (connect_loop 0) (\<lambda>_.
       thenm (execm (Cmd (group_cmd c)))
      (thenm (execm (Cmd (XGROUP_CREATECONSUMER (stream_key c) (consumer_group c) (consumer_name c))))
      (thenm (execm (Spawn_reclaim (env_u64 env ''JUDGE_RECLAIM_MIN_IDLE_MS'' 300000)
                                   (env_u64 env ''JUDGE_RECLAIM_INTERVAL_MS'' 15000)))
      (thenm (rounds n (consume_round sd c)) (retm (Inr ())))))))"

definition result_ttl :: "env \<Rightarrow> u64" where
  "result_ttl env = env_u64 env ''JUDGE_RESULT_TTL_SECS'' 1800"

section \<open>The reclaim sweep\<close>

text \<open>
  One reclaimed message. The value is \<open>False\<close> when the semaphore is closed, which ends the
  loop over the messages.
\<close>

definition reclaim_message :: "serde \<Rightarrow> RedisConsumer \<Rightarrow> redis_value \<Rightarrow> bool net_m" where
  "reclaim_message sd c msg =
     (case entry_of msg of
        None \<Rightarrow> retm True
      | Some (msg_id, flds) \<Rightarrow>
          (case Option.bind (extract_job_field flds)
                  (\<lambda>j. case job_of_json sd j of Inr r \<Rightarrow> Some r | Inl e \<Rightarrow> None) of
             None \<Rightarrow>
               thenm (execm (Cmd (XACK (stream_key c) (consumer_group c) msg_id))) (retm True)
           | Some request \<Rightarrow>
               bindm (callm (Cmd (GET (result_key (JobRequest.job_id request))))) (\<lambda>r.
               if net_text r \<noteq> None
               then thenm (ack_existing c msg_id (JobRequest.job_id request)) (retm True)
               else bindm (callm Acquire) (\<lambda>r.
                 if net_ok r then thenm (execm (Spawn_process msg_id request)) (retm True)
                 else retm False))))"

fun reclaim_messages :: "serde \<Rightarrow> RedisConsumer \<Rightarrow> redis_value list \<Rightarrow> unit net_m" where
  "reclaim_messages sd c [] = retm ()"
| "reclaim_messages sd c (msg # msgs) =
     bindm (reclaim_message sd c msg) (\<lambda>go. if go then reclaim_messages sd c msgs else retm ())"

text \<open>The body of the sweep; its value is the cursor of the next round.\<close>

definition reclaim_round ::
  "serde \<Rightarrow> RedisConsumer \<Rightarrow> u64 \<Rightarrow> u64 \<Rightarrow> string \<Rightarrow> string net_m" where
  "reclaim_round sd c min_idle_ms interval cursor =
     thenm (execm (Pause_ms (unat interval)))
     (bindm (callm (Cmd (XAUTOCLAIM (stream_key c) (consumer_group c) (consumer_name c)
                          min_idle_ms cursor 32))) (\<lambda>r.
      case r of
        Value (ArrayV (next # claimed # _)) \<Rightarrow>
          (let cursor = (case next of BulkStringV b \<Rightarrow> from_utf8_lossy b | _ \<Rightarrow> ''0-0'') in
           case claimed of
             ArrayV messages \<Rightarrow> thenm (reclaim_messages sd c messages) (retm cursor)
           | _ \<Rightarrow> retm cursor)
      | Refused e \<Rightarrow> thenm (execm Connect) (retm ''0-0'')
      | _ \<Rightarrow> retm ''0-0''))"

text \<open>Waiting for the connection of the sweep, which never gives up, with fuel; then rounds.\<close>

fun await_connection :: "nat \<Rightarrow> bool net_m" where
  "await_connection 0 = retm False"
| "await_connection (Suc fuel) =
     bindm (callm Connect) (\<lambda>r.
       if net_ok r then retm True
       else thenm (execm (Pause_ms 2000)) (await_connection fuel))"

fun reclaim_rounds :: "nat \<Rightarrow> (string \<Rightarrow> string net_m) \<Rightarrow> string \<Rightarrow> string net_m" where
  "reclaim_rounds 0 body cursor = retm cursor"
| "reclaim_rounds (Suc n) body cursor = bindm (body cursor) (reclaim_rounds n body)"

definition run_reclaim ::
  "serde \<Rightarrow> RedisConsumer \<Rightarrow> nat \<Rightarrow> nat \<Rightarrow> u64 \<Rightarrow> u64 \<Rightarrow> unit net_m" where
  "run_reclaim sd c fuel n min_idle_ms interval =
     bindm (await_connection fuel) (\<lambda>up.
       if up then bindm (reclaim_rounds n (reclaim_round sd c min_idle_ms interval) ''0-0'') (\<lambda>_. retm ())
       else retm ())"

section \<open>Facts about retries\<close>

definition pauses :: "net_trace \<Rightarrow> nat" where
  "pauses e = sum_list (map (\<lambda>(c, r). case c of Pause_ms n \<Rightarrow> n | _ \<Rightarrow> 0) e)"

definition attempts :: "net_trace \<Rightarrow> nat" where
  "attempts e = length (filter (\<lambda>(c, r). c = Connect) e)"

definition sent :: "redis_cmd list \<Rightarrow> net_trace \<Rightarrow> bool" where
  "sent p e \<longleftrightarrow> (\<exists>r. (Piped p, r) \<in> set e \<and> net_ok r)"

lemma trace_counts [simp]:
  "pauses [] = 0" "attempts [] = 0" "\<not> sent p []"
  by (auto simp: pauses_def attempts_def sent_def)

lemma emits_attempt:
  "emits (pipe_attempt p) (\<lambda>ok e. (ok \<longleftrightarrow> sent p e) \<and> pauses e = 0 \<and> attempts e = 1 \<and>
     (\<forall>(c, r) \<in> set e. c \<in> {Connect, Piped p}))"
  unfolding pipe_attempt_def
  by (rule emits_call_bindm)
    (auto intro!: emits_retm emits_call_bindm simp: pauses_def attempts_def sent_def)

definition backoff :: "nat \<Rightarrow> nat" where
  "backoff attempt = (\<Sum>n = attempt..<MAX_ATTEMPTS. min 2000 (200 * n))"

lemma backoff_step: "attempt < MAX_ATTEMPTS \<Longrightarrow> backoff attempt = min 2000 (200 * attempt) + backoff (Suc attempt)"
  by (simp add: backoff_def sum.atLeast_Suc_lessThan)

lemma backoff_total: "backoff (Suc 0) = 13000" "backoff MAX_ATTEMPTS = 0"
  by code_simp+

lemma counts_append [simp]:
  "pauses (a @ b) = pauses a + pauses b" "attempts (a @ b) = attempts a + attempts b"
  "sent p (a @ b) \<longleftrightarrow> sent p a \<or> sent p b"
  by (auto simp: pauses_def attempts_def sent_def)

lemma counts_pause [simp]:
  "pauses ((Pause_ms n, r) # e) = n + pauses e" "attempts ((Pause_ms n, r) # e) = attempts e"
  "sent p ((Pause_ms n, r) # e) \<longleftrightarrow> sent p e"
  by (auto simp: pauses_def attempts_def sent_def)

definition retried :: "redis_cmd list \<Rightarrow> nat \<Rightarrow> bool \<Rightarrow> net_trace \<Rightarrow> bool" where
  "retried p attempt ok e \<longleftrightarrow> (ok \<longleftrightarrow> sent p e) \<and>
     attempts e \<le> Suc MAX_ATTEMPTS - attempt \<and> pauses e \<le> backoff attempt \<and>
     (\<not> ok \<longrightarrow> attempts e = Suc MAX_ATTEMPTS - attempt \<and> pauses e = backoff attempt) \<and>
     (\<forall>(c, r) \<in> set e. c \<in> {Connect, Piped p} \<union> range Pause_ms)"

lemma emits_retry: "attempt \<le> MAX_ATTEMPTS \<Longrightarrow> emits (retry_from p attempt) (retried p attempt)"
proof (induction p attempt rule: retry_from.induct)
  case (1 p attempt)
  have step: "emits (thenm (execm (Pause_ms (min 2000 (200 * attempt)))) (retry_from p (attempt + 1)))
      (\<lambda>ok e'. retried p attempt ok (e @ e'))"
    if "attempt < MAX_ATTEMPTS" "\<not> sent p e" "pauses e = 0" "attempts e = 1"
      "\<forall>(c, r) \<in> set e. c \<in> {Connect, Piped p}" for e
  proof (rule emits_thenm, rule emits_execm)
    fix r
    have "emits (retry_from p (attempt + 1)) (retried p (attempt + 1))"
      using 1 that by auto
    then show "emits (retry_from p (attempt + 1)) (\<lambda>ok e'. retried p attempt ok
        (e @ [(Pause_ms (min 2000 (200 * attempt)), r)] @ e'))"
      by (rule emits_conseq) (use that in \<open>fastforce simp: retried_def backoff_step\<close>)
  qed
  show ?case
    unfolding retry_from.simps[of p attempt]
    using 1(2) step
    by (auto intro!: emits_bindm_with[OF emits_attempt] emits_retm simp: retried_def backoff_def)
qed


section \<open>Facts about tasks and the sweep\<close>

lemma only_attempt: "(\<And>r. P Connect) \<Longrightarrow> P (Piped p) \<Longrightarrow> only P (pipe_attempt p)"
  unfolding pipe_attempt_def by (intro only_intros) auto

lemma only_retry: "P Connect \<Longrightarrow> P (Piped p) \<Longrightarrow> (\<And>n. P (Pause_ms n)) \<Longrightarrow> only P (retry_from p attempt)"
proof (induction p attempt rule: retry_from.induct)
  case (1 p attempt)
  then show ?case
    unfolding retry_from.simps[of p attempt] by (auto intro!: only_intros only_attempt)
qed

lemma emits_run_pipe: "emits (run_pipe_with_retry p) (retried p 1)"
  unfolding run_pipe_with_retry_def by (rule emits_retry) (simp add: MAX_ATTEMPTS_def)

lemma only_ack_existing: "only (\<lambda>c. \<not> is_spawn c) (ack_existing c m j)"
  unfolding ack_existing_def run_pipe_with_retry_def by (auto intro!: only_intros only_retry)

text \<open>The result a task publishes for what the pool answered.\<close>

definition reported :: "JobRequest \<Rightarrow> net_ret \<Rightarrow> JobResult" where
  "reported request ans = (case net_answer ans of Inr res \<Rightarrow> res | Inl e \<Rightarrow> failed_result request)"

definition report_pipe :: "serde \<Rightarrow> RedisConsumer \<Rightarrow> u64 \<Rightarrow> string \<Rightarrow> JobResult \<Rightarrow> redis_cmd list" where
  "report_pipe sd c ttl msg_id res =
     publish_pipe c msg_id (JobResult.job_id res)
       (case result_to_json sd res of Some j \<Rightarrow> j | None \<Rightarrow> []) ttl"

lemma emits_publish:
  "emits (publish_result sd c m res ttl) (\<lambda>_ e. \<exists>ok. retried (report_pipe sd c ttl m res) 1 ok e)"
  unfolding publish_result_def Let_def
  by (rule emits_bindm_with[OF emits_run_pipe]) (auto intro!: emits_retm simp: report_pipe_def)

lemma emits_process:
  "emits (process_task sd c ttl m request) (\<lambda>_ e. \<exists>ans ok e' r.
     e = (Submit_job request, ans) # e' @ [(Release, r)] \<and>
     retried (report_pipe sd c ttl m (reported request ans)) 1 ok e')"
  unfolding process_task_def Let_def reported_def[symmetric]
proof (rule emits_call_bindm)
  fix ans
  show "emits (thenm (publish_result sd c m (reported request ans) ttl) (execm Release))
     (\<lambda>_ e. \<exists>ans' ok e' r. (Submit_job request, ans) # e = (Submit_job request, ans') # e' @ [(Release, r)] \<and>
       retried (report_pipe sd c ttl m (reported request ans')) 1 ok e')"
    by (rule emits_thenm_with[OF emits_publish], rule emits_execm) auto
qed

text \<open>A task may be started only right after a look-up of its result found none.\<close>

definition looked_up :: "JobRequest \<Rightarrow> net_trace \<Rightarrow> bool" where
  "looked_up request e \<longleftrightarrow> (\<exists>e0 ans a.
     e = e0 @ [(Cmd (GET (result_key (JobRequest.job_id request))), ans), (Acquire, a)] \<and>
     net_text ans = None \<and> net_ok a)"

definition starts :: "JobRequest \<Rightarrow> net_call \<Rightarrow> bool" where
  "starts request call \<longleftrightarrow> (\<exists>m. call = Spawn_process m request)"

lemma looked_up_append: "looked_up request e \<Longrightarrow> looked_up request (a @ e)"
  by (auto simp: looked_up_def)

lemma only_no_start: "only (\<lambda>c. \<not> is_spawn c) m \<Longrightarrow> only (\<lambda>c. \<not> starts request c) m"
  by (erule only_mono) (auto simp: starts_def)


lemma emits_reclaim_message:
  "emits (reclaim_message sd c msg) (\<lambda>_. guarded (starts request) (looked_up request))"
proof (cases "entry_of msg")
  case None
  then show ?thesis by (auto simp: reclaim_message_def intro!: emits_retm)
next
  case (Some entry)
  obtain m fl where entry: "entry = (m, fl)" by (cases entry)
  let ?req = "Option.bind (extract_job_field fl)
    (\<lambda>j. case job_of_json sd j of Inr r \<Rightarrow> Some r | Inl e \<Rightarrow> None)"
  show ?thesis
  proof (cases ?req)
    case None
    show ?thesis
      unfolding reclaim_message_def Some entry option.case prod.case None
      by (rule emits_only_guard) (auto intro!: only_intros simp: starts_def)
  next
    case (Some r)
    have ack: "emits (thenm (ack_existing c m (JobRequest.job_id r)) (retm True))
        (\<lambda>_ e. guarded (starts request) (looked_up request) (x # e))" 
      if "fst x = Cmd (GET k)" for x k
    proof -
      have "only (\<lambda>c. \<not> starts request c) (thenm (ack_existing c m (JobRequest.job_id r)) (retm True))"
        by (intro only_thenm only_no_start[OF only_ack_existing] only_retm)
      then show ?thesis
        unfolding only_def
        by (rule emits_conseq) (use that in \<open>cases x; auto simp: guarded_Cons starts_def intro!: guarded_none\<close>)
    qed
    show ?thesis
      unfolding reclaim_message_def \<open>entry_of msg = Some entry\<close> entry option.case prod.case Some
    proof (rule emits_call_bindm)
      fix ans :: net_ret
      let ?get = "(Cmd (GET (result_key (JobRequest.job_id r))), ans)"
      have "emits (bindm (callm Acquire) (\<lambda>b. if net_ok b
            then thenm (execm (Spawn_process m r)) (retm True) else retm False))
          (\<lambda>_ e. guarded (starts request) (looked_up request) (?get # e))"
        if "net_text ans = None"
        using that by (auto intro!: emits_call_bindm emits_thenm emits_execm emits_retm
            simp: guarded_Cons starts_def looked_up_def)
      then show "emits (if net_text ans \<noteq> None
            then thenm (ack_existing c m (JobRequest.job_id r)) (retm True)
            else bindm (callm Acquire) (\<lambda>b. if net_ok b
              then thenm (execm (Spawn_process m r)) (retm True) else retm False))
          (\<lambda>_ e. guarded (starts request) (looked_up request) (?get # e))"
        using ack[of ?get] by simp
    qed
  qed
qed

lemma emits_reclaim_messages:
  "emits (reclaim_messages sd c msgs) (\<lambda>_. guarded (starts request) (looked_up request))"
proof (induction msgs)
  case (Cons msg msgs)
  show ?case
    unfolding reclaim_messages.simps
    by (rule emits_guard_both[OF emits_reclaim_message]) (auto intro!: Cons emits_retm looked_up_append)
qed (auto intro!: emits_retm)

lemma emits_reclaim_round:
  "emits (reclaim_round sd c idle interval cursor) (\<lambda>_. guarded (starts request) (looked_up request))"
proof -
  have msgs: "emits (thenm (reclaim_messages sd c messages) (retm cur)) (\<lambda>_. guarded (starts request) (looked_up request))"
    for messages cur
    unfolding thenm_def by (rule emits_guard_tail[OF emits_reclaim_messages]) auto
  have call: "emits (callm call) (\<lambda>_. guarded (starts request) (looked_up request))" if "\<not> is_spawn call" for call
    using that by (auto intro!: emits_callm simp: guarded_Cons starts_def)
  have none: "emits m (\<lambda>_. guarded (starts request) (looked_up request))" if "only (\<lambda>c. \<not> is_spawn c) m" for m :: "string net_m"
    using emits_only_guard[OF only_no_start[OF that]] .
  have ex: "emits (execm call) (\<lambda>_. guarded (starts request) (looked_up request))" if "\<not> is_spawn call" for call
    unfolding execm_def by (rule emits_guard_tail[OF call[OF that]]) auto
  show ?thesis
    unfolding reclaim_round_def thenm_def[of "execm (Pause_ms _)"]
    by (rule emits_guard_both[OF ex _ looked_up_append], simp,
        rule emits_guard_both[OF call _ looked_up_append], simp)
      (auto intro!: none only_intros msgs simp: Let_def split: net_ret.split redis_value.split list.split)
qed

section \<open>Properties\<close>

text \<open>
  A pipe sent with retries is reported as sent exactly when an attempt was answered without
  an error. There are at most 12 attempts and at most 13 seconds of pauses between them, and
  giving up takes exactly that (the comment in the code says about 20 seconds).
\<close>

lemma retry_exact:
  assumes "run_pipe_with_retry p net tr = (ok, tr')"
  shows "\<exists>e. tr' = tr @ e \<and> (ok \<longleftrightarrow> sent p e) \<and> attempts e \<le> 12 \<and> pauses e \<le> 13000 \<and>
    (\<not> ok \<longrightarrow> attempts e = 12 \<and> pauses e = 13000)"
  using emits_run[OF emits_run_pipe assms] by (auto simp: retried_def backoff_total MAX_ATTEMPTS_def)

lemma retry_exact_witness:
  "\<exists>e. run_pipe_with_retry [DEL ''k''] (\<lambda>_ _. Done) [] = (True, e) \<and> sent [DEL ''k''] e \<and> pauses e \<le> 13000"
proof -
  have run: "run_pipe_with_retry [DEL ''k''] (\<lambda>_ _. Done) [] =
      (True, [(Connect, Done), (Piped [DEL ''k''], Done)])"
    by (simp add: run_pipe_with_retry_def retry_from.simps pipe_attempt_def bindm_def callm_def
        retm_def MAX_ATTEMPTS_def)
  show ?thesis using run retry_exact[OF run] by auto
qed

text \<open>
  C17: a job taken from the stream is submitted to the pool exactly once and then reported: the
  task sends the pipe that stores the pool's result under the job's id, clears the pending
  marker, acknowledges the message and rings the bell, until it is answered or 12 attempts
  failed, and gives its permit back last. An error of the pool, a full queue included, is
  reported as a \<open>RuntimeError\<close> verdict of the program.
\<close>

theorem process_reports:
  assumes "process_task sd c ttl msg_id request net tr = (u, tr')"
  shows "\<exists>ans e r. tr' = tr @ (Submit_job request, ans) # e @ [(Release, r)] \<and>
    (let p = report_pipe sd c ttl msg_id (reported request ans) in
      (\<forall>(call, _) \<in> set e. call \<in> {Connect, Piped p} \<union> range Pause_ms) \<and>
      (sent p e \<or> attempts e = 12)) \<and>
    (\<forall>msg. ans = Answered (Inl msg) \<longrightarrow> verdict (reported request ans) = RuntimeError)"
proof -
  obtain ans ok e r where "tr' = tr @ (Submit_job request, ans) # e @ [(Release, r)]"
    "retried (report_pipe sd c ttl msg_id (reported request ans)) 1 ok e"
    using emits_run[OF emits_process assms] by auto
  then show ?thesis
    by (intro exI[of _ ans] exI[of _ e] exI[of _ r])
      (auto simp: retried_def MAX_ATTEMPTS_def reported_def failed_result_def)
qed

definition sample_serde :: serde where
  "sample_serde =
     \<lparr> job_to_json = (\<lambda>r. if r = new_request ''j'' ''c'' [] 1 1 [] then Some ''{}'' else None),
       job_of_json = (\<lambda>s. if s = ''{}'' then Inr (new_request ''j'' ''c'' [] 1 1 []) else Inl ''bad''),
       result_to_json = (\<lambda>r. if r = compilation_error ''j'' [] then Some ''[]'' else None),
       result_of_json = (\<lambda>s. if s = ''[]'' then Some (compilation_error ''j'' []) else None),
       event_to_json = (\<lambda>e. None) \<rparr>"

interpretation sample: serde_codec sample_serde
  by unfold_locales
    (auto simp: sample_serde_def from_utf8_lossy_ascii simp del: from_utf8_lossy.simps split: if_splits)

theorem process_reports_witness:
  "\<exists>ans e r. process_task sample_serde (consumer_new ''u'' ''r'' 1 None None) 1800 ''1-0''
       (new_request ''j'' ''c'' [] 1 1 []) (\<lambda>_ _. Answered (Inl ''QUEUE_FULL'')) [] =
       ((), (Submit_job (new_request ''j'' ''c'' [] 1 1 []), ans) # e @ [(Release, r)])"
proof -
  let ?run = "process_task sample_serde (consumer_new ''u'' ''r'' 1 None None) 1800 ''1-0''
    (new_request ''j'' ''c'' [] 1 1 []) (\<lambda>_ _. Answered (Inl ''QUEUE_FULL'')) []"
  have "?run = ((), snd ?run)" by (cases ?run) simp
  from process_reports[OF this] this show ?thesis by auto
qed

text \<open>
  C18: the sweep re-runs a reclaimed job only right after a look-up of its result returned none
  and a permit was then taken, so a job whose result is stored when it is looked up is not run
  again by it (a look-up that fails counts as none).
\<close>

theorem reclaim_no_rerun:
  assumes "reclaim_round sd c idle interval cursor net tr = (cur, tr @ e1 @ (Spawn_process m request, a) # e2)"
  shows "\<exists>e0 ans b. e1 = e0 @ [(Cmd (GET (result_key (JobRequest.job_id request))), ans), (Acquire, b)] \<and>
    net_text ans = None \<and> net_ok b"
proof -
  have "guarded (starts request) (looked_up request) (e1 @ (Spawn_process m request, a) # e2)"
    using emits_run[OF emits_reclaim_round assms] by auto
  then have "looked_up request e1"
    unfolding guarded_def starts_def by blast
  then show ?thesis by (simp add: looked_up_def)
qed

definition sample_claims :: net_ret where
  "sample_claims = Value (ArrayV [BulkStringV ''0-0'',
     ArrayV [ArrayV [BulkStringV ''1-0'', ArrayV [BulkStringV ''job'', BulkStringV ''{}'']]]])"

definition sample_net :: net where
  "sample_net tr call = (case call of Cmd (XAUTOCLAIM s g n i cur k) \<Rightarrow> sample_claims
     | Cmd (GET k) \<Rightarrow> Text None | _ \<Rightarrow> Done)"

theorem reclaim_no_rerun_witness:
  "\<exists>e0 ans b e2. reclaim_round sample_serde (consumer_new ''u'' ''r'' 1 None None) 300000 15000 ''0-0'' sample_net [] =
     (''0-0'', e0 @ [(Cmd (GET ''judge:results:j''), ans), (Acquire, b)] @
        (Spawn_process ''1-0'' (new_request ''j'' ''c'' [] 1 1 []), Done) # e2) \<and> net_text ans = None"
proof -
  let ?c = "consumer_new ''u'' ''r'' 1 None None" and ?r = "new_request ''j'' ''c'' [] 1 1 []"
  let ?e1 = "[(Pause_ms 15000, Done),
    (Cmd (XAUTOCLAIM (stream_key ?c) (consumer_group ?c) (consumer_name ?c) 300000 ''0-0'' 32), sample_claims),
    (Cmd (GET ''judge:results:j''), Text None), (Acquire, Done)]"
  have run: "reclaim_round sample_serde ?c 300000 15000 ''0-0'' sample_net [] =
      (''0-0'', [] @ ?e1 @ (Spawn_process ''1-0'' ?r, Done) # [])"
    by (simp add: reclaim_round_def reclaim_message_def thenm_def execm_def bindm_def callm_def retm_def
        sample_net_def sample_claims_def entry_of_def extract_job_field_def from_utf8_lossy_ascii
        sample_serde_def result_key_def new_request_def Let_def del: from_utf8_lossy.simps)
  obtain e0 ans b where "?e1 = e0 @ [(Cmd (GET ''judge:results:j''), ans), (Acquire, b)]" "net_text ans = None"
    using reclaim_no_rerun[OF run] by (auto simp: result_key_def new_request_def)
  then show ?thesis
    using run by (intro exI[of _ e0] exI[of _ ans] exI[of _ b] exI[of _ "[]"]) simp
qed

end
