(* ===== verification/Result_Bus.thy ===== *)
theory Result_Bus
  imports Redis_Queue "HOL-Library.Multiset"
begin

text \<open>
  The gateway side of the cluster, \<open>src/api/result_bus.rs\<close>: enqueueing a job, reading its
  result and its pending marker, waiting for the bell, the registry of the waiters and the
  listener. Times are milliseconds. The wait loops are bounded by a deadline, not by the number
  of their iterations, so they take fuel; \<open>wait_for_returns\<close> shows how much is enough.
\<close>

section \<open>Enqueueing\<close>

definition stream_maxlen :: "env \<Rightarrow> u64" where
  "stream_maxlen env =
     (case Option.bind (env ''JUDGE_STREAM_MAXLEN'') (\<lambda>s. parse_u64 (trim s)) of
        Some n \<Rightarrow> n | None \<Rightarrow> 10000)"

datatype EnqueueOutcome = Queued | Duplicate | RedisDown

definition enqueue_pipe :: "string \<Rightarrow> u64 \<Rightarrow> redis_cmd list" where
  "enqueue_pipe jid pending_ttl_secs =
     [DEL (result_key jid), SET (pending_key jid) ''1'' pending_ttl_secs True]"

definition xadd_cmd :: "env \<Rightarrow> string \<Rightarrow> redis_cmd" where
  "xadd_cmd env job_json =
     (let maxlen = stream_maxlen env
      in XADD ''judge:jobs'' (if maxlen > 0 then Some maxlen else None) ''job'' job_json)"

definition enqueue :: "serde \<Rightarrow> env \<Rightarrow> JobRequest \<Rightarrow> u64 \<Rightarrow> EnqueueOutcome net_m" where
  "enqueue sd env request pending_ttl_secs =
     (case job_to_json sd request of
        None \<Rightarrow> retm RedisDown
      | Some job_json \<Rightarrow>
          bindm (callm (Piped (enqueue_pipe (JobRequest.job_id request) pending_ttl_secs))) (\<lambda>r.
          case r of
            Claim del_count set_reply \<Rightarrow>
              if set_reply = None then retm Duplicate
              else bindm (callm (Cmd (xadd_cmd env job_json))) (\<lambda>r.
                if net_ok r then retm Queued
                else thenm (execm (Cmd (DEL (pending_key (JobRequest.job_id request)))))
                  (retm RedisDown))
          | _ \<Rightarrow> retm RedisDown))"

section \<open>Reading\<close>

definition try_result :: "serde \<Rightarrow> string \<Rightarrow> JobResult option net_m" where
  "try_result sd jid =
     bindm (callm (Cmd (GET (result_key jid)))) (\<lambda>r.
       retm (Option.bind (net_text r) (result_of_json sd)))"

definition is_pending :: "string \<Rightarrow> bool net_m" where
  "is_pending jid = bindm (callm (Cmd (EXISTS (pending_key jid)))) (\<lambda>r. retm (net_flag r))"

section \<open>Waiting\<close>

text \<open>The value \<open>None\<close> is running out of fuel; \<open>Some None\<close> is the timeout of the code.\<close>

fun poll_until :: "nat \<Rightarrow> serde \<Rightarrow> string \<Rightarrow> nat \<Rightarrow> JobResult option option net_m" where
  "poll_until 0 sd jid deadline = retm None"
| "poll_until (Suc fuel) sd jid deadline =
     bindm (try_result sd jid) (\<lambda>res.
     case res of
       Some r \<Rightarrow> retm (Some (Some r))
     | None \<Rightarrow>
         bindm (callm Now) (\<lambda>t.
         if net_time t \<ge> deadline then retm (Some None)
         else thenm (execm (Pause_ms (min 2000 (deadline - net_time t))))
           (poll_until fuel sd jid deadline)))"

fun wait_loop :: "nat \<Rightarrow> serde \<Rightarrow> string \<Rightarrow> nat \<Rightarrow> JobResult option option net_m" where
  "wait_loop 0 sd jid deadline = retm None"
| "wait_loop (Suc fuel) sd jid deadline =
     bindm (callm Now) (\<lambda>t.
     if net_time t \<ge> deadline then retm (Some None)
     else bindm (callm (Select_bell (min 2000 (deadline - net_time t)))) (\<lambda>w.
       bindm (try_result sd jid) (\<lambda>res.
       case res of
         Some r \<Rightarrow> retm (Some (Some r))
       | None \<Rightarrow>
           if net_wake w = Closed then poll_until fuel sd jid deadline
           else wait_loop fuel sd jid deadline)))"

definition wait_for :: "nat \<Rightarrow> serde \<Rightarrow> string \<Rightarrow> nat \<Rightarrow> JobResult option option net_m" where
  "wait_for fuel sd jid deadline =
     bindm (try_result sd jid) (\<lambda>res.
     case res of
       Some r \<Rightarrow> retm (Some (Some r))
     | None \<Rightarrow> wait_loop fuel sd jid deadline)"

section \<open>The registry of waiters\<close>

text \<open>
  A job's broadcast channel is the number of its receivers; the map holds its only lasting
  sender. \<open>wait_for\<close> binds the receiver before the guard, so when it ends the guard is
  dropped first.
\<close>

type_synonym registry = "string \<Rightarrow> nat option"

definition register_waiter :: "string \<Rightarrow> registry \<Rightarrow> registry" where
  "register_waiter jid reg = reg(jid \<mapsto> Suc (case reg jid of Some n \<Rightarrow> n | None \<Rightarrow> 0))"

definition guard_drop :: "string \<Rightarrow> registry \<Rightarrow> registry" where
  "guard_drop jid reg = (if reg jid = Some 0 then reg(jid := None) else reg)"

definition receiver_drop :: "string \<Rightarrow> registry \<Rightarrow> registry" where
  "receiver_drop jid reg = (case reg jid of Some n \<Rightarrow> reg(jid \<mapsto> n - 1) | None \<Rightarrow> reg)"

text \<open>The receivers that the listener wakes for a job.\<close>

definition woken :: "registry \<Rightarrow> string \<Rightarrow> nat" where
  "woken reg jid = (case reg jid of Some n \<Rightarrow> n | None \<Rightarrow> 0)"

text \<open>
  The waits of concurrent requests. \<open>live\<close> waits hold a receiver and a guard, \<open>ending\<close> ones
  have dropped the guard. Registering and dropping the guard happen under the registry's lock.
\<close>

record bus =
  waiters :: registry
  live :: "string multiset"
  ending :: "string multiset"

definition bus_new :: bus where
  "bus_new = \<lparr> waiters = Map.empty, live = {#}, ending = {#} \<rparr>"

inductive bus_step :: "bus \<Rightarrow> bus \<Rightarrow> bool" where
  start_wait: "bus_step b (b\<lparr>waiters := register_waiter j (waiters b), live := add_mset j (live b)\<rparr>)"
| drop_guard: "j \<in># live b \<Longrightarrow>
    bus_step b (b\<lparr>waiters := guard_drop j (waiters b), live := live b - {#j#},
                  ending := add_mset j (ending b)\<rparr>)"
| drop_receiver: "j \<in># ending b \<Longrightarrow>
    bus_step b (b\<lparr>waiters := receiver_drop j (waiters b), ending := ending b - {#j#}\<rparr>)"

inductive_cases bus_stepE: "bus_step b b'"

section \<open>The listener\<close>

text \<open>The messages of one subscription until the stream ends, with fuel.\<close>

fun relay :: "nat \<Rightarrow> unit net_m" where
  "relay 0 = retm ()"
| "relay (Suc fuel) =
     bindm (callm Next_message) (\<lambda>m.
     case net_text m of
       None \<Rightarrow> retm ()
     | Some channel \<Rightarrow>
         thenm (case strip_prefix ''judge:done:'' channel of
                  Some jid \<Rightarrow> execm (Ring jid) | None \<Rightarrow> retm ())
           (relay fuel))"

definition listener_round :: "nat \<Rightarrow> unit net_m" where
  "listener_round fuel =
     thenm (bindm (callm Get_pubsub) (\<lambda>r.
       if net_ok r
       then bindm (callm (Psubscribe ''judge:done:*'')) (\<lambda>r.
         if net_ok r then relay fuel else retm ())
       else retm ()))
     (execm (Pause_ms 500))"

definition bus_spawn :: "string \<Rightarrow> bool net_m" where
  "bus_spawn url =
     bindm (callm (Open_client url)) (\<lambda>r.
       if \<not> net_ok r then retm False
       else bindm (callm Connect) (\<lambda>r. retm (net_ok r)))"

section \<open>Facts about the registry\<close>

definition bus_inv :: "bus \<Rightarrow> bool" where
  "bus_inv b \<longleftrightarrow> (\<forall>j. woken (waiters b) j = count (live b + ending b) j)"

lemma woken_simps:
  "woken (register_waiter j reg) i = (if i = j then Suc (woken reg j) else woken reg i)"
  "woken (guard_drop j reg) i = woken reg i"
  "woken (receiver_drop j reg) i = (if i = j then woken reg j - 1 else woken reg i)"
  by (auto simp: woken_def register_waiter_def guard_drop_def receiver_drop_def split: option.split)

lemma bus_inv_step: "bus_step b b' \<Longrightarrow> bus_inv b \<Longrightarrow> bus_inv b'"
  by (induction rule: bus_step.induct)
    (auto simp: bus_inv_def woken_simps count_greater_zero_iff[symmetric] Suc_leI  simp del: count_greater_zero_iff)

lemma bus_inv_reachable: "bus_step\<^sup>*\<^sup>* bus_new b \<Longrightarrow> bus_inv b"
  by (induction rule: rtranclp_induct) (simp add: bus_inv_def bus_new_def woken_def, rule bus_inv_step)

lemma guard_drop_live:
  assumes "bus_inv b" "j \<in># live b" shows "guard_drop j (waiters b) = waiters b"
proof -
  have "woken (waiters b) j > 0" using assms by (simp add: bus_inv_def)
  then show ?thesis by (auto simp: guard_drop_def woken_def)
qed

lemma bus_step_dom: "bus_step b b' \<Longrightarrow> bus_inv b \<Longrightarrow> dom (waiters b) \<subseteq> dom (waiters b')"
  by (induction rule: bus_step.induct)
    (auto simp: guard_drop_live register_waiter_def receiver_drop_def split: option.split)

section \<open>Facts about waiting\<close>

text \<open>
  What the documentation of \<open>Instant\<close> and \<open>tokio::time::sleep\<close> promises: the clock never goes
  back, and a sleep that has ended lasted at least its duration. \<open>clock_floor\<close> is the time that
  must have been reached after a history. A wait can also be ended by the bell; \<open>bells_bounded\<close>
  bounds how often.
\<close>

fun advance :: "nat \<Rightarrow> net_call \<times> net_ret \<Rightarrow> nat" where
  "advance t (Now, r) = max t (net_time r)"
| "advance t (Pause_ms n, r) = t + n"
| "advance t (Select_bell n, r) = (if net_wake r = Slept then t + n else t)"
| "advance t _ = t"

definition clock_floor :: "net_trace \<Rightarrow> nat" where
  "clock_floor h = foldl advance 0 h"

fun is_early :: "net_call \<times> net_ret \<Rightarrow> bool" where
  "is_early (Select_bell n, r) = (net_wake r \<noteq> Slept)"
| "is_early _ = False"

definition early :: "net_trace \<Rightarrow> nat" where
  "early h = length (filter is_early h)"

definition clock_sound :: "net \<Rightarrow> bool" where
  "clock_sound net \<longleftrightarrow> (\<forall>h. clock_floor h \<le> net_time (net h Now))"

definition bells_bounded :: "nat \<Rightarrow> net \<Rightarrow> bool" where
  "bells_bounded k net \<longleftrightarrow> (\<forall>h n. k \<le> early h \<longrightarrow> net_wake (net h (Select_bell n)) = Slept)"

lemma trace_snoc [simp]:
  "clock_floor (h @ [x]) = advance (clock_floor h) x"
  "early (h @ [x]) = early h + (if is_early x then 1 else 0)"
  by (simp_all add: clock_floor_def early_def)

text \<open>The number of two-second polls left before the deadline.\<close>

definition turns :: "nat \<Rightarrow> nat \<Rightarrow> nat" where
  "turns deadline now = (deadline - now + 1999) div 2000"

lemma turns_step:
  assumes "floor \<le> t" "t < deadline"
  shows "turns deadline (t + min 2000 (deadline - t)) < turns deadline floor"
    "turns deadline t \<le> turns deadline floor"
proof -
  show "turns deadline t \<le> turns deadline floor"
    unfolding turns_def using assms by (intro div_le_mono) simp
  show "turns deadline (t + min 2000 (deadline - t)) < turns deadline floor"
  proof (cases "deadline - t \<le> 2000")
    case True
    then have "turns deadline (t + min 2000 (deadline - t)) = 0" by (simp add: turns_def)
    moreover have "0 < turns deadline floor"
      unfolding turns_def using assms by (simp add: div_greater_zero_iff)
    ultimately show ?thesis by simp
  next
    case False
    then have "turns deadline (t + min 2000 (deadline - t)) = (deadline - t - 2000 + 1999) div 2000"
      by (simp add: turns_def)
    also have "\<dots> < (deadline - t - 2000 + 1999 + 2000) div 2000" by simp
    also have "deadline - t - 2000 + 1999 + 2000 = deadline - t + 1999" using False by simp
    also have "(deadline - t + 1999) div 2000 \<le> turns deadline floor"
      unfolding turns_def using assms by (intro div_le_mono) simp
    finally show ?thesis .
  qed
qed

lemma run_simps: "bindm (callm c) f net tr = f (net tr c) net (tr @ [(c, net tr c)])"
  "thenm (execm c) m net tr = m net (tr @ [(c, net tr c)])" "retm x net tr = (x, tr)"
  by (simp_all add: bindm_def callm_def thenm_def execm_def retm_def Let_def)

lemma try_result_run: "bindm (try_result sd jid) f net tr =
   f (Option.bind (net_text (net tr (Cmd (GET (result_key jid))))) (result_of_json sd)) net
     (tr @ [(Cmd (GET (result_key jid)), net tr (Cmd (GET (result_key jid))))])"
  by (simp add: try_result_def bindm_def callm_def retm_def Let_def)

lemma poll_until_returns:
  assumes "clock_sound net" "turns deadline (clock_floor tr) < fuel"
  shows "\<exists>res. fst (poll_until fuel sd jid deadline net tr) = Some res"
  using assms(2)
proof (induction fuel arbitrary: tr)
  case (Suc fuel)
  define get where "get = (Cmd (GET (result_key jid)), net tr (Cmd (GET (result_key jid))))"
  define t where "t = net_time (net (tr @ [get]) Now)"
  define tr' where "tr' = tr @ [get] @ [(Now, net (tr @ [get]) Now)]"
  define p where "p = Pause_ms (min 2000 (deadline - t))"
  have t: "clock_floor tr \<le> t"
    using assms(1)[unfolded clock_sound_def, rule_format, of "tr @ [get]"] by (simp add: get_def t_def)
  have "clock_floor (tr' @ [(p, net tr' p)]) = t + min 2000 (deadline - t)"
    using t by (simp add: clock_floor_def tr'_def get_def t_def p_def)
  then have rec: "\<exists>res. fst (poll_until fuel sd jid deadline net (tr' @ [(p, net tr' p)])) = Some res"
    if "t < deadline"
    using turns_step(1)[OF t that] Suc.prems by (intro Suc.IH) simp
  show ?case
  proof (cases "Option.bind (net_text (snd get)) (result_of_json sd)")
    case None
    then show ?thesis
      using rec by (auto simp: try_result_run run_simps get_def t_def tr'_def p_def not_le)
  qed (simp add: try_result_run run_simps get_def)
qed simp

lemma wait_loop_returns:
  assumes "clock_sound net" "bells_bounded k net"
    and "turns deadline (clock_floor tr) + (k - early tr) < fuel"
  shows "\<exists>res. fst (wait_loop fuel sd jid deadline net tr) = Some res"
  using assms(3)
proof (induction fuel arbitrary: tr)
  case (Suc fuel)
  define t where "t = net_time (net tr Now)"
  define tr1 where "tr1 = tr @ [(Now, net tr Now)]"
  define p where "p = Select_bell (min 2000 (deadline - t))"
  define w where "w = net tr1 p"
  define tr2 where "tr2 = tr1 @ [(p, w)]"
  define get where "get = (Cmd (GET (result_key jid)), net tr2 (Cmd (GET (result_key jid))))"
  have t: "clock_floor tr \<le> t"
    using assms(1)[unfolded clock_sound_def, rule_format, of tr] by (simp add: t_def)
  have floor: "clock_floor (tr2 @ [get]) = (if net_wake w = Slept then t + min 2000 (deadline - t) else t)"
    using t by (simp add: clock_floor_def tr2_def tr1_def get_def p_def t_def)
  have early: "early (tr2 @ [get]) = early tr + (if net_wake w = Slept then 0 else 1)"
    by (simp add: early_def tr2_def tr1_def get_def p_def)
  have bell: "early tr < k" if "net_wake w \<noteq> Slept"
  proof (rule ccontr)
    assume "\<not> early tr < k"
    then have "k \<le> early tr1" by (simp add: tr1_def)
    then show False using assms(2) that unfolding bells_bounded_def w_def p_def by blast
  qed
  have less: "turns deadline (clock_floor (tr2 @ [get])) + (k - early (tr2 @ [get])) < fuel" if "t < deadline"
    unfolding floor early using turns_step[OF t that] Suc.prems bell by (auto split: if_splits)
  show ?case
  proof (cases "Option.bind (net_text (snd get)) (result_of_json sd)")
    case None
    have "fst (wait_loop (Suc fuel) sd jid deadline net tr) =
        (if deadline \<le> t then Some None
         else if net_wake w = Closed then fst (poll_until fuel sd jid deadline net (tr2 @ [get]))
         else fst (wait_loop fuel sd jid deadline net (tr2 @ [get])))"
      using None by (simp add: try_result_run run_simps get_def t_def tr1_def tr2_def p_def w_def)
    then show ?thesis
      using less Suc.IH[of "tr2 @ [get]"] poll_until_returns[OF assms(1), of deadline "tr2 @ [get]" fuel sd jid]
      by auto
  next
    case (Some a)
    then show ?thesis
      by (simp add: try_result_run run_simps get_def t_def tr1_def tr2_def p_def w_def)
  qed
qed simp

text \<open>Where the value of a wait comes from.\<close>

definition wait_ok ::
  "serde \<Rightarrow> string \<Rightarrow> nat \<Rightarrow> JobResult option option \<Rightarrow> net_trace \<Rightarrow> bool" where
  "wait_ok sd jid deadline res e \<longleftrightarrow>
     (\<forall>r. res = Some (Some r) \<longrightarrow> (\<exists>e0 ans json. e = e0 @ [(Cmd (GET (result_key jid)), ans)] \<and>
        net_text ans = Some json \<and> result_of_json sd json = Some r)) \<and>
     (res = Some None \<longrightarrow> (\<exists>e0 t. e = e0 @ [(Now, t)] \<and> deadline \<le> net_time t))"

lemma wait_ok_append: "wait_ok sd jid deadline res e \<Longrightarrow> wait_ok sd jid deadline res (a @ e)"
  unfolding wait_ok_def by (metis append_assoc)

lemma wait_ok_Cons: "wait_ok sd jid deadline res e \<Longrightarrow> wait_ok sd jid deadline res (x # e)"
  using wait_ok_append[of sd jid deadline res e "[x]"] by simp

lemma emits_try_result:
  "emits (try_result sd jid) (\<lambda>res e. \<exists>ans. e = [(Cmd (GET (result_key jid)), ans)] \<and>
     (\<forall>r. res = Some r \<longrightarrow> (\<exists>json. net_text ans = Some json \<and> result_of_json sd json = Some r)))"
  unfolding try_result_def by (rule emits_call_bindm) (auto intro!: emits_retm simp: bind_eq_Some_conv)

lemma emits_found:
  assumes "emits m (wait_ok sd jid deadline)"
  shows "emits (bindm (try_result sd jid) (\<lambda>res. case res of Some r \<Rightarrow> retm (Some (Some r)) | None \<Rightarrow> m))
    (wait_ok sd jid deadline)"
  by (rule emits_bindm_with[OF emits_try_result])
    (auto intro!: emits_retm emits_conseq[OF assms] wait_ok_Cons split: option.split simp: wait_ok_def[of _ _ _ "Some (Some _)"])

lemma emits_poll_until: "emits (poll_until fuel sd jid deadline) (wait_ok sd jid deadline)"
proof (induction fuel)
  case (Suc fuel)
  have pause: "emits (thenm (execm c) (poll_until fuel sd jid deadline)) (\<lambda>res e. wait_ok sd jid deadline res (x # e))"
    for c x
    by (intro emits_thenm emits_execm emits_conseq[OF Suc]) (auto intro: wait_ok_Cons)
  show ?case
    unfolding poll_until.simps
    by (rule emits_found, rule emits_call_bindm) (auto intro!: emits_retm pause simp: wait_ok_def[of _ _ _ "Some None"])
qed (auto intro!: emits_retm simp: wait_ok_def)

lemma emits_wait_loop: "emits (wait_loop fuel sd jid deadline) (wait_ok sd jid deadline)"
proof (induction fuel)
  case (Suc fuel)
  have woke: "emits (bindm (try_result sd jid) (\<lambda>res. case res of Some r \<Rightarrow> retm (Some (Some r))
      | None \<Rightarrow> if net_wake w = Closed then poll_until fuel sd jid deadline else wait_loop fuel sd jid deadline))
      (wait_ok sd jid deadline)" for w
    by (rule emits_found) (auto intro: emits_poll_until Suc)
  have timeout: "emits (retm (Some None)) (\<lambda>res e. wait_ok sd jid deadline res ((Now, t) # e))"
    if "deadline \<le> net_time t" for t
    using that by (auto intro!: emits_retm simp: wait_ok_def)
  show ?case
    unfolding wait_loop.simps
    by (rule emits_call_bindm)
      (simp add: timeout, intro impI emits_call_bindm emits_conseq[OF woke] wait_ok_Cons)
qed (auto intro!: emits_retm simp: wait_ok_def)

lemma emits_wait_for: "emits (wait_for fuel sd jid deadline) (wait_ok sd jid deadline)"
  unfolding wait_for_def by (rule emits_found) (rule emits_wait_loop)

lemma clock_floor_append: "clock_floor h \<le> clock_floor (h @ e)"
proof (induction e rule: rev_induct)
  case (snoc x e)
  have "t \<le> advance t y" for t y by (induction t y rule: advance.induct) auto
  with snoc show ?case by (metis append_assoc le_trans trace_snoc(1))
qed simp

lemma wait_for_ends:
  assumes "clock_sound net" "bells_bounded k net" "turns deadline (clock_floor tr) + k < fuel"
  shows "\<exists>res. fst (wait_for fuel sd jid deadline net tr) = Some res"
proof (cases "Option.bind (net_text (net tr (Cmd (GET (result_key jid))))) (result_of_json sd)")
  case None
  let ?get = "(Cmd (GET (result_key jid)), net tr (Cmd (GET (result_key jid))))"
  have "turns deadline (clock_floor (tr @ [?get])) + (k - early (tr @ [?get])) < fuel"
    using assms(3) by simp
  then show ?thesis
    using wait_loop_returns[OF assms(1,2)] None by (simp add: wait_for_def try_result_run)
qed (simp add: wait_for_def try_result_run run_simps)

text \<open>A wait for some time from a reading of the clock on.\<close>

lemma wait_for_within:
  assumes "clock_sound net" "bells_bounded k net" "(ms + 1999) div 2000 + k < fuel"
  shows "\<exists>res e'. wait_for fuel sd jid (net_time t + ms) net (tr @ (Now, t) # e) =
    (Some res, (tr @ (Now, t) # e) @ e')"
proof -
  let ?tr = "tr @ (Now, t) # e"
  have "net_time t \<le> clock_floor (tr @ [(Now, t)])" by simp
  also have "\<dots> \<le> clock_floor ?tr" using clock_floor_append[of "tr @ [(Now, t)]" e] by simp
  finally have "net_time t + ms - clock_floor ?tr \<le> ms" by simp
  then have "turns (net_time t + ms) (clock_floor ?tr) \<le> (ms + 1999) div 2000"
    unfolding turns_def by (intro div_le_mono) simp
  then have "\<exists>res. fst (wait_for fuel sd jid (net_time t + ms) net ?tr) = Some res"
    using assms by (intro wait_for_ends) auto
  moreover obtain v tr' where run: "wait_for fuel sd jid (net_time t + ms) net ?tr = (v, tr')" by fastforce
  moreover obtain e' where "tr' = ?tr @ e'" using emits_run[OF emits_wait_for run] by blast
  ultimately show ?thesis by auto
qed

section \<open>Facts about enqueueing\<close>

definition enqueued :: "serde \<Rightarrow> env \<Rightarrow> JobRequest \<Rightarrow> u64 \<Rightarrow> EnqueueOutcome \<Rightarrow> net_trace \<Rightarrow> bool" where
  "enqueued sd env request ttl out e \<longleftrightarrow>
     (let pipe = Piped (enqueue_pipe (JobRequest.job_id request) ttl);
          undo = Cmd (DEL (pending_key (JobRequest.job_id request))) in
      (out = Queued \<longleftrightarrow> list_ex (\<lambda>(c, r). is_xadd c \<and> net_ok r) e) \<and>
      (out = Duplicate \<longleftrightarrow> (\<exists>d. (pipe, Claim d None) \<in> set e)) \<and> (out = Duplicate \<longrightarrow> length e = 1) \<and>
      (\<forall>(c, r) \<in> set e. is_xadd c \<longrightarrow> (\<exists>json. job_to_json sd request = Some json \<and> c = Cmd (xadd_cmd env json))) \<and>
      (out = RedisDown \<longrightarrow> (\<exists>d s. (pipe, Claim d (Some s)) \<in> set e) \<longrightarrow> fst (last e) = undo))"

lemma is_xadd_xadd_cmd [simp]: "is_xadd (Cmd (xadd_cmd env json))"
  by (simp add: xadd_cmd_def Let_def)

lemma emits_enqueue: "emits (enqueue sd env request ttl) (enqueued sd env request ttl)"
proof (cases "job_to_json sd request")
  case None
  then show ?thesis by (auto simp: enqueue_def enqueued_def intro!: emits_retm)
next
  case (Some json)
  show ?thesis
    unfolding enqueue_def Some option.case
    by (rule emits_call_bindm) (auto intro!: emits_retm emits_call_bindm emits_thenm emits_execm
        simp: enqueued_def Some Let_def split: net_ret.split)
qed

section \<open>Properties\<close>

text \<open>
  C23: waiting for a result always ends. With a clock that does not go back and sleeps that last
  as long as asked, and at most \<open>k\<close> wake-ups by the bell, \<open>wait_for\<close> returns after at most
  one iteration per two seconds from the time reached to the deadline and one per wake-up. A result it returns
  was just read under the job's key, and it times out only after the clock has reached the
  deadline.
\<close>

theorem wait_for_returns:
  assumes "clock_sound net" "bells_bounded k net" "(deadline - clock_floor tr + 1999) div 2000 + k < fuel"
  shows "\<exists>res e. wait_for fuel sd jid deadline net tr = (Some res, tr @ e) \<and>
    (\<forall>r. res = Some r \<longrightarrow> (\<exists>e0 ans json. e = e0 @ [(Cmd (GET (result_key jid)), ans)] \<and>
       net_text ans = Some json \<and> result_of_json sd json = Some r)) \<and>
    (res = None \<longrightarrow> (\<exists>e0 t. e = e0 @ [(Now, t)] \<and> deadline \<le> net_time t))"
proof -
  obtain res where res: "fst (wait_for fuel sd jid deadline net tr) = Some res"
    using wait_for_ends[OF assms(1,2), unfolded turns_def, OF assms(3)] by blast
  obtain v tr' where run: "wait_for fuel sd jid deadline net tr = (v, tr')" by fastforce
  obtain e where e: "tr' = tr @ e" "wait_ok sd jid deadline v e"
    using emits_run[OF emits_wait_for run] by blast
  have v: "v = Some res" using res run by simp
  show ?thesis
    by (rule exI[of _ res], rule exI[of _ e]) (use e run in \<open>simp add: v wait_ok_def\<close>)
qed

definition idle_net :: net where
  "idle_net h c = (case c of Now \<Rightarrow> Time (clock_floor h) | Select_bell n \<Rightarrow> Woken Slept | _ \<Rightarrow> Text None)"

theorem wait_for_returns_witness:
  "\<exists>res e. wait_for 4 sample_serde ''j'' 5000 idle_net [] = (Some res, e)"
  using wait_for_returns[of idle_net 0 5000 "[]" 4 sample_serde "''j''"]
  by (auto simp: clock_sound_def bells_bounded_def idle_net_def clock_floor_def)

text \<open>
  C11: the registry of waiters refines the multiset of the waits in progress: in every state
  that concurrent waits can reach, the bell of a job wakes exactly the receivers of the waits
  for it that have not ended, so no waiter's channel is ever closed or dropped from the map
  while it waits.
\<close>

theorem registry_refines:
  assumes "bus_step\<^sup>*\<^sup>* bus_new b"
  shows "woken (waiters b) j = count (live b + ending b) j \<and>
    (j \<in># live b + ending b \<longrightarrow> waiters b j \<noteq> None)"
proof -
  have "woken (waiters b) j = count (live b + ending b) j"
    using bus_inv_reachable[OF assms] by (simp add: bus_inv_def)
  moreover have "waiters b j \<noteq> None" if "j \<in># live b + ending b"
  proof
    assume "waiters b j = None"
    then have "count (live b + ending b) j = 0" using calculation by (simp add: woken_def)
    then show False using that by (simp add: count_eq_zero_iff)
  qed
  ultimately show ?thesis by blast
qed

definition one_wait :: "bus list" where
  "one_wait =
     [bus_new,
      \<lparr> waiters = [''j'' \<mapsto> 1], live = {#''j''#}, ending = {#} \<rparr>,
      \<lparr> waiters = [''j'' \<mapsto> 1], live = {#}, ending = {#''j''#} \<rparr>,
      \<lparr> waiters = [''j'' \<mapsto> 0], live = {#}, ending = {#} \<rparr>]"

lemma one_wait_steps:
  "bus_step (one_wait ! 0) (one_wait ! 1)" "bus_step (one_wait ! 1) (one_wait ! 2)"
  "bus_step (one_wait ! 2) (one_wait ! 3)"
  using start_wait[of "one_wait ! 0" "''j''"] drop_guard[of "''j''" "one_wait ! 1"]
    drop_receiver[of "''j''" "one_wait ! 2"]
  by (simp_all add: one_wait_def bus_new_def register_waiter_def guard_drop_def receiver_drop_def)

theorem registry_refines_witness:
  "\<exists>b. bus_step\<^sup>*\<^sup>* bus_new b \<and> woken (waiters b) ''j'' = 1"
proof -
  have run: "bus_step\<^sup>*\<^sup>* bus_new (one_wait ! 1)"
    using one_wait_steps(1) by (simp add: one_wait_def r_into_rtranclp)
  show ?thesis
    using run registry_refines[OF run, of "''j''"] by (intro exI[of _ "one_wait ! 1"]) (simp add: one_wait_def)
qed

text \<open>
  C38: the guard never removes an entry. It is dropped before the receiver of the same wait, so
  it always finds a receiver, and every job id that was ever waited for stays in the map.
\<close>

theorem registry_leaks:
  assumes "bus_step\<^sup>*\<^sup>* bus_new b" "bus_step\<^sup>*\<^sup>* b b'" "waiters b j \<noteq> None"
  shows "waiters b' j \<noteq> None"
  using assms(2,3)
proof (induction rule: rtranclp_induct)
  case (step y z)
  have "bus_inv y"
    using assms(1) step(1) by (intro bus_inv_reachable) (rule rtranclp_trans)
  then show ?case using bus_step_dom[OF step(2)] step(3,4) by auto
qed

theorem registry_leaks_witness:
  "\<exists>b. bus_step\<^sup>*\<^sup>* bus_new b \<and> live b = {#} \<and> ending b = {#} \<and> waiters b ''j'' \<noteq> None"
proof -
  have a: "bus_step\<^sup>*\<^sup>* bus_new (one_wait ! 1)"
    using one_wait_steps(1) by (simp add: one_wait_def r_into_rtranclp)
  have b: "bus_step\<^sup>*\<^sup>* (one_wait ! 1) (one_wait ! 3)"
    using one_wait_steps(2,3) by (meson r_into_rtranclp rtranclp.rtrancl_into_rtrancl)
  show ?thesis
    using rtranclp_trans[OF a b] registry_leaks[OF a b, of "''j''"]
    by (intro exI[of _ "one_wait ! 3"]) (simp add: one_wait_def)
qed

text \<open>
  Enqueueing is all or nothing as far as the server answers. \<open>Queued\<close> means exactly that an
  \<open>XADD\<close> of the job's own JSON was accepted; \<open>Duplicate\<close> exactly that the pending marker was
  already there, and then nothing is added; and when the marker was claimed but the \<open>XADD\<close>
  failed, the last thing done is to delete the marker again.
\<close>

lemma enqueue_exact:
  assumes "enqueue sd env request ttl net tr = (out, tr')"
  shows "\<exists>e. tr' = tr @ e \<and> enqueued sd env request ttl out e"
  using emits_run[OF emits_enqueue assms] .

lemma enqueue_exact_witness:
  "\<exists>e. enqueue sample_serde (\<lambda>_. None) (new_request ''j'' ''c'' [] 1 1 []) 660
      (\<lambda>_ c. case c of Piped p \<Rightarrow> Claim 0 (Some ''OK'') | _ \<Rightarrow> Done) [] = (Queued, e) \<and>
    list_ex (\<lambda>(c, r). is_xadd c \<and> net_ok r) e"
proof -
  let ?net = "\<lambda>_ c. case c of Piped p \<Rightarrow> Claim 0 (Some ''OK'') | _ \<Rightarrow> Done"
  let ?r = "new_request ''j'' ''c'' [] 1 1 []"
  obtain e where run: "enqueue sample_serde (\<lambda>_. None) ?r 660 ?net [] = (Queued, e)"
    by (simp add: enqueue_def sample_serde_def bindm_def callm_def retm_def Let_def)
  show ?thesis using run enqueue_exact[OF run] by (auto simp: enqueued_def)
qed

text \<open>
  C12: what the gateway enqueues is what a worker runs: the stream entry made of the field and
  the value of the \<open>XADD\<close> of a request, delivered with any message id, makes the consumer
  start a task with that very request as soon as it has a permit.
\<close>

theorem enqueue_consume_roundtrip:
  assumes "serde_codec sd" "job_to_json sd request = Some json"
    and "xadd_cmd env json = XADD stream n field payload"
    and "net_ok (net tr Try_acquire)"
  shows "\<exists>r. consume_message sd
      (ArrayV [BulkStringV mid, ArrayV [BulkStringV field, BulkStringV payload]]) net tr =
    ((), tr @ [(Try_acquire, net tr Try_acquire), (Spawn_process (from_utf8_lossy mid) request, r)])"
proof -
  have fp: "field = ''job''" "payload = json"
    using assms(3) by (auto simp: xadd_cmd_def Let_def)
  have "from_utf8_lossy json = json" "job_of_json sd json = Inr request"
    using assms(1,2) by (simp_all add: serde_codec_def)
  then show ?thesis
    using assms(4) fp
    by (simp add: consume_message_def entry_of_def extract_job_field_def from_utf8_lossy_ascii
        bindm_def callm_def execm_def retm_def Let_def del: from_utf8_lossy.simps)
qed

theorem enqueue_consume_roundtrip_witness:
  "\<exists>r. consume_message sample_serde
      (ArrayV [BulkStringV ''1-0'', ArrayV [BulkStringV ''job'', BulkStringV ''{}'']]) (\<lambda>_ _. Done) [] =
    ((), [(Try_acquire, Done), (Spawn_process ''1-0'' (new_request ''j'' ''c'' [] 1 1 []), r)])"
  using enqueue_consume_roundtrip[OF sample.serde_codec_axioms, of "new_request ''j'' ''c'' [] 1 1 []" "''{}''"
      "\<lambda>_. None" "''judge:jobs''" "Some 10000" "''job''" "''{}''" "\<lambda>_ _. Done" "[]" "''1-0''"]
  by (simp add: sample_serde_def xadd_cmd_def stream_maxlen_def from_utf8_lossy_ascii
      del: from_utf8_lossy.simps)

end
