(* ===== verification/Cluster.thy ===== *)
theory Cluster
  imports Result_Bus "HOL-Library.Sublist"
begin

text \<open>
  The gateway, the workers and the sweep together, as they interleave on one Redis server:
  \<open>src/api/result_bus.rs\<close> and \<open>src/queue/redis.rs\<close>. Every Redis command is one atomic step; a
  pipe is not a transaction, so the commands of other clients may come between its own. The
  commands are the ones the sequential models send: \<open>enqueue_pipe\<close>, \<open>xadd_cmd\<close>, \<open>publish_pipe\<close>
  and \<open>ack_pipe\<close>. A client may crash or lose its connection at any point.

  The server is a parameter \<open>srv\<close>, a relation between a command, the data before, the reply and
  the data after. The locale \<open>redis_server\<close> states what the code relies on: a reply and a
  change of the data that the documentation of the commands allows. Any command may be
  refused with an error, for instance for lack of memory (the server is shipped with a
  memory limit and the policy \<open>noeviction\<close>); then it changes nothing, and the commands after it
  in a pipe are still executed.
\<close>

section \<open>The server\<close>

text \<open>
  The data the judge keeps in Redis: string keys, the stream of jobs with the ids it has
  given out, the undelivered ids of the consumer group (none before it is created), its
  pending entries list, and the bells published so far.
\<close>

record redis_db =
  strs :: "string \<Rightarrow> string option"
  entries :: "(string \<times> string \<times> string) list"
  used :: "string set"
  unread :: "string list option"
  pel :: "string set"
  rung :: "string list"

definition entry_value :: "string \<times> string \<times> string \<Rightarrow> redis_value" where
  "entry_value = (\<lambda>(m, f, v). ArrayV [BulkStringV m, ArrayV [BulkStringV f, BulkStringV v]])"

definition ids :: "redis_db \<Rightarrow> string set" where
  "ids d = fst ` set (entries d)"

text \<open>
  The documented effect of a command. A group that is created with \<open>$\<close> gets the entries added
  from then on, one created with \<open>0\<close> all of the stream. \<open>XADD\<close> may trim old entries when it is given a length;
  \<open>XAUTOCLAIM\<close> returns some pending entries and drops pending ids whose entry is gone.
\<close>

inductive redis_doc :: "redis_cmd \<Rightarrow> redis_db \<Rightarrow> net_ret \<Rightarrow> redis_db \<Rightarrow> bool" where
  doc_get: "redis_doc (GET k) d (Text (strs d k)) d"
| doc_set: "redis_doc (SET k v ttl False) d Done (d\<lparr>strs := (strs d)(k \<mapsto> v)\<rparr>)"
| doc_set_nx: "strs d k = None \<Longrightarrow>
    redis_doc (SET k v ttl True) d (Text (Some ''OK'')) (d\<lparr>strs := (strs d)(k \<mapsto> v)\<rparr>)"
| doc_set_nx_taken: "strs d k \<noteq> None \<Longrightarrow> redis_doc (SET k v ttl True) d (Text None) d"
| doc_del: "redis_doc (DEL k) d Done (d\<lparr>strs := (strs d)(k := None)\<rparr>)"
| doc_exists: "redis_doc (EXISTS k) d (Flag (strs d k \<noteq> None)) d"
| doc_xadd: "m \<notin> used d \<Longrightarrow> \<forall>c \<in> set m. (of_char c :: nat) < 128 \<Longrightarrow>
    es = drop n (entries d @ [(m, f, v)]) \<Longrightarrow> (n \<noteq> 0 \<longrightarrow> maxlen \<noteq> None) \<Longrightarrow>
    redis_doc (XADD s maxlen f v) d (Text (Some m))
      (d\<lparr>entries := es, used := insert m (used d),
         unread := map_option (\<lambda>u. filter (\<lambda>i. i \<in> fst ` set es) (u @ [m])) (unread d)\<rparr>)"
| doc_xack: "redis_doc (XACK s g m) d Done (d\<lparr>pel := pel d - {m}\<rparr>)"
| doc_publish: "redis_doc (PUBLISH ch msg) d Done (d\<lparr>rung := rung d @ [msg]\<rparr>)"
| doc_group_end: "unread d = None \<Longrightarrow>
    redis_doc (XGROUP_CREATE s g ''$'' mk) d Done (d\<lparr>unread := Some []\<rparr>)"
| doc_group_start: "unread d = None \<Longrightarrow> start \<in> {''0'', ''0-0''} \<Longrightarrow>
    redis_doc (XGROUP_CREATE s g start mk) d Done (d\<lparr>unread := Some (map fst (entries d))\<rparr>)"
| doc_read: "unread d = Some u \<Longrightarrow> n \<le> cnt \<Longrightarrow>
    redis_doc (XREADGROUP g nm blk cnt s) d
      (Value (ArrayV [ArrayV [BulkStringV s,
        ArrayV (map entry_value (filter (\<lambda>(m, _). m \<in> set (take n u)) (entries d)))]]))
      (d\<lparr>unread := Some (drop n u), pel := pel d \<union> set (take n u)\<rparr>)"
| doc_claim: "I \<subseteq> pel d \<Longrightarrow> G \<subseteq> pel d - ids d \<Longrightarrow>
    redis_doc (XAUTOCLAIM s g nm idle cur cnt) d
      (Value (ArrayV [BulkStringV cur',
        ArrayV (map entry_value (filter (\<lambda>(m, _). m \<in> I) (entries d)))]))
      (d\<lparr>pel := pel d - G\<rparr>)"
| doc_refused: "redis_doc c d (Refused msg) d"

locale redis_server =
  fixes srv :: "redis_cmd \<Rightarrow> redis_db \<Rightarrow> net_ret \<Rightarrow> redis_db \<Rightarrow> bool"
  assumes documented: "srv c d r d' \<Longrightarrow> redis_doc c d r d'"

section \<open>The clients\<close>

text \<open>
  Where a client is: an enqueue before each of its commands, a task of a worker that runs a
  message's job, a task with the rest of its publishing pipe, and a reclaimed message before
  its look-up, with the rest of its acknowledging pipe, or about to be discarded as garbled. The
  flag of a pipe says that no command of it has been refused so far.
\<close>

datatype agent =
    Enq_del JobRequest u64
  | Enq_claim JobRequest u64 bool
  | Enq_add JobRequest
  | Enq_undo JobRequest
  | Run string JobRequest
  | Publish string JobRequest JobResult "redis_cmd list" bool
  | Look string JobRequest
  | Reack string JobRequest "redis_cmd list" bool
  | Discard string

text \<open>
  The state: the server's data and the clients. The other fields only record what has
  happened: the accepted \<open>XADD\<close>s, the ids added before the consumer group existed, the jobs
  whose result has been stored at some time and those for which the server refused to store
  it, the outcomes of the enqueues, and whether a client or a connection failed, a command was
  refused or a key expired.
\<close>

record cluster =
  db :: redis_db
  agents :: "agent multiset"
  added :: "(string \<times> JobRequest) set"
  missed :: "string set"
  stored :: "string set"
  refused :: "string set"
  outcomes :: "(string \<times> EnqueueOutcome) list"
  faulty :: bool

definition cluster_new :: cluster where
  "cluster_new =
     \<lparr> db = \<lparr> strs = Map.empty, entries = [], used = {}, unread = None, pel = {}, rung = [] \<rparr>,
       agents = {#}, added = {}, missed = {}, stored = {}, refused = {}, outcomes = [], faulty = False \<rparr>"

definition become :: "agent \<Rightarrow> agent \<Rightarrow> agent multiset \<Rightarrow> agent multiset" where
  "become a b m = add_mset b (m - {#a#})"

text \<open>The job of a message, as both loops of the consumer read it.\<close>

definition parsed :: "serde \<Rightarrow> redis_value \<Rightarrow> (string \<times> JobRequest) option" where
  "parsed sd msg =
     Option.bind (entry_of msg) (\<lambda>(m, flds).
     Option.bind (extract_job_field flds) (\<lambda>j.
     case job_of_json sd j of Inr r \<Rightarrow> Some (m, r) | Inl e \<Rightarrow> None))"

definition garbled :: "serde \<Rightarrow> redis_value \<Rightarrow> string option" where
  "garbled sd msg =
     Option.bind (entry_of msg) (\<lambda>(m, flds). if parsed sd msg = None then Some m else None)"

text \<open>
  The steps. A request is enqueued by the handlers, so it has an id. The reply of an accepted
  \<open>XADD\<close> can get lost, and then the enqueue takes it for failed. A worker keeps the id of a
  request that has one. \<open>publish_again\<close> and \<open>reack_again\<close> are a new attempt after a lost
  connection or a refused command, \<open>fail\<close> is a client that crashes or gives up, and \<open>expire\<close>
  the end of a time to live.
\<close>

inductive cluster_step ::
  "(redis_cmd \<Rightarrow> redis_db \<Rightarrow> net_ret \<Rightarrow> redis_db \<Rightarrow> bool) \<Rightarrow> serde \<Rightarrow> env \<Rightarrow> RedisConsumer \<Rightarrow>
   cluster \<Rightarrow> cluster \<Rightarrow> bool" for srv sd env c where
  submit: "JobRequest.job_id r \<noteq> [] \<Longrightarrow> job_to_json sd r \<noteq> None \<Longrightarrow>
    cluster_step srv sd env c s (s\<lparr>agents := add_mset (Enq_del r ttl) (agents s)\<rparr>)"
| enq_del: "Enq_del r ttl \<in># agents s \<Longrightarrow>
    srv (enqueue_pipe (JobRequest.job_id r) ttl ! 0) (db s) a d \<Longrightarrow>
    cluster_step srv sd env c s (s\<lparr>db := d,
      agents := become (Enq_del r ttl) (Enq_claim r ttl (net_ok a)) (agents s),
      faulty := faulty s \<or> \<not> net_ok a\<rparr>)"
| enq_claimed: "Enq_claim r ttl True \<in># agents s \<Longrightarrow>
    srv (enqueue_pipe (JobRequest.job_id r) ttl ! 1) (db s) (Text (Some v)) d \<Longrightarrow>
    cluster_step srv sd env c s (s\<lparr>db := d,
      agents := become (Enq_claim r ttl True) (Enq_add r) (agents s)\<rparr>)"
| enq_duplicate: "Enq_claim r ttl True \<in># agents s \<Longrightarrow>
    srv (enqueue_pipe (JobRequest.job_id r) ttl ! 1) (db s) (Text None) d \<Longrightarrow>
    cluster_step srv sd env c s (s\<lparr>db := d, agents := agents s - {#Enq_claim r ttl True#},
      outcomes := outcomes s @ [(JobRequest.job_id r, Duplicate)]\<rparr>)"
| enq_down: "Enq_claim r ttl ok \<in># agents s \<Longrightarrow>
    srv (enqueue_pipe (JobRequest.job_id r) ttl ! 1) (db s) a d \<Longrightarrow> \<not> (ok \<and> net_ok a) \<Longrightarrow>
    cluster_step srv sd env c s (s\<lparr>db := d, agents := agents s - {#Enq_claim r ttl ok#},
      outcomes := outcomes s @ [(JobRequest.job_id r, RedisDown)], faulty := True\<rparr>)"
| enq_added: "Enq_add r \<in># agents s \<Longrightarrow> job_to_json sd r = Some json \<Longrightarrow>
    srv (xadd_cmd env json) (db s) (Text (Some m)) d \<Longrightarrow>
    cluster_step srv sd env c s (s\<lparr>db := d, agents := agents s - {#Enq_add r#},
      added := insert (m, r) (added s),
      missed := (if unread (db s) = None then insert m (missed s) else missed s),
      outcomes := outcomes s @ [(JobRequest.job_id r, Queued)]\<rparr>)"
| enq_added_lost: "Enq_add r \<in># agents s \<Longrightarrow> job_to_json sd r = Some json \<Longrightarrow>
    srv (xadd_cmd env json) (db s) (Text (Some m)) d \<Longrightarrow>
    cluster_step srv sd env c s (s\<lparr>db := d, agents := become (Enq_add r) (Enq_undo r) (agents s),
      added := insert (m, r) (added s),
      missed := (if unread (db s) = None then insert m (missed s) else missed s), faulty := True\<rparr>)"
| enq_failed: "Enq_add r \<in># agents s \<Longrightarrow>
    cluster_step srv sd env c s (s\<lparr>agents := become (Enq_add r) (Enq_undo r) (agents s), faulty := True\<rparr>)"
| enq_undo: "Enq_undo r \<in># agents s \<Longrightarrow> srv (DEL (pending_key (JobRequest.job_id r))) (db s) a d \<Longrightarrow>
    cluster_step srv sd env c s (s\<lparr>db := d, agents := agents s - {#Enq_undo r#},
      outcomes := outcomes s @ [(JobRequest.job_id r, RedisDown)]\<rparr>)"
| create_group: "srv (group_cmd c) (db s) a d \<Longrightarrow> cluster_step srv sd env c s (s\<lparr>db := d\<rparr>)"
| read: "srv (XREADGROUP (consumer_group c) nm 2000 n (stream_key c)) (db s) (Value (ArrayV ks)) d \<Longrightarrow>
    cluster_step srv sd env c s (s\<lparr>db := d, agents := agents s +
      mset (map (\<lambda>(m, r). Run m r) (List.map_filter (parsed sd) (concat (map stream_messages ks))))\<rparr>)"
| report: "Run m r \<in># agents s \<Longrightarrow>
    (JobRequest.job_id r \<noteq> [] \<longrightarrow> JobResult.job_id res = JobRequest.job_id r) \<Longrightarrow>
    cluster_step srv sd env c s (s\<lparr>agents := become (Run m r)
      (Publish m r res (report_pipe sd c ttl m res) True) (agents s)\<rparr>)"
| publish: "Publish m r res (cmd # cmds) ok \<in># agents s \<Longrightarrow> srv cmd (db s) a d \<Longrightarrow>
    cluster_step srv sd env c s (s\<lparr>db := d,
      agents := become (Publish m r res (cmd # cmds) ok) (Publish m r res cmds (ok \<and> net_ok a)) (agents s),
      stored := stored s \<union> {j. net_ok a \<and> (\<exists>v ttl. cmd = SET (result_key j) v ttl False)},
      refused := refused s \<union> {j. \<not> net_ok a \<and> (\<exists>v ttl. cmd = SET (result_key j) v ttl False)},
      faulty := faulty s \<or> \<not> net_ok a\<rparr>)"
| publish_again: "Publish m r res cmds ok \<in># agents s \<Longrightarrow> \<not> (cmds = [] \<and> ok) \<Longrightarrow>
    cluster_step srv sd env c s (s\<lparr>agents := become (Publish m r res cmds ok)
      (Publish m r res (report_pipe sd c ttl m res) True) (agents s), faulty := True\<rparr>)"
| reclaim: "srv (XAUTOCLAIM (stream_key c) (consumer_group c) nm idle cur 32) (db s)
      (Value (ArrayV (nxt # ArrayV msgs # rest))) d \<Longrightarrow>
    cluster_step srv sd env c s (s\<lparr>db := d, agents := agents s +
      mset (map (\<lambda>(m, r). Look m r) (List.map_filter (parsed sd) msgs)) +
      mset (map Discard (List.map_filter (garbled sd) msgs))\<rparr>)"
| discard: "Discard m \<in># agents s \<Longrightarrow> srv (XACK (stream_key c) (consumer_group c) m) (db s) a d \<Longrightarrow>
    cluster_step srv sd env c s (s\<lparr>db := d, agents := agents s - {#Discard m#}\<rparr>)"
| reclaim_hit: "Look m r \<in># agents s \<Longrightarrow>
    srv (GET (result_key (JobRequest.job_id r))) (db s) (Text (Some v)) d \<Longrightarrow>
    cluster_step srv sd env c s (s\<lparr>db := d, agents := become (Look m r)
      (Reack m r (ack_pipe c m (JobRequest.job_id r)) True) (agents s)\<rparr>)"
| reclaim_miss: "Look m r \<in># agents s \<Longrightarrow>
    srv (GET (result_key (JobRequest.job_id r))) (db s) a d \<Longrightarrow> net_text a = None \<Longrightarrow>
    cluster_step srv sd env c s (s\<lparr>db := d, agents := become (Look m r) (Run m r) (agents s),
      faulty := faulty s \<or> \<not> net_ok a\<rparr>)"
| reack: "Reack m r (cmd # cmds) ok \<in># agents s \<Longrightarrow> srv cmd (db s) a d \<Longrightarrow>
    cluster_step srv sd env c s (s\<lparr>db := d,
      agents := become (Reack m r (cmd # cmds) ok) (Reack m r cmds (ok \<and> net_ok a)) (agents s),
      faulty := faulty s \<or> \<not> net_ok a\<rparr>)"
| reack_again: "Reack m r cmds ok \<in># agents s \<Longrightarrow> \<not> (cmds = [] \<and> ok) \<Longrightarrow>
    cluster_step srv sd env c s (s\<lparr>agents := become (Reack m r cmds ok)
      (Reack m r (ack_pipe c m (JobRequest.job_id r)) True) (agents s), faulty := True\<rparr>)"
| finish: "a \<in># agents s \<Longrightarrow> (\<exists>m r res. a \<in> {Publish m r res [] True, Reack m r [] True}) \<Longrightarrow>
    cluster_step srv sd env c s (s\<lparr>agents := agents s - {#a#}\<rparr>)"
| fail: "a \<in># agents s \<Longrightarrow> cluster_step srv sd env c s (s\<lparr>agents := agents s - {#a#}, faulty := True\<rparr>)"
| expire: "cluster_step srv sd env c s
    (s\<lparr>db := (db s)\<lparr>strs := (strs (db s))(k := None)\<rparr>, faulty := True\<rparr>)"

section \<open>The sequential models take these steps\<close>

text \<open>The tasks that the consumer starts for a message are those of the step relation.\<close>

lemma consume_starts_parsed:
  "emits (consume_message sd msg) (\<lambda>_ e. \<forall>m r a. (Spawn_process m r, a) \<in> set e \<longrightarrow> parsed sd msg = Some (m, r))"
proof (cases "parsed sd msg")
  case None
  then have "consume_message sd msg = retm ()"
    by (auto simp: consume_message_def parsed_def split: option.splits sum.splits prod.splits Option.bind_splits)
  then show ?thesis by (auto intro!: emits_retm)
next
  case (Some mr)
  then obtain m r where "parsed sd msg = Some (m, r)" by (cases mr) auto
  moreover from this have "consume_message sd msg = bindm (callm Try_acquire) (\<lambda>a.
      if net_ok a then execm (Spawn_process m r)
      else bindm (callm Acquire) (\<lambda>b. if net_ok b then execm (Spawn_process m r) else retm ()))"
    by (auto simp: consume_message_def parsed_def split: option.splits sum.splits prod.splits Option.bind_splits)
  ultimately show ?thesis by (auto intro!: emits_call_bindm emits_execm emits_retm)
qed

section \<open>The invariant\<close>

inductive_simps redis_doc_simps:
  "redis_doc (GET k) d r d'" "redis_doc (SET k v ttl False) d r d'" "redis_doc (SET k v ttl True) d r d'"
  "redis_doc (DEL k) d r d'" "redis_doc (XADD s maxlen f v) d r d'" "redis_doc (XACK s g m) d r d'"
  "redis_doc (PUBLISH ch msg) d r d'" "redis_doc (XGROUP_CREATE s g ''$'' mk) d r d'"
  "redis_doc (XREADGROUP g nm blk cnt s) d r d'" "redis_doc (XAUTOCLAIM s g nm idle cur cnt) d r d'"

lemma keys_differ [simp]: "pending_key i \<noteq> result_key j" "result_key i = result_key j \<longleftrightarrow> i = j"
  by (simp_all add: pending_key_def result_key_def)

text \<open>What a client may rely on.\<close>

fun agent_ok :: "RedisConsumer \<Rightarrow> (string \<times> JobRequest) set \<Rightarrow> string set \<Rightarrow> agent \<Rightarrow> bool" where
  "agent_ok c A S (Run m r) \<longleftrightarrow> (m, r) \<in> A"
| "agent_ok c A S (Look m r) \<longleftrightarrow> (m, r) \<in> A"
| "agent_ok c A S (Publish m r res cmds ok) \<longleftrightarrow> (m, r) \<in> A \<and> JobResult.job_id res = JobRequest.job_id r \<and>
     (\<exists>json ttl. suffix cmds (publish_pipe c m (JobRequest.job_id r) json ttl)) \<and>
     (length cmds < 4 \<longrightarrow> JobRequest.job_id r \<in> S)"
| "agent_ok c A S (Reack m r cmds ok) \<longleftrightarrow> (m, r) \<in> A \<and> JobRequest.job_id r \<in> S \<and>
     suffix cmds (ack_pipe c m (JobRequest.job_id r))"
| "agent_ok c A S (Discard m) \<longleftrightarrow> False"
| "agent_ok c A S (Enq_del r ttl) \<longleftrightarrow> JobRequest.job_id r \<noteq> []"
| "agent_ok c A S (Enq_claim r ttl ok) \<longleftrightarrow> JobRequest.job_id r \<noteq> []"
| "agent_ok c A S (Enq_add r) \<longleftrightarrow> JobRequest.job_id r \<noteq> []"
| "agent_ok c A S (Enq_undo r) \<longleftrightarrow> JobRequest.job_id r \<noteq> []"

lemma agent_ok_mono: "agent_ok c A S a \<Longrightarrow> A \<subseteq> A' \<Longrightarrow> S \<subseteq> S' \<Longrightarrow> agent_ok c A' S' a"
  by (cases a) auto

text \<open>
  A message is accounted for: it was added before there was a group, is still to be delivered
  or being worked on, is answered, or was trimmed.
\<close>

definition accounted :: "redis_db \<Rightarrow> string set \<Rightarrow> string set \<Rightarrow> string \<times> JobRequest \<Rightarrow> bool" where
  "accounted d M S mr \<longleftrightarrow>
     fst mr \<in> M \<or> (\<exists>u. unread d = Some u \<and> fst mr \<in> set u) \<or> fst mr \<in> pel d \<or>
     JobRequest.job_id (snd mr) \<in> S \<or> fst mr \<notin> ids d"

definition entry_ok :: "serde \<Rightarrow> (string \<times> JobRequest) set \<Rightarrow> string \<times> string \<times> string \<Rightarrow> bool" where
  "entry_ok sd A e \<longleftrightarrow> (case e of (m, f, v) \<Rightarrow> f = ''job'' \<and> (\<forall>ch \<in> set m. (of_char ch :: nat) < 128) \<and>
     (\<exists>r. (m, r) \<in> A \<and> job_to_json sd r = Some v))"

definition results_ok :: "redis_db \<Rightarrow> string set \<Rightarrow> bool" where
  "results_ok d S \<longleftrightarrow> (\<forall>j. strs d (result_key j) \<noteq> None \<longrightarrow> j \<in> S) \<and> set (rung d) \<subseteq> S"

definition functional :: "(string \<times> JobRequest) set \<Rightarrow> bool" where
  "functional A \<longleftrightarrow> (\<forall>m r r'. (m, r) \<in> A \<longrightarrow> (m, r') \<in> A \<longrightarrow> r = r')"

definition named :: "(string \<times> JobRequest) set \<Rightarrow> bool" where
  "named A \<longleftrightarrow> (\<forall>(m, r) \<in> A. JobRequest.job_id r \<noteq> [])"

definition db_ok :: "serde \<Rightarrow> redis_db \<Rightarrow> (string \<times> JobRequest) set \<Rightarrow> string set \<Rightarrow> string set \<Rightarrow> bool" where
  "db_ok sd d A M S \<longleftrightarrow> list_all (entry_ok sd A) (entries d) \<and> functional A \<and> named A \<and> fst ` A = used d \<and>
     results_ok d S \<and> (\<forall>mr \<in> A. accounted d M S mr)"

definition agents_ok :: "RedisConsumer \<Rightarrow> (string \<times> JobRequest) set \<Rightarrow> string set \<Rightarrow> agent multiset \<Rightarrow> bool" where
  "agents_ok c A S m \<longleftrightarrow> (\<forall>a \<in># m. agent_ok c A S a)"

text \<open>The jobs whose report has got past the command that stores the result.\<close>

definition settled :: "cluster \<Rightarrow> string set" where
  "settled s = stored s \<union> refused s"

lemma settled_frame [simp]:
  "settled (s\<lparr>db := d\<rparr>) = settled s" "settled (s\<lparr>agents := m\<rparr>) = settled s" "settled (s\<lparr>added := A\<rparr>) = settled s"
  "settled (s\<lparr>missed := M\<rparr>) = settled s" "settled (s\<lparr>outcomes := out\<rparr>) = settled s" "settled (s\<lparr>faulty := b\<rparr>) = settled s"
  by (simp_all add: settled_def)

lemma settled_publish:
  "settled (t\<lparr>stored := stored s \<union> {j. ok \<and> P j}, refused := refused s \<union> {j. \<not> ok \<and> P j}\<rparr>) =
     settled s \<union> {j. P j}"
  by (auto simp: settled_def)

definition cluster_inv :: "serde \<Rightarrow> RedisConsumer \<Rightarrow> cluster \<Rightarrow> bool" where
  "cluster_inv sd c s \<longleftrightarrow>
     agents_ok c (added s) (settled s) (agents s) \<and>
     db_ok sd (db s) (added s) (missed s) (settled s)"

lemma accounted_frame [simp]:
  "accounted (d\<lparr>strs := f\<rparr>) M S mr = accounted d M S mr" "accounted (d\<lparr>rung := b\<rparr>) M S mr = accounted d M S mr"
  "results_ok (d\<lparr>pel := p\<rparr>) S = results_ok d S" "results_ok (d\<lparr>unread := u\<rparr>) S = results_ok d S"
  "results_ok (d\<lparr>entries := es\<rparr>) S = results_ok d S" "results_ok (d\<lparr>used := us\<rparr>) S = results_ok d S"
  by (simp_all add: accounted_def ids_def results_ok_def)

lemma accounted_more: "accounted d M S mr \<Longrightarrow> S \<subseteq> S' \<Longrightarrow> accounted d M S' mr"
  by (auto simp: accounted_def)

lemma db_ok_more: "db_ok sd d A M S \<Longrightarrow> S \<subseteq> S' \<Longrightarrow> db_ok sd d A M S'"
  by (auto simp: db_ok_def results_ok_def intro: accounted_more)

lemma db_ok_strs:
  "db_ok sd d A M S \<Longrightarrow> (\<And>j. f (result_key j) \<noteq> None \<Longrightarrow> strs d (result_key j) \<noteq> None \<or> j \<in> S) \<Longrightarrow>
   db_ok sd (d\<lparr>strs := f\<rparr>) A M S"
  unfolding db_ok_def results_ok_def by simp blast

lemma db_ok_set:
  "db_ok sd d A M S \<Longrightarrow> db_ok sd (d\<lparr>strs := (strs d)(k := None)\<rparr>) A M S"
  "db_ok sd d A M S \<Longrightarrow> db_ok sd (d\<lparr>strs := (strs d)(pending_key j \<mapsto> v)\<rparr>) A M S"
  "db_ok sd d A M S \<Longrightarrow> j \<in> S \<Longrightarrow> db_ok sd (d\<lparr>strs := (strs d)(result_key j \<mapsto> v)\<rparr>) A M S"
  by (rule db_ok_strs, simp, simp split: if_splits add: keys_differ(1)[symmetric])+

lemma db_ok_publish: "db_ok sd d A M S \<Longrightarrow> j \<in> S \<Longrightarrow> db_ok sd (d\<lparr>rung := rung d @ [j]\<rparr>) A M S"
  by (auto simp: db_ok_def results_ok_def)

lemma db_ok_ack:
  assumes "db_ok sd d A M S" "(m, r) \<in> A" "JobRequest.job_id r \<in> S"
  shows "db_ok sd (d\<lparr>pel := pel d - {m}\<rparr>) A M S"
proof -
  have "accounted (d\<lparr>pel := pel d - {m}\<rparr>) M S mr" if "mr \<in> A" for mr
  proof (cases "fst mr = m")
    case True
    then have "snd mr = r" using assms(1,2) that unfolding db_ok_def functional_def by (metis prod.collapse)
    then show ?thesis using assms(3) by (simp add: accounted_def)
  next
    case False
    have "accounted d M S mr" using assms(1) that by (simp add: db_ok_def)
    then show ?thesis using False by (auto simp: accounted_def ids_def)
  qed
  then show ?thesis using assms(1) by (simp add: db_ok_def)
qed

lemma db_ok_group:
  "db_ok sd d A M S \<Longrightarrow> unread d = None \<Longrightarrow> db_ok sd (d\<lparr>unread := Some []\<rparr>) A M S"
  by (auto simp: db_ok_def accounted_def ids_def)

lemma db_ok_read:
  assumes "db_ok sd d A M S" "unread d = Some u"
  shows "db_ok sd (d\<lparr>unread := Some (drop n u), pel := pel d \<union> set (take n u)\<rparr>) A M S"
proof -
  have "set u = set (take n u) \<union> set (drop n u)" by (metis append_take_drop_id set_append)
  then show ?thesis using assms by (auto simp: db_ok_def accounted_def ids_def)
qed

lemma db_ok_claim: "db_ok sd d A M S \<Longrightarrow> G \<subseteq> pel d - ids d \<Longrightarrow> db_ok sd (d\<lparr>pel := pel d - G\<rparr>) A M S"
  by (auto simp: db_ok_def accounted_def ids_def)

lemma entry_ok_mono: "entry_ok sd A e \<Longrightarrow> A \<subseteq> B \<Longrightarrow> entry_ok sd B e"
  unfolding entry_ok_def by (cases e) blast

lemma db_ok_add:
  assumes "db_ok sd d A M S" "m \<notin> used d" "\<forall>ch \<in> set m. (of_char ch :: nat) < 128"
    and "job_to_json sd r = Some json" "JobRequest.job_id r \<noteq> []" "es = drop n (entries d @ [(m, ''job'', json)])"
  shows "db_ok sd (d\<lparr>entries := es, used := insert m (used d),
      unread := map_option (\<lambda>u. filter (\<lambda>i. i \<in> fst ` set es) (u @ [m])) (unread d)\<rparr>)
    (insert (m, r) A) (if unread d = None then insert m M else M) S"
proof -
  let ?d = "d\<lparr>entries := es, used := insert m (used d),
      unread := map_option (\<lambda>u. filter (\<lambda>i. i \<in> fst ` set es) (u @ [m])) (unread d)\<rparr>"
  have sub: "set es \<subseteq> insert (m, ''job'', json) (set (entries d))"
    using assms(6) set_drop_subset[of n "entries d @ [(m, ''job'', json)]"] by auto
  have "m \<notin> fst ` A" using assms(1,2) by (simp add: db_ok_def)
  then have notin: "(m, x) \<notin> A" for x by (metis fst_conv image_eqI)
  have "functional A" using assms(1) by (simp add: db_ok_def)
  then have func: "functional (insert (m, r) A)"
    unfolding functional_def by (metis Pair_inject insert_iff notin)
  have "entry_ok sd (insert (m, r) A) (m, ''job'', json)"
    using assms(3,4) by (auto simp: entry_ok_def)
  moreover have "entry_ok sd (insert (m, r) A) e" if "e \<in> set (entries d)" for e
    using assms(1) that by (auto simp: db_ok_def list_all_iff intro: entry_ok_mono)
  ultimately have ent: "list_all (entry_ok sd (insert (m, r) A)) es"
    using sub by (auto simp: list_all_iff)
  have "accounted ?d (if unread d = None then insert m M else M) S mr" if "mr \<in> insert (m, r) A" for mr
  proof (cases "mr = (m, r)")
    case True
    then show ?thesis by (auto simp: accounted_def ids_def)
  next
    case False
    then have acc: "accounted d M S mr" and ne: "fst mr \<noteq> m"
      using assms(1) that \<open>m \<notin> fst ` A\<close> by (auto simp: db_ok_def)
    have ids: "ids ?d = fst ` set es" by (simp add: ids_def)
    show ?thesis
    proof (cases "fst mr \<in> fst ` set es")
      case True
      then have "fst mr \<in> ids d" using sub ne unfolding ids_def by auto
      then have "fst mr \<in> M \<or> (\<exists>u. unread d = Some u \<and> fst mr \<in> set u) \<or> fst mr \<in> pel d \<or>
          JobRequest.job_id (snd mr) \<in> S"
        using acc by (simp add: accounted_def)
      then show ?thesis using True unfolding accounted_def by (elim disjE exE) simp_all
    next
      case False
      then show ?thesis unfolding accounted_def ids by blast
    qed
  qed
  then show ?thesis using ent func assms(1,5) by (simp add: db_ok_def named_def)
qed


lemma parsed_entry:
  assumes "serde_codec sd" "entry_ok sd A (m, f, v)"
  shows "\<exists>r. (m, r) \<in> A \<and> parsed sd (entry_value (m, f, v)) = Some (m, r)"
proof -
  obtain r where r: "(m, r) \<in> A" "job_to_json sd r = Some v" "f = ''job''" "\<forall>ch \<in> set m. (of_char ch :: nat) < 128"
    using assms(2) by (auto simp: entry_ok_def)
  then have "job_of_json sd v = Inr r" "from_utf8_lossy v = v"
    using assms(1) by (auto simp: serde_codec_def)
  then show ?thesis
    using r by (auto simp: parsed_def entry_value_def entry_of_def extract_job_field_def from_utf8_lossy_ascii
        simp del: from_utf8_lossy.simps)
qed

lemma parsed_entries:
  assumes "serde_codec sd" "list_all (entry_ok sd A) es"
  shows "set (List.map_filter (parsed sd) (map entry_value es)) \<subseteq> A"
    "List.map_filter (garbled sd) (map entry_value es) = []"
proof -
  have ex: "\<exists>r. (fst e, r) \<in> A \<and> parsed sd (entry_value e) = Some (fst e, r)" if "e \<in> set es" for e
    using parsed_entry[OF assms(1), of A "fst e" "fst (snd e)" "snd (snd e)"] assms(2) that
    by (auto simp: list_all_iff)
  then have none: "garbled sd (entry_value e) = None" if "e \<in> set es" for e
    using that by (fastforce simp: garbled_def split: Option.bind_split)
  show "set (List.map_filter (parsed sd) (map entry_value es)) \<subseteq> A"
    using ex by (fastforce simp: map_filter_def)
  show "List.map_filter (garbled sd) (map entry_value es) = []"
    using none by (simp add: map_filter_def filter_empty_conv)
qed

lemma list_all_filter: "list_all P xs \<Longrightarrow> list_all P (filter Q xs)"
  by (simp add: list_all_iff)


lemma agents_ok_intros:
  "agents_ok c A S m \<Longrightarrow> agent_ok c A S b \<Longrightarrow> agents_ok c A S (become a b m)"
  "agents_ok c A S m \<Longrightarrow> agents_ok c A S (m - {#a#})"
  "agents_ok c A S m \<Longrightarrow> agent_ok c A S b \<Longrightarrow> agents_ok c A S (add_mset b m)"
  "agents_ok c A S m \<Longrightarrow> (\<And>b. b \<in># n \<Longrightarrow> agent_ok c A S b) \<Longrightarrow> agents_ok c A S (m + n)"
  by (auto simp: agents_ok_def become_def dest: in_diffD)

lemma agents_ok_mono: "agents_ok c A S m \<Longrightarrow> A \<subseteq> A' \<Longrightarrow> S \<subseteq> S' \<Longrightarrow> agents_ok c A' S' m"
  unfolding agents_ok_def by (blast intro: agent_ok_mono)

lemma agents_okD: "agents_ok c A S m \<Longrightarrow> a \<in># m \<Longrightarrow> agent_ok c A S a"
  by (simp add: agents_ok_def)

lemma suffix_publish:
  "suffix (cmd # cmds) (publish_pipe c m j json ttl) \<Longrightarrow>
     cmd = SET (result_key j) json ttl False \<and> length cmds = 3 \<or> length cmds < 3 \<and>
     cmd \<in> {DEL (pending_key j), XACK (stream_key c) (consumer_group c) m, PUBLISH (done_channel j) j}"
  by (auto simp: publish_pipe_def suffix_Cons)

lemma suffix_ack:
  "suffix (cmd # cmds) (ack_pipe c m j) \<Longrightarrow>
     cmd \<in> {DEL (pending_key j), XACK (stream_key c) (consumer_group c) m, PUBLISH (done_channel j) j}"
  by (auto simp: ack_pipe_def suffix_Cons)

lemma report_ok:
  "(m, r) \<in> A \<Longrightarrow> JobResult.job_id res = JobRequest.job_id r \<Longrightarrow>
   agent_ok c A S (Publish m r res (report_pipe sd c ttl m res) ok)"
  by (auto simp: report_pipe_def publish_pipe_def)

context redis_server
begin

lemma served:
  assumes "srv c d r d'" "db_ok sd d A M S" "(m, rq) \<in> A" "JobRequest.job_id rq \<in> S"
    and "c \<in> {DEL (pending_key (JobRequest.job_id rq)), XACK s g m, PUBLISH ch (JobRequest.job_id rq)}"
  shows "db_ok sd d' A M S"
  using documented[OF assms(1)] assms(2-5) by (auto simp: redis_doc_simps intro: db_ok_set db_ok_ack db_ok_publish)

lemma served_enqueue:
  assumes "srv (enqueue_pipe j ttl ! i) d r d'" "i < 2" "db_ok sd d A M S"
  shows "db_ok sd d' A M S"
  using documented[OF assms(1)] assms(2,3)
  by (auto simp: redis_doc_simps enqueue_pipe_def less_2_cases_iff intro: db_ok_set)

lemma inv_enq_added:
  assumes "Enq_add r \<in># agents s" "job_to_json sd r = Some json" "srv (xadd_cmd env json) (db s) (Text (Some m)) d"
    and "cluster_inv sd c s" "ags \<in> {agents s - {#Enq_add r#}, become (Enq_add r) (Enq_undo r) (agents s)}"
  shows "agents_ok c (insert (m, r) (added s)) (settled s) ags"
    "db_ok sd d (insert (m, r) (added s)) (if unread (db s) = None then insert m (missed s) else missed s) (settled s)"
proof -
  obtain n es where d: "d = (db s)\<lparr>entries := es, used := insert m (used (db s)),
       unread := map_option (\<lambda>u. filter (\<lambda>i. i \<in> fst ` set es) (u @ [m])) (unread (db s))\<rparr>"
    and es: "es = drop n (entries (db s) @ [(m, ''job'', json)])"
    and m: "m \<notin> used (db s)" "\<forall>ch \<in> set m. (of_char ch :: nat) < 128"
    using documented[OF assms(3)] unfolding xadd_cmd_def Let_def by (cases rule: redis_doc.cases) blast
  have ags: "agents_ok c (added s) (settled s) (agents s)" and db: "db_ok sd (db s) (added s) (missed s) (settled s)"
    using assms(4) by (simp_all add: cluster_inv_def)
  have id: "JobRequest.job_id r \<noteq> []" using agents_okD[OF ags assms(1)] by simp
  show "db_ok sd d (insert (m, r) (added s)) (if unread (db s) = None then insert m (missed s) else missed s) (settled s)"
    unfolding d by (rule db_ok_add[OF db m assms(2) id es])
  have "agents_ok c (insert (m, r) (added s)) (settled s) (agents s)" by (rule agents_ok_mono[OF ags]) auto
  then show "agents_ok c (insert (m, r) (added s)) (settled s) ags"
    using assms(5) id by (auto intro!: agents_ok_intros)
qed

lemma inv_read:
  assumes "srv (XREADGROUP g nm blk n st) (db s) (Value (ArrayV ks)) d" "serde_codec sd" "cluster_inv sd c s"
  shows "cluster_inv sd c (s\<lparr>db := d, agents := agents s +
      mset (map (\<lambda>(m, r). Run m r) (List.map_filter (parsed sd) (concat (map stream_messages ks))))\<rparr>)"
proof -
  obtain u k where u: "unread (db s) = Some u"
    and ks: "ks = [ArrayV [BulkStringV st, ArrayV (map entry_value (filter (\<lambda>(m, _). m \<in> set (take k u)) (entries (db s))))]]"
    and d: "d = (db s)\<lparr>unread := Some (drop k u), pel := pel (db s) \<union> set (take k u)\<rparr>"
    using documented[OF assms(1)] by (auto simp: redis_doc_simps)
  have "list_all (entry_ok sd (added s)) (entries (db s))" using assms(3) by (simp add: cluster_inv_def db_ok_def)
  then have "mr \<in> added s" if "mr \<in> set (List.map_filter (parsed sd) (concat (map stream_messages ks)))" for mr
    using parsed_entries(1)[OF assms(2) list_all_filter] that by (simp add: ks stream_messages_def) blast
  then show ?thesis
    using assms(3) u db_ok_read[of sd "db s" "added s" "missed s" "settled s" u k]
    by (auto simp: cluster_inv_def d intro!: agents_ok_intros)
qed

lemma inv_reclaim:
  assumes "srv (XAUTOCLAIM st g nm idle cur n) (db s) (Value (ArrayV (nxt # ArrayV msgs # rest))) d"
    and "serde_codec sd" "cluster_inv sd c s"
  shows "cluster_inv sd c (s\<lparr>db := d, agents := agents s +
      mset (map (\<lambda>(m, r). Look m r) (List.map_filter (parsed sd) msgs)) +
      mset (map Discard (List.map_filter (garbled sd) msgs))\<rparr>)"
proof -
  obtain I G where msgs: "msgs = map entry_value (filter (\<lambda>(m, _). m \<in> I) (entries (db s)))"
    and d: "d = (db s)\<lparr>pel := pel (db s) - G\<rparr>" "G \<subseteq> pel (db s) - ids (db s)"
    using documented[OF assms(1)] by (auto simp: redis_doc_simps)
  have "list_all (entry_ok sd (added s)) (entries (db s))" using assms(3) by (simp add: cluster_inv_def db_ok_def)
  note all = parsed_entries[OF assms(2) list_all_filter[OF this, of "\<lambda>(m, _). m \<in> I"], folded msgs]
  have "mr \<in> added s" if "mr \<in> set (List.map_filter (parsed sd) msgs)" for mr
    using all(1) that by blast
  then show ?thesis
    using all(2) assms(3) d(2) by (auto simp: cluster_inv_def d(1) intro!: agents_ok_intros db_ok_claim)
qed

lemma inv_publish:
  fixes ok :: bool
  assumes "Publish m r res (cmd # cmds) ok \<in># agents s" "srv cmd (db s) a d" "cluster_inv sd c s"
  defines "S \<equiv> settled s \<union> {j. \<exists>v ttl. cmd = SET (result_key j) v ttl False}"
  shows "agents_ok c (added s) S (become (Publish m r res (cmd # cmds) ok) (Publish m r res cmds ok') (agents s))"
    "db_ok sd d (added s) (missed s) S"
proof -
  let ?j = "JobRequest.job_id r"
  have agt: "agent_ok c (added s) (settled s) (Publish m r res (cmd # cmds) ok)"
    using assms(1,3) by (auto simp: cluster_inv_def dest: agents_okD)
  then obtain json ttl where suf: "suffix (cmd # cmds) (publish_pipe c m ?j json ttl)" by auto
  have db: "db_ok sd (db s) (added s) (missed s) S"
    using assms(3) by (auto simp: cluster_inv_def S_def intro: db_ok_more)
  have both: "db_ok sd d (added s) (missed s) S \<and> ?j \<in> S"
    using suffix_publish[OF suf]
  proof (elim disjE conjE)
    assume cmd: "cmd = SET (result_key ?j) json ttl False"
    then have "?j \<in> S" by (auto simp: S_def)
    then show ?thesis using documented[OF assms(2)] db cmd by (auto simp: redis_doc_simps intro: db_ok_set)
  next
    assume len: "length cmds < 3"
      and cmd: "cmd \<in> {DEL (pending_key ?j), XACK (stream_key c) (consumer_group c) m, PUBLISH (done_channel ?j) ?j}"
    then have "?j \<in> S" using agt by (simp add: S_def)
    then show ?thesis using served[OF assms(2) db _ _ cmd] agt by simp
  qed
  then show "db_ok sd d (added s) (missed s) S" by blast
  have "agent_ok c (added s) S (Publish m r res cmds ok')"
    using agt both suffix_ConsD[OF suf] unfolding agent_ok.simps by blast
  moreover have "agents_ok c (added s) S (agents s)"
    using assms(3) by (auto simp: cluster_inv_def S_def intro: agents_ok_mono)
  ultimately show "agents_ok c (added s) S (become (Publish m r res (cmd # cmds) ok) (Publish m r res cmds ok') (agents s))"
    by (simp add: agents_ok_intros(1))
qed

lemma cluster_inv_step:
  assumes "cluster_step srv sd env c s s'" "serde_codec sd" "cluster_inv sd c s"
  shows "cluster_inv sd c s'"
  using assms(1,3)
proof (induction rule: cluster_step.induct)
  case (enq_added r s json m d)
  show ?case using inv_enq_added[OF enq_added(1-4), of "agents s - {#Enq_add r#}"] by (simp add: cluster_inv_def)
next
  case (enq_added_lost r s json m d)
  show ?case using inv_enq_added[OF enq_added_lost(1-4), of "become (Enq_add r) (Enq_undo r) (agents s)"] by (simp add: cluster_inv_def)
next
  case (read nm n s ks d)
  show ?case by (rule inv_read[OF read(1) assms(2) read(2)])
next
  case (publish m r res cmd cmds ok s a d)
  show ?case using inv_publish[OF publish(1-3)] by (simp add: cluster_inv_def settled_publish)
next
  case (reclaim nm idle cur s nxt msgs rest d)
  show ?case by (rule inv_reclaim[OF reclaim(1) assms(2) reclaim(2)])
next
  case (create_group s a d)
  then show ?case
    by (auto dest!: documented simp: cluster_inv_def group_cmd_def redis_doc_simps intro: db_ok_group)
next
  case (enq_undo r s a d)
  then show ?case
    by (auto dest!: documented simp: cluster_inv_def redis_doc_simps intro!: agents_ok_intros db_ok_set)
next
  case (discard m s a d)
  then show ?case by (auto simp: cluster_inv_def dest: agents_okD)
next
  case (reclaim_hit m r s v d)
  then have "strs (db s) (result_key (JobRequest.job_id r)) = Some v" and d: "d = db s"
    by (auto dest!: documented simp: redis_doc_simps)
  then have "JobRequest.job_id r \<in> settled s"
    using reclaim_hit(3) unfolding cluster_inv_def db_ok_def results_ok_def by blast
  then show ?case
    using reclaim_hit d by (auto simp: cluster_inv_def intro!: agents_ok_intros dest: agents_okD)
next
  case (reclaim_miss m r s a d)
  then show ?case
    by (auto dest!: documented simp: cluster_inv_def redis_doc_simps intro!: agents_ok_intros dest: agents_okD)
next
  case (reack m r cmd cmds ok s a d)
  then have agt: "agent_ok c (added s) (settled s) (Reack m r (cmd # cmds) ok)"
    by (auto simp: cluster_inv_def dest: agents_okD)
  then have "db_ok sd d (added s) (missed s) (settled s)"
    using served[OF reack(2) _ _ _ suffix_ack[of cmd cmds c m "JobRequest.job_id r"]] reack(3) by (simp add: cluster_inv_def)
  then show ?case
    using reack agt by (auto simp: cluster_inv_def intro!: agents_ok_intros dest: suffix_ConsD)
next
  case (expire s k)
  then show ?case by (auto simp: cluster_inv_def intro: db_ok_set)
next
  case (report m r s res ttl)
  then have "(m, r) \<in> added s" "named (added s)" by (auto simp: cluster_inv_def db_ok_def dest: agents_okD)
  then have "agent_ok c (added s) (settled s) (Publish m r res (report_pipe sd c ttl m res) True)"
    using report(2) by (intro report_ok) (auto simp: named_def)
  then show ?case
    using report by (simp add: cluster_inv_def agents_ok_intros(1) del: agent_ok.simps(3))
next
  case (publish_again m r res cmds ok s ttl)
  then have "agent_ok c (added s) (settled s) (Publish m r res cmds ok)" by (auto simp: cluster_inv_def dest: agents_okD)
  then have "agent_ok c (added s) (settled s) (Publish m r res (report_pipe sd c ttl m res) True)"
    by (intro report_ok) simp_all
  then show ?case
    using publish_again by (simp add: cluster_inv_def agents_ok_intros(1) del: agent_ok.simps(3))
qed (auto simp: cluster_inv_def intro!: agents_ok_intros dest: agents_okD served_enqueue[rotated 2])

lemma cluster_inv_new: "cluster_inv sd c cluster_new"
  by (simp add: cluster_inv_def cluster_new_def agents_ok_def db_ok_def functional_def named_def results_ok_def)

lemma cluster_inv_reachable:
  assumes "serde_codec sd" "(cluster_step srv sd env c)\<^sup>*\<^sup>* cluster_new s"
  shows "cluster_inv sd c s"
  using assms(2)
  by (induction rule: rtranclp_induct) (auto intro: cluster_inv_new cluster_inv_step[OF _ assms(1)])

end

interpretation doc: redis_server redis_doc
  by unfold_locales

text \<open>The ids that were added before the group existed stay out of its lists.\<close>

definition skipped :: "redis_db \<Rightarrow> string set \<Rightarrow> bool" where
  "skipped d M \<longleftrightarrow> M \<subseteq> used d \<and> pel d \<subseteq> used d - M \<and> (\<forall>u. unread d = Some u \<longrightarrow> set u \<subseteq> used d - M)"

fun adds :: "redis_cmd \<Rightarrow> bool" where
  "adds (XADD s n f v) = True"
| "adds _ = False"

text \<open>A group that is created at the end of the stream does not take up the entries before.\<close>

fun from_end :: "redis_cmd \<Rightarrow> bool" where
  "from_end (XGROUP_CREATE s g start mk) = (start = ''$'')"
| "from_end _ = True"

lemma skipped_doc:
  assumes "redis_doc c d r d'" "from_end c" "skipped d M"
  shows "skipped d' (M \<union> (if unread d = None then used d' - used d else {}))"
  using assms
proof (induction rule: redis_doc.induct)
  case (doc_xadd m d es n f v maxlen s)
  then show ?case by (cases "unread d") (auto simp: skipped_def)
next
  case (doc_read d u n cnt g nm blk s)
  then show ?case by (auto simp: skipped_def dest: in_set_takeD in_set_dropD)
qed (auto simp: skipped_def)

lemma used_doc: "redis_doc c d r d' \<Longrightarrow> used d' = used d \<or> (\<exists>s n f v m. c = XADD s n f v \<and> r = Text (Some m) \<and> m \<notin> used d \<and> used d' = insert m (used d))"
  by (induction rule: redis_doc.induct) auto

lemma skipped_same:
  assumes "redis_doc c d r d'" "\<not> adds c" "from_end c" "skipped d M" shows "skipped d' M"
  using skipped_doc[OF assms(1,3,4)] used_doc[OF assms(1)] assms(2) by (auto split: if_splits)

context redis_server
begin

lemma skipped_add:
  assumes "srv (xadd_cmd env json) d (Text (Some m)) d'" "skipped d M"
  shows "skipped d' (if unread d = None then insert m M else M)"
proof -
  have doc: "redis_doc (xadd_cmd env json) d (Text (Some m)) d'" by (rule documented) fact
  then have "used d' - used d = {m}" by (auto simp: xadd_cmd_def Let_def redis_doc_simps)
  then show ?thesis
    using skipped_doc[OF doc _ assms(2)] by (cases "unread d") (simp_all add: xadd_cmd_def Let_def)
qed

lemma skipped_step:
  assumes "cluster_step srv sd env c s s'" "cluster_inv sd c s" "skipped (db s) (missed s)"
  shows "skipped (db s') (missed s')"
  using assms
proof (induction rule: cluster_step.induct)
  case (enq_added r s json m d)
  show ?case using skipped_add[OF enq_added(3,5)] by simp
next
  case (enq_added_lost r s json m d)
  show ?case using skipped_add[OF enq_added_lost(3,5)] by simp
next
  case (create_group s a d)
  then show ?case by (auto intro: skipped_same[OF documented] simp: group_cmd_def)
next
  case (publish m r res cmd cmds ok s a d)
  have "agent_ok c (added s) (settled s) (Publish m r res (cmd # cmds) ok)"
    using publish by (auto simp: cluster_inv_def dest: agents_okD)
  then have "\<not> adds cmd" "from_end cmd" by (auto dest: suffix_publish)
  then show ?case using publish by (auto intro: skipped_same[OF documented])
next
  case (reack m r cmd cmds ok s a d)
  have "agent_ok c (added s) (settled s) (Reack m r (cmd # cmds) ok)"
    using reack by (auto simp: cluster_inv_def dest: agents_okD)
  then have "\<not> adds cmd" "from_end cmd" by (auto dest: suffix_ack)
  then show ?case using reack by (auto intro: skipped_same[OF documented])
next
  case (expire s k)
  then show ?case by (simp add: skipped_def)
qed (auto intro: skipped_same[OF documented] simp: enqueue_pipe_def)

lemma skipped_reachable:
  assumes "serde_codec sd" "(cluster_step srv sd env c)\<^sup>*\<^sup>* cluster_new s"
  shows "skipped (db s) (missed s)"
  using assms(2)
proof (induction rule: rtranclp_induct)
  case base
  then show ?case by (simp add: skipped_def cluster_new_def)
next
  case (step y z)
  show ?case by (rule skipped_step[OF step(2) cluster_inv_reachable[OF assms(1) step(1)] step(3)])
qed

lemma cluster_facts:
  assumes "serde_codec sd" "(cluster_step srv sd env c)\<^sup>*\<^sup>* cluster_new s"
  shows "(m, r) \<in> added s \<Longrightarrow> accounted (db s) (missed s) (settled s) (m, r)"
    "set (rung (db s)) \<subseteq> settled s"
    "m \<in> missed s \<Longrightarrow> m \<notin> pel (db s) \<and> (\<forall>u. unread (db s) = Some u \<longrightarrow> m \<notin> set u)"
  using cluster_inv_reachable[OF assms] skipped_reachable[OF assms]
  unfolding cluster_inv_def db_ok_def results_ok_def skipped_def by blast+

end

section \<open>A run\<close>

text \<open>
  The run of one job with a second submission of the same id in the middle of its report.
\<close>

definition jc :: RedisConsumer where
  "jc = consumer_new ''u'' ''r'' 1 None None"

definition jr :: JobRequest where
  "jr = new_request ''j'' ''c'' [] 1 1 []"

definition jres :: JobResult where
  "jres = compilation_error ''j'' []"

abbreviation jstep :: "cluster \<Rightarrow> cluster \<Rightarrow> bool" where
  "jstep \<equiv> cluster_step redis_doc sample_serde (\<lambda>_. None) jc"

lemma jr_simps [simp]: "JobRequest.job_id jr = ''j''" "JobResult.job_id jres = ''j''"
  "job_to_json sample_serde jr = Some ''{}''" "result_to_json sample_serde jres = Some ''[]''"
  "job_of_json sample_serde ''{}'' = Inr jr"
  by (simp_all add: jr_def jres_def new_request_def compilation_error_def sample_serde_def)

lemma report_jres: "report_pipe sample_serde jc 1800 ''1'' jres =
  [SET (result_key ''j'') ''[]'' 1800 False, DEL (pending_key ''j''),
   XACK (stream_key jc) (consumer_group jc) ''1'', PUBLISH (done_channel ''j'') ''j'']"
  by (simp add: report_pipe_def publish_pipe_def)

lemma parsed_jr: "parsed sample_serde (entry_value (''1'', ''job'', ''{}'')) = Some (''1'', jr)"
  by (simp add: parsed_def entry_value_def entry_of_def extract_job_field_def from_utf8_lossy_ascii
      del: from_utf8_lossy.simps)

text \<open>The state with the group created and the job enqueued, delivered and run.\<close>

definition s_run :: cluster where
  "s_run = \<lparr> db = \<lparr> strs = [pending_key ''j'' \<mapsto> ''1''], entries = [(''1'', ''job'', ''{}'')], used = {''1''},
       unread = Some [], pel = {''1''}, rung = [] \<rparr>,
     agents = {#Run ''1'' jr#}, added = {(''1'', jr)}, missed = {}, stored = {}, refused = {},
     outcomes = [(''j'', Queued)], faulty = False \<rparr>"

lemma reach_run: "jstep\<^sup>*\<^sup>* cluster_new s_run"
proof -
  define s1 where "s1 = cluster_new\<lparr>db := (db cluster_new)\<lparr>unread := Some []\<rparr>\<rparr>"
  define s2 where "s2 = s1\<lparr>agents := add_mset (Enq_del jr 660) (agents s1)\<rparr>"
  define s3 where "s3 = s2\<lparr>db := (db s2)\<lparr>strs := (strs (db s2))(result_key ''j'' := None)\<rparr>,
    agents := become (Enq_del jr 660) (Enq_claim jr 660 True) (agents s2)\<rparr>"
  define s4 where "s4 = s3\<lparr>db := (db s3)\<lparr>strs := (strs (db s3))(pending_key ''j'' \<mapsto> ''1'')\<rparr>,
    agents := become (Enq_claim jr 660 True) (Enq_add jr) (agents s3)\<rparr>"
  define s5 where "s5 = s4\<lparr>db := (db s4)\<lparr>entries := [(''1'', ''job'', ''{}'')], used := {''1''}, unread := Some [''1'']\<rparr>,
    agents := agents s4 - {#Enq_add jr#}, added := insert (''1'', jr) (added s4), missed := missed s4,
    outcomes := outcomes s4 @ [(''j'', Queued)]\<rparr>"
  note defs = s5_def s4_def s3_def s2_def s1_def cluster_new_def become_def
  have 1: "jstep cluster_new s1"
    unfolding s1_def by (rule cluster_step.create_group[where a = Done]) (simp add: group_cmd_def redis_doc_simps cluster_new_def)
  have 2: "jstep s1 s2" unfolding s2_def by (rule cluster_step.submit) simp_all
  have 3: "jstep s2 s3"
    using cluster_step.enq_del[of jr 660 s2 redis_doc Done "db s3" sample_serde "\<lambda>_. None" jc]
    by (simp add: defs redis_doc_simps enqueue_pipe_def)
  have 4: "jstep s3 s4"
    unfolding s4_def
    by (rule cluster_step.enq_claimed[where v = "''OK''"]) (simp_all add: enqueue_pipe_def redis_doc_simps defs)
  have "redis_doc (XADD ''judge:jobs'' (Some 10000) ''job'' ''{}'') (db s4) (Text (Some ''1'')) (db s5)"
    using doc_xadd[of "''1''" "db s4" "[(''1'', ''job'', ''{}'')]" 0 "''job''" "''{}''" "Some 10000" "''judge:jobs''"]
    by (simp add: defs)
  then have 5: "jstep s4 s5"
    using cluster_step.enq_added[of jr s4 sample_serde "''{}''" redis_doc "\<lambda>_. None" "''1''" "db s5" jc]
    by (simp add: xadd_cmd_def stream_maxlen_def defs)
  have "redis_doc (XREADGROUP (consumer_group jc) ''w'' 2000 4 (stream_key jc)) (db s5)
      (Value (ArrayV [ArrayV [BulkStringV (stream_key jc), ArrayV [entry_value (''1'', ''job'', ''{}'')]]])) (db s_run)"
    using doc_read[of "db s5" "[''1'']" 1 4 "consumer_group jc" "''w''" 2000 "stream_key jc"]
    by (simp add: defs s_run_def fun_upd_def) 
  from cluster_step.read[of redis_doc, OF this, of sample_serde "\<lambda>_. None"] have 6: "jstep s5 s_run"
    by (simp add: defs s_run_def stream_messages_def parsed_jr List.map_filter_simps)
  show ?thesis using 1 2 3 4 5 6 by (meson r_into_rtranclp rtranclp.rtrancl_into_rtrancl)
qed

lemma report_run:
  "jstep s_run (s_run\<lparr>agents := {#Publish ''1'' jr jres [SET (result_key ''j'') ''[]'' 1800 False, DEL (pending_key ''j''),
     XACK (stream_key jc) (consumer_group jc) ''1'', PUBLISH (done_channel ''j'') ''j''] True#}\<rparr>)"
  using cluster_step.report[of "''1''" jr s_run jres redis_doc sample_serde "\<lambda>_. None" jc 1800]
  by (simp add: s_run_def become_def report_jres)

lemma reach_lost:
  "\<exists>s. jstep\<^sup>*\<^sup>* cluster_new s \<and> added s = {(''1'', jr)} \<and> outcomes s = [(''j'', Queued), (''j'', Duplicate)] \<and>
     missed s = {} \<and> stored s = {''j''} \<and> \<not> faulty s \<and> agents s = {#} \<and> rung (db s) = [''j''] \<and>
     pel (db s) = {} \<and> unread (db s) = Some [] \<and>
     strs (db s) (result_key ''j'') = None \<and> strs (db s) (pending_key ''j'') = None"
proof -
  let ?P = "\<lambda>cmds. Publish ''1'' jr jres cmds True"
  let ?c1 = "SET (result_key ''j'') ''[]'' 1800 False" and ?c2 = "DEL (pending_key ''j'')"
    and ?c3 = "XACK (stream_key jc) (consumer_group jc) ''1''" and ?c4 = "PUBLISH (done_channel ''j'') ''j''"
  define s1 where "s1 = s_run\<lparr>agents := {#?P [?c1, ?c2, ?c3, ?c4]#}\<rparr>"
  define s2 where "s2 = s1\<lparr>agents := add_mset (Enq_del jr 660) (agents s1)\<rparr>"
  define s3 where "s3 = s2\<lparr>db := (db s2)\<lparr>strs := (strs (db s2))(result_key ''j'' \<mapsto> ''[]'')\<rparr>,
    agents := {#?P [?c2, ?c3, ?c4], Enq_del jr 660#}, stored := {''j''}\<rparr>"
  define s4 where "s4 = s3\<lparr>db := (db s3)\<lparr>strs := (strs (db s3))(result_key ''j'' := None)\<rparr>,
    agents := {#Enq_claim jr 660 True, ?P [?c2, ?c3, ?c4]#}\<rparr>"
  define s5 where "s5 = s4\<lparr>agents := {#?P [?c2, ?c3, ?c4]#}, outcomes := [(''j'', Queued), (''j'', Duplicate)]\<rparr>"
  define s6 where "s6 = s5\<lparr>db := (db s5)\<lparr>strs := (strs (db s5))(pending_key ''j'' := None)\<rparr>,
    agents := {#?P [?c3, ?c4]#}\<rparr>"
  define s7 where "s7 = s6\<lparr>db := (db s6)\<lparr>pel := {}\<rparr>, agents := {#?P [?c4]#}\<rparr>"
  define s8 where "s8 = s7\<lparr>db := (db s7)\<lparr>rung := [''j'']\<rparr>, agents := {#?P []#}\<rparr>"
  define s9 where "s9 = s8\<lparr>agents := {#}\<rparr>"
  note defs = s9_def s8_def s7_def s6_def s5_def s4_def s3_def s2_def s1_def s_run_def become_def
  have 1: "jstep s_run s1" unfolding s1_def by (rule report_run)
  have 2: "jstep s1 s2" unfolding s2_def by (rule cluster_step.submit) simp_all
  have 3: "jstep s2 s3"
    using cluster_step.publish[of "''1''" jr jres ?c1 "[?c2, ?c3, ?c4]" True s2 redis_doc Done "db s3" sample_serde "\<lambda>_. None" jc]
    by (simp add: defs redis_doc_simps eq_commute[of "''j''"])
  have 4: "jstep s3 s4"
    using cluster_step.enq_del[of jr 660 s3 redis_doc Done "db s4" sample_serde "\<lambda>_. None" jc]
    by (simp add: defs redis_doc_simps enqueue_pipe_def)
  have 5: "jstep s4 s5"
    using cluster_step.enq_duplicate[of jr 660 s4 redis_doc "db s4" sample_serde "\<lambda>_. None" jc]
    by (simp add: defs redis_doc_simps enqueue_pipe_def)
  have 6: "jstep s5 s6"
    using cluster_step.publish[of "''1''" jr jres ?c2 "[?c3, ?c4]" True s5 redis_doc Done "db s6" sample_serde "\<lambda>_. None" jc]
    by (simp add: defs redis_doc_simps)
  have 7: "jstep s6 s7"
    using cluster_step.publish[of "''1''" jr jres ?c3 "[?c4]" True s6 redis_doc Done "db s7" sample_serde "\<lambda>_. None" jc]
    by (simp add: defs redis_doc_simps)
  have 8: "jstep s7 s8"
    using cluster_step.publish[of "''1''" jr jres ?c4 "[]" True s7 redis_doc Done "db s8" sample_serde "\<lambda>_. None" jc]
    by (simp add: defs redis_doc_simps)
  have 9: "jstep s8 s9"
    using cluster_step.finish[of "?P []" s8 redis_doc sample_serde "\<lambda>_. None" jc] by (auto simp: defs)
  have run: "jstep\<^sup>*\<^sup>* cluster_new s9"
    using reach_run 1 2 3 4 5 6 7 8 9 by (meson rtranclp.rtrancl_into_rtrancl)
  show ?thesis
    by (rule exI[of _ s9], rule conjI[OF run]) (simp add: defs)
qed


section \<open>Properties\<close>

text \<open>
  C4: no accepted job is lost by the cluster, except by trimming or by a server that refuses to
  store its result. On any server that behaves as documented, refusals included, and however
  enqueues, deliveries, reports, retries, reclaims, crashes and expiries interleave, every
  message that was added to the stream after the consumer group was created is still to be
  delivered, or is pending and can be reclaimed, or a result for its job id has been stored,
  or the \<open>SET\<close> of such a result was refused, or the stream was trimmed past it. And a bell is
  rung only for a job id whose result has been stored, or refused, before.
\<close>

theorem no_job_lost:
  assumes "redis_server srv" "serde_codec sd"
    and "(cluster_step srv sd env c)\<^sup>*\<^sup>* cluster_new s" "(m, r) \<in> added s" "m \<notin> missed s"
  shows "((\<exists>u. unread (db s) = Some u \<and> m \<in> set u) \<or> m \<in> pel (db s) \<or>
     JobRequest.job_id r \<in> stored s \<or> JobRequest.job_id r \<in> refused s \<or> m \<notin> ids (db s)) \<and>
     set (rung (db s)) \<subseteq> stored s \<union> refused s"
  using redis_server.cluster_facts(1)[OF assms(1-4)] redis_server.cluster_facts(2)[OF assms(1-3)] assms(5)
  by (simp add: accounted_def settled_def)

theorem no_job_lost_witness:
  "\<exists>s. jstep\<^sup>*\<^sup>* cluster_new s \<and> (''1'', jr) \<in> added s \<and> agents s = {#} \<and>
     JobRequest.job_id jr \<in> stored s \<and> ''j'' \<in> set (rung (db s)) \<and> set (rung (db s)) \<subseteq> stored s \<union> refused s"
proof -
  obtain s where s: "jstep\<^sup>*\<^sup>* cluster_new s" "added s = {(''1'', jr)}" "missed s = {}" "stored s = {''j''}" "agents s = {#}"
    "rung (db s) = [''j'']"
    using reach_lost by (elim exE conjE) (rule that)
  have "(''1'', jr) \<in> added s" "''1'' \<notin> missed s" using s by simp_all
  from no_job_lost[OF doc.redis_server_axioms sample.serde_codec_axioms s(1) this]
  show ?thesis using s by (intro exI[of _ s]) simp
qed

text \<open>
  C35: a job that is added to the stream before the consumer group exists is never delivered to
  any worker: \<open>group_cmd\<close> creates the group with the start id \<open>$\<close>, and the message is in none of
  the lists of the group in any state reached afterwards.
\<close>

theorem missed_never_delivered:
  assumes "redis_server srv" "serde_codec sd"
    and "(cluster_step srv sd env c)\<^sup>*\<^sup>* cluster_new s" "m \<in> missed s"
  shows "m \<notin> pel (db s) \<and> (\<forall>u. unread (db s) = Some u \<longrightarrow> m \<notin> set u)"
  by (rule redis_server.cluster_facts(3)[OF assms])

lemma reach_missed:
  "\<exists>s. jstep\<^sup>*\<^sup>* cluster_new s \<and> ''1'' \<in> missed s \<and> unread (db s) = Some [] \<and> ''1'' \<in> ids (db s)"
proof -
  define s2 where "s2 = cluster_new\<lparr>agents := {#Enq_del jr 660#}\<rparr>"
  define s3 where "s3 = s2\<lparr>db := (db s2)\<lparr>strs := (strs (db s2))(result_key ''j'' := None)\<rparr>,
    agents := become (Enq_del jr 660) (Enq_claim jr 660 True) (agents s2)\<rparr>"
  define s4 where "s4 = s3\<lparr>db := (db s3)\<lparr>strs := (strs (db s3))(pending_key ''j'' \<mapsto> ''1'')\<rparr>,
    agents := become (Enq_claim jr 660 True) (Enq_add jr) (agents s3)\<rparr>"
  define s5 where "s5 = s4\<lparr>db := (db s4)\<lparr>entries := [(''1'', ''job'', ''{}'')], used := {''1''}\<rparr>,
    agents := agents s4 - {#Enq_add jr#}, added := insert (''1'', jr) (added s4), missed := {''1''},
    outcomes := outcomes s4 @ [(''j'', Queued)]\<rparr>"
  define s6 where "s6 = s5\<lparr>db := (db s5)\<lparr>unread := Some []\<rparr>\<rparr>"
  note defs = s6_def s5_def s4_def s3_def s2_def cluster_new_def become_def
  have 2: "jstep cluster_new s2"
    using cluster_step.submit[of jr sample_serde redis_doc "\<lambda>_. None" jc cluster_new 660]
    by (simp add: s2_def cluster_new_def)
  have 3: "jstep s2 s3"
    using cluster_step.enq_del[of jr 660 s2 redis_doc Done "db s3" sample_serde "\<lambda>_. None" jc]
    by (simp add: defs redis_doc_simps enqueue_pipe_def)
  have 4: "jstep s3 s4"
    unfolding s4_def
    by (rule cluster_step.enq_claimed[where v = "''OK''"]) (simp_all add: enqueue_pipe_def redis_doc_simps defs)
  have "redis_doc (XADD ''judge:jobs'' (Some 10000) ''job'' ''{}'') (db s4) (Text (Some ''1'')) (db s5)"
    using doc_xadd[of "''1''" "db s4" "[(''1'', ''job'', ''{}'')]" 0 "''job''" "''{}''" "Some 10000" "''judge:jobs''"]
    by (simp add: defs)
  then have 5: "jstep s4 s5"
    using cluster_step.enq_added[of jr s4 sample_serde "''{}''" redis_doc "\<lambda>_. None" "''1''" "db s5" jc]
    by (simp add: xadd_cmd_def stream_maxlen_def defs)
  have 6: "jstep s5 s6"
    unfolding s6_def by (rule cluster_step.create_group[where a = Done]) (simp add: group_cmd_def redis_doc_simps defs)
  have run: "jstep\<^sup>*\<^sup>* cluster_new s6"
    using 2 3 4 5 6 by (meson r_into_rtranclp rtranclp.rtrancl_into_rtrancl)
  show ?thesis
    by (rule exI[of _ s6], rule conjI[OF run]) (simp add: defs ids_def)
qed

theorem missed_never_delivered_witness:
  "\<exists>s. jstep\<^sup>*\<^sup>* cluster_new s \<and> ''1'' \<in> ids (db s) \<and> ''1'' \<notin> pel (db s)"
  using reach_missed missed_never_delivered[OF doc.redis_server_axioms sample.serde_codec_axioms] by meson

text \<open>
  C36: a finished result can be lost although nothing fails, no command is refused and no key
  expires. A job is queued and reported while a second submission of its id is under way: that
  submission deletes the stored result before it finds the pending marker, and answers
  \<open>Duplicate\<close>. It is the only other enqueue; the stream has one entry. In the end the message
  is acknowledged, the bell was rung, no client is left, and there is neither a result nor a
  pending marker, so the result that was stored cannot be found.
\<close>

theorem resubmission_loses_result:
  "\<exists>s. (cluster_step redis_doc sample_serde (\<lambda>_. None) jc)\<^sup>*\<^sup>* cluster_new s \<and>
     added s = {(''1'', jr)} \<and> outcomes s = [(''j'', Queued), (''j'', Duplicate)] \<and>
     missed s = {} \<and> stored s = {''j''} \<and> \<not> faulty s \<and> agents s = {#} \<and> rung (db s) = [''j''] \<and>
     pel (db s) = {} \<and> unread (db s) = Some [] \<and>
     strs (db s) (result_key ''j'') = None \<and> strs (db s) (pending_key ''j'') = None"
  by (rule reach_lost)


end
