(* ===== verification/Pool.thy ===== *)
theory Pool
  imports Admission Job "HOL-Library.Multiset"
begin

text \<open>
  The worker pool, \<open>src/orchestrator/pool.rs\<close>: submissions, the queue between them and the
  workers, and the two counters. Submitters and workers run concurrently, and every access
  to a counter or to the channel is an atomic step of its own, so the pool is a step
  relation over a state that holds where each task is: a submission between the check of
  the queue, the count and the send, and a worker between receiving, counting and replying.

  What the pipeline returns for a job is arbitrary. A submission carries a ticket, the
  identity of its \<open>oneshot\<close> channel. The state is the pool's own and its tasks'. The receiver
  of the channel is shared by the workers, and workers end only with the process (the release
  profile aborts it on a panic), so the receiver is dropped only by a pool without workers,
  whose \<open>run_workers\<close> returns at once: the jobs in the channel are then answered by the drop of
  their \<open>oneshot\<close> senders.
\<close>

section \<open>Data\<close>

record JobEnvelope =
  ticket :: nat
  request :: JobRequest

datatype submit_task =
    Checked JobEnvelope
  | Counted JobEnvelope

datatype worker_task =
    Idle
  | Received JobEnvelope
  | Dequeued JobEnvelope
  | Busy JobEnvelope
  | Replied

record pool =
  busy_workers :: usize
  queued_jobs :: usize
  channel :: "JobEnvelope list"
  receiver_alive :: bool
  submits :: "submit_task multiset"
  workers :: "worker_task multiset"
  accepted :: "nat multiset"
  answers :: "(nat \<times> (string + JobResult)) multiset"

section \<open>Operations\<close>

text \<open>\<open>std::env::var("JUDGE_MAX_QUEUE")\<close>, parsed, or 128.\<close>

definition max_queue_size :: "env \<Rightarrow> usize" where
  "max_queue_size env =
     (case Option.bind (env ''JUDGE_MAX_QUEUE'') parse_u64 of Some n \<Rightarrow> n | None \<Rightarrow> 128)"

definition pool_new :: "nat \<Rightarrow> pool" where
  "pool_new num_workers =
     \<lparr> busy_workers = 0, queued_jobs = 0, channel = [], receiver_alive = True, submits = {#},
       workers = replicate_mset num_workers Idle, accepted = {#}, answers = {#} \<rparr>"

definition idle_workers :: "usize \<Rightarrow> pool \<Rightarrow> usize" where
  "idle_workers num_workers p = saturating_sub num_workers (busy_workers p)"

text \<open>The request as \<open>submit\<close> hands it on: with an id, and its memory clamped.\<close>

definition prepare :: "env \<Rightarrow> string \<Rightarrow> JobRequest \<Rightarrow> JobRequest" where
  "prepare env uuid req =
     (let req = (if JobRequest.job_id req = [] then req\<lparr>JobRequest.job_id := uuid\<rparr> else req);
          max_mem = max_job_memory_bytes env
      in if JobRequest.memory_limit_bytes req > max_mem
         then req\<lparr>JobRequest.memory_limit_bytes := max_mem\<rparr> else req)"

definition move :: "'a \<Rightarrow> 'a \<Rightarrow> 'a multiset \<Rightarrow> 'a multiset" where
  "move a b m = add_mset b (m - {#a#})"

inductive pool_step :: "env \<Rightarrow> pool \<Rightarrow> pool \<Rightarrow> bool" for env where
  queue_full: "queued_jobs p \<ge> max_queue_size env \<Longrightarrow>
    pool_step env p (p\<lparr>accepted := add_mset t (accepted p),
      answers := add_mset (t, Inl ''QUEUE_FULL'') (answers p)\<rparr>)"
| check: "queued_jobs p < max_queue_size env \<Longrightarrow>
    pool_step env p (p\<lparr>accepted := add_mset t (accepted p),
      submits := add_mset (Checked \<lparr>ticket = t, request = prepare env uuid req\<rparr>) (submits p)\<rparr>)"
| count: "Checked e \<in># submits p \<Longrightarrow>
    pool_step env p (p\<lparr>queued_jobs := queued_jobs p + 1,
      submits := move (Checked e) (Counted e) (submits p)\<rparr>)"
| send: "Counted e \<in># submits p \<Longrightarrow> receiver_alive p \<Longrightarrow>
    pool_step env p (p\<lparr>channel := channel p @ [e], submits := submits p - {#Counted e#}\<rparr>)"
| send_failed: "Counted e \<in># submits p \<Longrightarrow> \<not> receiver_alive p \<Longrightarrow>
    pool_step env p (p\<lparr>queued_jobs := queued_jobs p - 1, submits := submits p - {#Counted e#},
      answers := add_mset (ticket e, Inl ''Failed to submit job to worker pool'') (answers p)\<rparr>)"
| recv: "Idle \<in># workers p \<Longrightarrow> channel p = e # rest \<Longrightarrow>
    pool_step env p (p\<lparr>channel := rest, workers := move Idle (Received e) (workers p)\<rparr>)"
| dequeue: "Received e \<in># workers p \<Longrightarrow>
    pool_step env p (p\<lparr>queued_jobs := queued_jobs p - 1,
      workers := move (Received e) (Dequeued e) (workers p)\<rparr>)"
| start: "Dequeued e \<in># workers p \<Longrightarrow>
    pool_step env p (p\<lparr>busy_workers := busy_workers p + 1,
      workers := move (Dequeued e) (Busy e) (workers p)\<rparr>)"
| reply: "Busy e \<in># workers p \<Longrightarrow>
    pool_step env p (p\<lparr>answers := add_mset (ticket e, result) (answers p),
      workers := move (Busy e) Replied (workers p)\<rparr>)"
| rest: "Replied \<in># workers p \<Longrightarrow>
    pool_step env p (p\<lparr>busy_workers := busy_workers p - 1, workers := move Replied Idle (workers p)\<rparr>)"
| drop_receiver: "workers p = {#} \<Longrightarrow> receiver_alive p \<Longrightarrow>
    pool_step env p (p\<lparr>receiver_alive := False, channel := [],
      answers := image_mset (\<lambda>e. (ticket e, Inl ''Worker lost connection'')) (mset (channel p)) + answers p\<rparr>)"

inductive_cases pool_stepE: "pool_step env p q"

section \<open>The invariant\<close>

fun is_counted :: "submit_task \<Rightarrow> bool" where
  "is_counted (Counted e) = True"
| "is_counted _ = False"

fun is_received :: "worker_task \<Rightarrow> bool" where
  "is_received (Received e) = True"
| "is_received _ = False"

fun is_busy :: "worker_task \<Rightarrow> bool" where
  "is_busy (Busy e) = True"
| "is_busy Replied = True"
| "is_busy _ = False"

text \<open>The jobs a task holds.\<close>

fun held_submit :: "submit_task \<Rightarrow> JobEnvelope multiset" where
  "held_submit (Checked e) = {#e#}"
| "held_submit (Counted e) = {#e#}"

fun held :: "worker_task \<Rightarrow> JobEnvelope multiset" where
  "held (Received e) = {#e#}"
| "held (Dequeued e) = {#e#}"
| "held (Busy e) = {#e#}"
| "held _ = {#}"

definition in_flight :: "pool \<Rightarrow> JobEnvelope multiset" where
  "in_flight p = (\<Sum>s \<in># submits p. held_submit s) + mset (channel p) + (\<Sum>w \<in># workers p. held w)"

definition waiting_jobs :: "pool \<Rightarrow> nat" where
  "waiting_jobs p =
     length (channel p) + size (filter_mset is_counted (submits p)) + size (filter_mset is_received (workers p))"

definition running_jobs :: "pool \<Rightarrow> nat" where
  "running_jobs p = size (filter_mset is_busy (workers p))"

definition pool_inv :: "env \<Rightarrow> nat \<Rightarrow> pool \<Rightarrow> bool" where
  "pool_inv env n p \<longleftrightarrow>
     (0 < n \<longrightarrow> queued_jobs p = of_nat (waiting_jobs p)) \<and> busy_workers p = of_nat (running_jobs p) \<and>
     size (workers p) = n \<and> (\<not> receiver_alive p \<longrightarrow> channel p = []) \<and>
     accepted p = image_mset ticket (in_flight p) + image_mset fst (answers p) \<and>
     (\<forall>e \<in># in_flight p. JobRequest.memory_limit_bytes (request e) \<le> max_job_memory_bytes env)"

lemma prepare_memory: "JobRequest.memory_limit_bytes (prepare env uuid req) \<le> max_job_memory_bytes env"
  by (simp add: prepare_def Let_def not_less)

lemma move_add [simp]: "move a b (add_mset a m) = add_mset b m"
  by (simp add: move_def)

lemmas pool_defs = pool_inv_def in_flight_def waiting_jobs_def running_jobs_def

lemma filter_replicate [simp]: "\<not> P x \<Longrightarrow> filter_mset P (replicate_mset n x) = {#}"
  by (induction n) simp_all

lemma pool_inv_new: "pool_inv env n (pool_new n)"
  by (simp add: pool_defs pool_new_def)

lemma pool_inv_step:
  assumes "pool_step env p q" "pool_inv env n p"
  shows "pool_inv env n q"
  using assms
proof (cases rule: pool_step.cases)
  case (queue_full t)
  then show ?thesis using assms(2) by (simp add: pool_defs)
next
  case (check t uuid req)
  then show ?thesis using assms(2) by (simp add: pool_defs prepare_memory)
next
  case (count e)
  then obtain m where "submits p = add_mset (Checked e) m" by (metis mset_add)
  then show ?thesis using assms(2) count(1) by (simp add: pool_defs)
next
  case (send e)
  then obtain m where "submits p = add_mset (Counted e) m" by (metis mset_add)
  then show ?thesis using assms(2) send(1,3) by (simp add: pool_defs add.assoc)
next
  case (send_failed e)
  then obtain m where "submits p = add_mset (Counted e) m" by (metis mset_add)
  then show ?thesis using assms(2) send_failed(1) by (simp add: pool_defs)
next
  case (recv e rest)
  then obtain m where "workers p = add_mset Idle m" by (metis mset_add)
  then show ?thesis using assms(2) recv(1,3) by (simp add: pool_defs)
next
  case (dequeue e)
  then obtain m where "workers p = add_mset (Received e) m" by (metis mset_add)
  then show ?thesis using assms(2) dequeue(1) by (simp add: pool_defs)
next
  case (start e)
  then obtain m where "workers p = add_mset (Dequeued e) m" by (metis mset_add)
  then show ?thesis using assms(2) start(1) by (simp add: pool_defs)
next
  case (reply e result)
  then obtain m where "workers p = add_mset (Busy e) m" by (metis mset_add)
  then show ?thesis using assms(2) reply(1) by (simp add: pool_defs)
next
  case rest
  then obtain m where "workers p = add_mset Replied m" by (metis mset_add)
  then show ?thesis using assms(2) rest(1) by (simp add: pool_defs)
next
  case drop_receiver
  then show ?thesis using assms(2) by (auto simp: pool_defs multiset.map_comp comp_def)
qed

lemma pool_inv_reachable: "(pool_step env)\<^sup>*\<^sup>* (pool_new n) p \<Longrightarrow> pool_inv env n p"
  by (induction rule: rtranclp_induct) (auto intro: pool_inv_new pool_inv_step)

section \<open>Progress\<close>

fun submit_work :: "submit_task \<Rightarrow> nat" where
  "submit_work (Checked e) = 7"
| "submit_work (Counted e) = 6"

fun worker_work :: "worker_task \<Rightarrow> nat" where
  "worker_work Idle = 0"
| "worker_work (Received e) = 4"
| "worker_work (Dequeued e) = 3"
| "worker_work (Busy e) = 2"
| "worker_work Replied = 1"

definition work_left :: "pool \<Rightarrow> nat" where
  "work_left p = (\<Sum>s \<in># submits p. submit_work s) + 5 * length (channel p) + (\<Sum>w \<in># workers p. worker_work w)"

text \<open>While there is work, some task can do a step of it, without a new submission.\<close>

lemma submit_progress:
  assumes "s \<in># submits p"
  shows "\<exists>q. pool_step env p q \<and> work_left q < work_left p \<and> accepted q = accepted p"
proof -
  obtain m where m: "submits p = add_mset s m" using assms by (metis mset_add)
  show ?thesis
  proof (cases s)
    case (Checked e)
    show ?thesis
      by (rule exI, rule conjI, rule pool_step.count[of e])
        (use assms m in \<open>auto simp: Checked work_left_def\<close>)
  next
    case (Counted e)
    show ?thesis
    proof (cases "receiver_alive p")
      case True
      show ?thesis
        by (rule exI, rule conjI, rule pool_step.send[of e])
          (use assms m True in \<open>auto simp: Counted work_left_def\<close>)
    next
      case False
      show ?thesis
        by (rule exI, rule conjI, rule pool_step.send_failed[of e])
          (use assms m False in \<open>auto simp: Counted work_left_def\<close>)
    qed
  qed
qed

lemma worker_progress:
  assumes "w \<in># workers p" "w \<noteq> Idle"
  shows "\<exists>q. pool_step env p q \<and> work_left q < work_left p \<and> accepted q = accepted p"
proof -
  obtain m where m: "workers p = add_mset w m" using assms(1) by (metis mset_add)
  show ?thesis
  proof (cases w)
    case Idle
    then show ?thesis using assms(2) by simp
  next
    case (Received e)
    show ?thesis
      by (rule exI, rule conjI, rule pool_step.dequeue[of e])
        (use assms m in \<open>auto simp: Received work_left_def\<close>)
  next
    case (Dequeued e)
    show ?thesis
      by (rule exI, rule conjI, rule pool_step.start[of e])
        (use assms m in \<open>auto simp: Dequeued work_left_def\<close>)
  next
    case (Busy e)
    show ?thesis
      by (rule exI, rule conjI, rule pool_step.reply[of e])
        (use assms m in \<open>auto simp: Busy work_left_def\<close>)
  next
    case Replied
    show ?thesis
      by (rule exI, rule conjI, rule pool_step.rest)
        (use assms m in \<open>auto simp: Replied work_left_def\<close>)
  qed
qed

lemma channel_progress:
  assumes "channel p = e # rest" "Idle \<in># workers p"
  shows "\<exists>q. pool_step env p q \<and> work_left q < work_left p \<and> accepted q = accepted p"
proof -
  obtain m where m: "workers p = add_mset Idle m" using assms(2) by (metis mset_add)
  show ?thesis
    by (rule exI, rule conjI, rule pool_step.recv[OF assms(2,1)])
      (use assms m in \<open>auto simp: work_left_def\<close>)
qed

lemma drop_progress:
  assumes "channel p = e # rest" "workers p = {#}" "receiver_alive p"
  shows "\<exists>q. pool_step env p q \<and> work_left q < work_left p \<and> accepted q = accepted p"
  by (rule exI, rule conjI, rule pool_step.drop_receiver[OF assms(2,3)])
    (use assms(1,2) in \<open>simp add: work_left_def\<close>)

lemma pool_progress:
  assumes "work_left p \<noteq> 0" "\<not> receiver_alive p \<longrightarrow> channel p = []"
  shows "\<exists>q. pool_step env p q \<and> work_left q < work_left p \<and> accepted q = accepted p"
proof -
  consider (sub) s where "s \<in># submits p" | (wrk) w where "w \<in># workers p" "w \<noteq> Idle"
    | (ch) e rest where "submits p = {#}" "\<forall>w \<in># workers p. w = Idle" "channel p = e # rest"
  proof (cases "submits p = {#} \<and> (\<forall>w \<in># workers p. w = Idle)")
    case True
    then have "(\<Sum>w \<in># workers p. worker_work w) = 0"
      by (metis (no_types, lifting) sum_mset_0_iff multiset.set_map imageE worker_work.simps(1))
    then have "channel p \<noteq> []" using True assms(1) by (auto simp: work_left_def)
    then show ?thesis using True ch by (cases "channel p") auto
  next
    case False
    then show ?thesis using sub wrk by auto
  qed
  then show ?thesis
  proof cases
    case (sub s)
    then show ?thesis by (rule submit_progress)
  next
    case (wrk w)
    then show ?thesis by (rule worker_progress)
  next
    case (ch e rest)
    show ?thesis
    proof (cases "workers p = {#}")
      case True
      then show ?thesis using ch(3) assms(2) by (intro drop_progress) auto
    next
      case False
      then have "Idle \<in># workers p" using ch(2) by (metis multiset_nonemptyE)
      with ch(3) show ?thesis by (rule channel_progress)
    qed
  qed
qed

lemma pool_drain:
  assumes "pool_inv env n p"
  shows "\<exists>q. (pool_step env)\<^sup>*\<^sup>* p q \<and> work_left q = 0 \<and> accepted q = accepted p"
  using assms
proof (induction "work_left p" arbitrary: p rule: less_induct)
  case less
  show ?case
  proof (cases "work_left p = 0")
    case True
    then show ?thesis by blast
  next
    case False
    then obtain q where q: "pool_step env p q" "work_left q < work_left p" "accepted q = accepted p"
      using pool_progress less.prems unfolding pool_inv_def by blast
    then have "pool_inv env n q" using pool_inv_step less.prems by blast
    then show ?thesis
      using less.hyps[OF q(2)] q by (metis converse_rtranclp_into_rtranclp)
  qed
qed

lemma no_work_no_jobs: "work_left p = 0 \<Longrightarrow> in_flight p = {#}"
proof -
  assume w: "work_left p = 0"
  then have "submits p = {#}"
    by (cases "submits p") (auto simp: work_left_def elim: submit_work.elims)
  moreover have "held x = {#}" if "x \<in># workers p" for x
    using w that by (cases x) (auto simp: work_left_def)
  ultimately show ?thesis using w by (simp add: in_flight_def work_left_def)
qed

text \<open>A pool without workers only ever answers with errors.\<close>

lemma no_workers_step:
  assumes "pool_step env p q" "workers p = {#}" "\<forall>a \<in># answers p. isl (snd a)"
  shows "workers q = {#} \<and> (\<forall>a \<in># answers q. isl (snd a))"
  using assms by (cases rule: pool_step.cases) auto

lemma no_workers_errors:
  "(pool_step env)\<^sup>*\<^sup>* (pool_new 0) p \<Longrightarrow> workers p = {#} \<and> (\<forall>a \<in># answers p. isl (snd a))"
  by (induction rule: rtranclp_induct) (simp add: pool_new_def, blast dest: no_workers_step)

section \<open>Properties\<close>

text \<open>
  C7: the pool's counters are exact and never underflow. In every reachable state of a pool that
  has workers, whatever the interleaving of submitters and workers, \<open>queued_jobs\<close> counts the jobs in the channel
  and those between a counter's update and the channel's, \<open>busy_workers\<close> counts the workers
  that execute a job, and it is at most the number of workers.
\<close>

theorem pool_counters_exact:
  assumes "(pool_step env)\<^sup>*\<^sup>* (pool_new n) p" "0 < n" "n < 2 ^ 64" "waiting_jobs p < 2 ^ 64"
  shows "unat (queued_jobs p) = waiting_jobs p \<and> unat (busy_workers p) = running_jobs p \<and>
    unat (busy_workers p) \<le> n \<and> unat (idle_workers (of_nat n) p) = n - running_jobs p"
proof -
  have inv: "pool_inv env n p" using pool_inv_reachable[OF assms(1)] .
  have "running_jobs p \<le> size (workers p)"
    unfolding running_jobs_def by (rule size_filter_mset_lesseq)
  then have "running_jobs p \<le> n" using inv by (simp add: pool_inv_def)
  moreover from this have "running_jobs p < 2 ^ 64" using assms(3) by simp
  ultimately show ?thesis
    using inv assms(2-4)
    by (simp add: pool_inv_def idle_workers_def rust_simps unat_of_nat)
qed

theorem pool_counters_exact_witness:
  "\<exists>p. (pool_step (\<lambda>_. None))\<^sup>*\<^sup>* (pool_new 2) p \<and> unat (queued_jobs p) = 0 \<and>
     unat (idle_workers (of_nat 2) p) = 2"
  using pool_counters_exact[of "\<lambda>_. None" 2 "pool_new 2"]
  by (intro exI[of _ "pool_new 2"]) (simp add: waiting_jobs_def running_jobs_def pool_new_def)

text \<open>
  C8: no job is lost or answered twice. In every reachable state the submissions made are
  exactly those in flight (with a submitter, in the channel, or with a worker) and those
  answered, each once, and no job in flight asks for more memory than the deployment's
  ceiling, whichever way it came in.
\<close>

theorem pool_conserves_jobs:
  assumes "(pool_step env)\<^sup>*\<^sup>* (pool_new n) p"
  shows "accepted p = image_mset ticket (in_flight p) + image_mset fst (answers p) \<and>
    (\<forall>e \<in># in_flight p. JobRequest.memory_limit_bytes (request e) \<le> max_job_memory_bytes env)"
  using pool_inv_reachable[OF assms] by (simp add: pool_inv_def)

theorem pool_conserves_jobs_witness:
  "\<exists>p. (pool_step (\<lambda>_. None))\<^sup>*\<^sup>* (pool_new 1) p \<and> accepted p = {#7#} \<and>
     accepted p = image_mset ticket (in_flight p) + image_mset fst (answers p)"
proof -
  let ?r = "new_request ''j'' ''c'' [] 1 1 []"
  let ?p = "(pool_new 1)\<lparr>accepted := {#7#},
    submits := {#Checked \<lparr>ticket = 7, request = prepare (\<lambda>_. None) [] ?r\<rparr>#}\<rparr>"
  have "pool_step (\<lambda>_. None) (pool_new 1) ?p"
    using pool_step.check[of "pool_new 1" "\<lambda>_. None" 7 "[]" ?r]
    by (simp add: pool_new_def max_queue_size_def)
  then have run: "(pool_step (\<lambda>_. None))\<^sup>*\<^sup>* (pool_new 1) ?p" by (rule r_into_rtranclp)
  show ?thesis
    using run pool_conserves_jobs[OF run] by (intro exI[of _ ?p]) (simp add: pool_new_def)
qed

text \<open>
  C9: every submission can be answered. From every reachable state of a pool, even of one
  without workers, the submitters and workers can finish on their own, without a new
  submission, and then every submission made so far has got exactly one answer.
\<close>

theorem pool_answers_all:
  assumes "(pool_step env)\<^sup>*\<^sup>* (pool_new n) p"
  shows "\<exists>q. (pool_step env)\<^sup>*\<^sup>* p q \<and> in_flight q = {#} \<and>
    image_mset fst (answers q) = accepted p"
proof -
  obtain q where q: "(pool_step env)\<^sup>*\<^sup>* p q" "work_left q = 0" "accepted q = accepted p"
    using pool_drain[OF pool_inv_reachable[OF assms]] by blast
  have "pool_inv env n q" using pool_inv_reachable[OF rtranclp_trans[OF assms q(1)]] .
  then show ?thesis using q no_work_no_jobs[OF q(2)] by (auto simp: pool_inv_def)
qed

theorem pool_answers_all_witness:
  "\<exists>q. (pool_step (\<lambda>_. None))\<^sup>*\<^sup>* (pool_new 1) q \<and> in_flight q = {#}"
  using pool_answers_all[of "\<lambda>_. None" 1 "pool_new 1"] by auto

text \<open>
  The limit of the queue is not a bound. The check and the count are separate steps, so
  concurrent submissions that all pass the check push the queue over \<open>JUDGE_MAX_QUEUE\<close>.
\<close>

lemma queue_limit_overrun:
  "\<exists>env p. max_queue_size env = 1 \<and> (pool_step env)\<^sup>*\<^sup>* (pool_new 1) p \<and> queued_jobs p = 2"
proof -
  let ?env = "\<lambda>_. Some ''1''"
  have one: "max_queue_size ?env = 1"
    by (simp add: max_queue_size_def parse_u64_def parse_uint_def digit_val_def)
  let ?e = "\<lambda>t. \<lparr>ticket = t, request = prepare ?env [] (new_request ''j'' ''c'' [] 1 1 [])\<rparr>"
  let ?p0 = "pool_new 1"
  let ?p1 = "?p0\<lparr>accepted := {#1#}, submits := {#Checked (?e 1)#}\<rparr>"
  let ?p2 = "?p1\<lparr>accepted := {#2, 1#}, submits := {#Checked (?e 2), Checked (?e 1)#}\<rparr>"
  let ?p3 = "?p2\<lparr>queued_jobs := 1, submits := {#Counted (?e 2), Checked (?e 1)#}\<rparr>"
  let ?p4 = "?p3\<lparr>queued_jobs := 2, submits := {#Counted (?e 1), Counted (?e 2)#}\<rparr>"
  have s1: "pool_step ?env ?p0 ?p1"
    using pool_step.check[of ?p0 ?env 1 "[]" "new_request ''j'' ''c'' [] 1 1 []"]
    by (simp add: one pool_new_def)
  have s2: "pool_step ?env ?p1 ?p2"
    using pool_step.check[of ?p1 ?env 2 "[]" "new_request ''j'' ''c'' [] 1 1 []"]
    by (simp add: one pool_new_def)
  have s3: "pool_step ?env ?p2 ?p3"
    using pool_step.count[of "?e 2" ?p2 ?env] by (simp add: pool_new_def)
  have s4: "pool_step ?env ?p3 ?p4"
    using pool_step.count[of "?e 1" ?p3 ?env]
    by (simp add: pool_new_def add_mset_commute[of "Counted (?e 2)"])
  have "(pool_step ?env)\<^sup>*\<^sup>* ?p0 ?p4"
    using s1 s2 s3 s4 by (meson r_into_rtranclp rtranclp.rtrancl_into_rtrancl)
  then show ?thesis using one by (intro exI[of _ ?env] exI[of _ ?p4]) simp
qed

end
