(* ===== verification/Handlers.thy ===== *)
theory Handlers
  imports Result_Bus Pool Languages Metrics "HOL-Library.List_Lexorder" "HOL-Library.Char_ord"
begin

text \<open>
  The HTTP handlers, \<open>src/api/handlers.rs\<close>: validation of a submission, the synchronous and the
  asynchronous submit, the look-up of a result, and the statistics behind \<open>/health\<close> and
  \<open>/metrics\<close>. A response is its status code and its JSON body. The random identifier of
  \<open>Uuid::new_v4()\<close> and the elapsed time since the start are arguments. A synchronous submit
  waits for its result and takes the fuel of \<open>wait_for\<close>; \<open>None\<close> is running out of it.
\<close>

section \<open>Data\<close>

text \<open>\<open>J_result\<close> is the \<open>serde_json::to_value\<close> of a result.\<close>

datatype json =
    J_str string
  | J_num nat
  | J_arr "json list"
  | J_obj "(string \<times> json) list"
  | J_result JobResult

type_synonym response = "nat \<times> json"

record ApiState =
  st_workers :: usize
  st_pool :: pool
  st_redis_url :: "string option"
  st_languages :: "SupportedLanguage set option"
  st_bus :: bool

record HealthResponse =
  h_idle_workers :: usize
  h_busy_workers :: usize
  h_queued_jobs :: usize
  h_total_workers :: usize
  h_uptime_secs :: u64

section \<open>Statistics of the cluster\<close>

text \<open>The text after the first occurrence of a pattern.\<close>

fun after_sub :: "string \<Rightarrow> string \<Rightarrow> string option" where
  "after_sub pat [] = strip_prefix pat []"
| "after_sub pat (x # xs) =
     (case strip_prefix pat (x # xs) of Some rest \<Rightarrow> Some rest | None \<Rightarrow> after_sub pat xs)"

record consumer_info =
  ci_name :: string
  ci_idle :: int
  ci_pending :: usize

text \<open>The loop over the field and value pairs of one consumer.\<close>

fun scan_consumer :: "redis_value list \<Rightarrow> consumer_info \<Rightarrow> consumer_info" where
  "scan_consumer (k # v # kvs) ci =
     scan_consumer kvs
       (case k of
          BulkStringV k_bytes \<Rightarrow>
            (let k_str = from_utf8_lossy k_bytes in
             if k_str = ''name''
             then (case v of BulkStringV b \<Rightarrow> ci\<lparr>ci_name := from_utf8_lossy b\<rparr> | _ \<Rightarrow> ci)
             else if k_str = ''idle''
             then (case v of IntV i \<Rightarrow> ci\<lparr>ci_idle := i\<rparr> | _ \<Rightarrow> ci)
             else if k_str = ''pending''
             then (case v of IntV i \<Rightarrow> ci\<lparr>ci_pending := word_of_int (max i 0)\<rparr> | _ \<Rightarrow> ci)
             else ci)
        | _ \<Rightarrow> ci)"
| "scan_consumer _ ci = ci"

definition worker_count :: "string \<Rightarrow> usize" where
  "worker_count name =
     (case after_sub ''-w'' name of
        Some rest \<Rightarrow> (case parse_u64 (hd (split_on (CHR ''-'') rest)) of Some n \<Rightarrow> n | None \<Rightarrow> 2)
      | None \<Rightarrow> 2)"

definition add_consumer :: "redis_value \<Rightarrow> usize \<times> usize \<Rightarrow> usize \<times> usize" where
  "add_consumer item acc =
     (case item of
        ArrayV flds \<Rightarrow>
          (let ci = scan_consumer flds \<lparr> ci_name = [], ci_idle = 0, ci_pending = 0 \<rparr> in
           if ci_idle ci < 120000
           then (fst acc + worker_count (ci_name ci), snd acc + ci_pending ci) else acc)
      | _ \<Rightarrow> acc)"

fun heartbeat_workers :: "string list \<Rightarrow> usize \<Rightarrow> usize net_m" where
  "heartbeat_workers [] acc = retm acc"
| "heartbeat_workers (key # ks) acc =
     bindm (callm (Cmd (GET key))) (\<lambda>r.
       heartbeat_workers ks
         (case Option.bind (net_text r) parse_u64 of Some n \<Rightarrow> acc + n | None \<Rightarrow> acc))"

definition consumer_stats :: "usize \<times> usize \<times> usize \<Rightarrow> (usize \<times> usize \<times> usize) net_m" where
  "consumer_stats defaults =
     bindm (callm (Cmd (XINFO_CONSUMERS ''judge:jobs'' ''judge_workers''))) (\<lambda>r. retm
       (case r of
          Value (ArrayV consumers) \<Rightarrow>
            (case fold add_consumer consumers (0, 0) of (tot, total_pending) \<Rightarrow>
             if tot > 0
             then (let busy = min total_pending tot in (tot, saturating_sub tot busy, busy))
             else defaults)
        | _ \<Rightarrow> defaults))"

definition get_cluster_stats ::
  "string \<Rightarrow> usize \<Rightarrow> usize \<Rightarrow> usize \<Rightarrow> (usize \<times> usize \<times> usize) net_m" where
  "get_cluster_stats url default_workers default_idle default_busy =
     (let defaults = (default_workers, default_idle, default_busy) in
      bindm (callm (Open_client url)) (\<lambda>r.
      if \<not> net_ok r then retm defaults
      else bindm (callm Connect) (\<lambda>r.
      if \<not> net_ok r then retm defaults
      else bindm (callm (Cmd (KEYS ''judge:heartbeat:*''))) (\<lambda>r.
        case r of
          Names (key # ks) \<Rightarrow>
            bindm (heartbeat_workers (key # ks) 0) (\<lambda>tot.
              if tot > 0 then retm (tot, tot, 0) else consumer_stats defaults)
        | _ \<Rightarrow> consumer_stats defaults))))"

definition node_stats :: "ApiState \<Rightarrow> (usize \<times> usize \<times> usize) net_m" where
  "node_stats st =
     (let local_total = st_workers st;
          local_idle = idle_workers (st_workers st) (st_pool st);
          local_busy = busy_workers (st_pool st)
      in case st_redis_url st of
           Some url \<Rightarrow> get_cluster_stats url local_total local_idle local_busy
         | None \<Rightarrow> retm (local_total, local_idle, local_busy))"

definition health :: "ApiState \<Rightarrow> u64 \<Rightarrow> HealthResponse net_m" where
  "health st uptime =
     bindm (node_stats st) (\<lambda>(tot, idle, busy). retm
       \<lparr> h_idle_workers = idle, h_busy_workers = busy, h_queued_jobs = queued_jobs (st_pool st),
         h_total_workers = tot, h_uptime_secs = uptime \<rparr>)"

definition metrics_page :: "ApiState \<Rightarrow> counters \<Rightarrow> string option \<Rightarrow> u64 \<Rightarrow> string net_m" where
  "metrics_page st m statm uptime =
     bindm (node_stats st) (\<lambda>(tot, idle, busy). retm
       (render_prometheus m statm tot idle busy (queued_jobs (st_pool st)) uptime))"

section \<open>Validation\<close>

definition error_body :: "string \<Rightarrow> (string \<times> json) list \<Rightarrow> json" where
  "error_body msg rest = J_obj ((''error'', J_str msg) # rest)"

definition validate_submission :: "ApiState \<Rightarrow> JobRequest \<Rightarrow> response + unit" where
  "validate_submission st req =
     (case from_str (JobRequest.language req) of
        None \<Rightarrow>
          Inl (400, error_body (''Unsupported language: '' @ JobRequest.language req)
                 [(''supported'', J_arr (map J_str all_canonical_names))])
      | Some lang \<Rightarrow>
          (case st_languages st of
             Some whitelist \<Rightarrow>
               if lang \<notin> whitelist
               then Inl (403, error_body
                      (''Language '' @ [CHR 0x27] @ JobRequest.language req @ [CHR 0x27] @
                       '' is disabled on this judge instance'')
                      [(''enabled_languages'', J_arr (map J_str (sorted_list_of_set (as_str ` whitelist))))])
               else (case validate req of
                       Inl msg \<Rightarrow> Inl (400, error_body msg []) | Inr _ \<Rightarrow> Inr ())
           | None \<Rightarrow>
               (case validate req of
                  Inl msg \<Rightarrow> Inl (400, error_body msg []) | Inr _ \<Rightarrow> Inr ())))"

definition with_job_id :: "string \<Rightarrow> JobRequest \<Rightarrow> JobRequest" where
  "with_job_id uuid req =
     (if JobRequest.job_id req = [] then req\<lparr>JobRequest.job_id := uuid\<rparr> else req)"

definition max_wait_ms :: "JobRequest \<Rightarrow> u64" where
  "max_wait_ms req =
     max (JobRequest.time_limit_ms req * of_nat (length (test_cases req)) * 3 + 60000) 600000"

text \<open>The time to live of the pending marker, in seconds.\<close>

definition pending_ttl_secs :: "u64 \<Rightarrow> u64" where
  "pending_ttl_secs wait = wait div 1000 + 60"

section \<open>Submitting\<close>

definition submit_local :: "JobRequest \<Rightarrow> response net_m" where
  "submit_local req =
     bindm (callm (Submit_job req)) (\<lambda>r. retm
       (case net_answer r of
          Inr result \<Rightarrow> (200, J_result result)
        | Inl e \<Rightarrow>
            if e = ''QUEUE_FULL''
            then (503, error_body (''Judge queue is full. Server is under heavy contest load. '' @
                                   ''Please retry in 3 seconds.'') [(''retry_after_secs'', J_num 3)])
            else (500, error_body e [])))"

definition submit ::
  "nat \<Rightarrow> serde \<Rightarrow> env \<Rightarrow> ApiState \<Rightarrow> string \<Rightarrow> JobRequest \<Rightarrow> response option net_m" where
  "submit fuel sd env st uuid req =
     (case validate_submission st req of
        Inl resp \<Rightarrow> retm (Some resp)
      | Inr _ \<Rightarrow>
          (let req = with_job_id uuid req; wait = max_wait_ms req in
           if st_bus st
           then bindm (callm Now) (\<lambda>t.
             bindm (enqueue sd env req (pending_ttl_secs wait)) (\<lambda>out.
             if out = RedisDown then bindm (submit_local req) (\<lambda>resp. retm (Some resp))
             else bindm (wait_for fuel sd (JobRequest.job_id req) (net_time t + unat wait)) (\<lambda>res. retm
               (case res of
                  None \<Rightarrow> None
                | Some (Some result) \<Rightarrow> Some (200, J_result result)
                | Some None \<Rightarrow> Some (504, error_body
                    ''timed out waiting for cluster result; retry GET /api/v1/result/{job_id}''
                    [(''job_id'', J_str (JobRequest.job_id req))])))))
           else bindm (submit_local req) (\<lambda>resp. retm (Some resp))))"

definition submit_async :: "serde \<Rightarrow> env \<Rightarrow> ApiState \<Rightarrow> string \<Rightarrow> JobRequest \<Rightarrow> response net_m" where
  "submit_async sd env st uuid req =
     (case validate_submission st req of
        Inl resp \<Rightarrow> retm resp
      | Inr _ \<Rightarrow>
          (let req = with_job_id uuid req; jid = JobRequest.job_id req in
           if \<not> st_bus st
           then retm (503, error_body ''async submit requires the Redis cluster (JUDGE_REDIS not configured)'' [])
           else bindm (enqueue sd env req (pending_ttl_secs (max_wait_ms req))) (\<lambda>out. retm
             (case out of
                Queued \<Rightarrow> (202, J_obj [(''job_id'', J_str jid), (''status'', J_str ''queued''),
                                      (''result_url'', J_str (''/api/v1/result/'' @ jid))])
              | Duplicate \<Rightarrow> (409, error_body ''job_id already in-flight'' [(''job_id'', J_str jid)])
              | RedisDown \<Rightarrow> (503, error_body ''queue unavailable (Redis unreachable)''
                                      [(''job_id'', J_str jid)])))))"

definition get_result :: "serde \<Rightarrow> ApiState \<Rightarrow> string \<Rightarrow> response net_m" where
  "get_result sd st jid =
     (if \<not> st_bus st then retm (503, error_body ''result lookup requires the Redis cluster'' [])
      else bindm (try_result sd jid) (\<lambda>res.
        case res of
          Some result \<Rightarrow> retm (200, J_result result)
        | None \<Rightarrow>
            bindm (is_pending jid) (\<lambda>pending. retm
              (if pending then (202, J_obj [(''job_id'', J_str jid), (''status'', J_str ''pending'')])
               else (404, error_body ''unknown or expired job_id'' [(''job_id'', J_str jid)])))))"

section \<open>Facts\<close>

definition acceptable :: "ApiState \<Rightarrow> JobRequest \<Rightarrow> bool" where
  "acceptable st req \<longleftrightarrow> within_limits req \<and>
     (\<exists>lang. from_str (JobRequest.language req) = Some lang \<and>
        (\<forall>wl. st_languages st = Some wl \<longrightarrow> lang \<in> wl))"

lemma validate_submission_ok: "validate_submission st req = Inr () \<longleftrightarrow> acceptable st req"
  by (auto simp: validate_submission_def acceptable_def validate_ok_iff[symmetric] split: option.splits sum.splits)

lemma validate_submission_err: "validate_submission st req = Inl resp \<Longrightarrow> fst resp \<in> {400, 403}"
  by (auto simp: validate_submission_def split: option.splits sum.splits if_splits)

lemma within_limits_job_id [simp]: "within_limits (with_job_id uuid req) = within_limits req"
  by (simp add: with_job_id_def within_limits_def)

lemma max_wait_exact:
  assumes "within_limits req"
  shows "unat (max_wait_ms req) =
    max (unat (JobRequest.time_limit_ms req) * length (test_cases req) * 3 + 60000) 600000"
proof -
  let ?t = "JobRequest.time_limit_ms req" and ?n = "length (test_cases req)"
  have t: "unat ?t \<le> 60000" and n: "?n \<le> 100"
    using assms by (simp_all add: within_limits_def MAX_TEST_CASES_def)
  have un: "unat (of_nat ?n :: u64) = ?n" using n by (simp add: unat_of_nat)
  have le: "unat ?t * ?n \<le> 6000000" using mult_le_mono[OF t n] by simp
  then have p: "unat (?t * of_nat ?n) = unat ?t * ?n"
    using unat_mult_lem[of ?t "of_nat ?n"] un by simp
  then have q: "unat (?t * of_nat ?n * 3) = unat ?t * ?n * 3"
    using unat_mult_lem[of "?t * of_nat ?n" 3] le by simp
  then have "unat (?t * of_nat ?n * 3 + 60000) = unat ?t * ?n * 3 + 60000"
    using unat_add_lem[of "?t * of_nat ?n * 3" 60000] le by simp
  then show ?thesis by (simp add: max_wait_ms_def unat_max)
qed

text \<open>Numbers of workers that add up.\<close>

definition adds_up :: "usize \<times> usize \<times> usize \<Rightarrow> bool" where
  "adds_up = (\<lambda>(tot, idle, busy). unat idle + unat busy = unat tot)"

lemma adds_up_busy: "adds_up (tot, saturating_sub tot (min busy tot), min busy tot)"
  by (simp add: adds_up_def unat_saturating_sub unat_min)

lemma emits_consumer_stats: "adds_up defaults \<Longrightarrow> emits (consumer_stats defaults) (\<lambda>r _. adds_up r)"
  unfolding consumer_stats_def
  by (rule emits_call_bindm, rule emits_retm)
    (auto simp: Let_def adds_up_busy split: net_ret.split redis_value.split prod.split)

lemma emits_heartbeat: "emits (heartbeat_workers ks acc) (\<lambda>_ _. True)"
  by (induction ks arbitrary: acc) (auto intro!: emits_retm emits_call_bindm)

lemma emits_cluster_stats:
  assumes "adds_up (a, b, d)"
  shows "emits (get_cluster_stats url a b d) (\<lambda>r _. adds_up r)"
proof -
  note stats = emits_conseq[OF emits_consumer_stats[OF assms]]
  have beats: "emits (bindm (heartbeat_workers ks acc) (\<lambda>tot.
      if tot > 0 then retm (tot, tot, 0) else consumer_stats (a, b, d))) (\<lambda>r _. adds_up r)" for ks acc
    by (rule emits_bindm_with[OF emits_heartbeat]) (auto intro!: emits_retm stats simp: adds_up_def)
  show ?thesis
    unfolding get_cluster_stats_def Let_def
    using assms
    by (auto intro!: emits_call_bindm emits_retm beats stats simp del: heartbeat_workers.simps
        split: net_ret.split list.split)
qed

lemma only_try_result: "only (\<lambda>c. \<not> is_submit c) (try_result sd jid)"
  unfolding try_result_def by (intro only_intros) simp

lemma only_poll_until: "only (\<lambda>c. \<not> is_submit c) (poll_until fuel sd jid deadline)"
  by (induction fuel) (auto intro!: only_intros only_try_result)

lemma only_wait_for: "only (\<lambda>c. \<not> is_submit c) (wait_for fuel sd jid deadline)"
proof -
  have "only (\<lambda>c. \<not> is_submit c) (wait_loop fuel sd jid deadline)"
    by (induction fuel) (auto intro!: only_intros only_try_result only_poll_until)
  then show ?thesis unfolding wait_for_def by (intro only_intros only_try_result)
qed

text \<open>The job is in the cluster as far as the server answered: queued, or already in flight.\<close>

definition in_cluster :: "JobRequest \<Rightarrow> u64 \<Rightarrow> net_trace \<Rightarrow> bool" where
  "in_cluster req ttl e \<longleftrightarrow> list_ex (\<lambda>(c, r). is_xadd c \<and> net_ok r) e \<or>
     (\<exists>d. (Piped (enqueue_pipe (JobRequest.job_id req) ttl), Claim d None) \<in> set e)"

definition local_runs :: "net_trace \<Rightarrow> nat" where
  "local_runs e = length (filter (\<lambda>(c, r). is_submit c) e)"

definition runs_once :: "JobRequest \<Rightarrow> u64 \<Rightarrow> net_trace \<Rightarrow> bool" where
  "runs_once req ttl e \<longleftrightarrow> local_runs e \<le> 1 \<and> (in_cluster req ttl e \<longrightarrow> local_runs e = 0)"

lemma runs_once_Nil [simp]: "\<not> in_cluster req ttl []" "runs_once req ttl []"
  by (simp_all add: in_cluster_def runs_once_def local_runs_def)

lemma only_enqueue: "only (\<lambda>c. \<not> is_submit c) (enqueue sd env req ttl)"
  unfolding enqueue_def by (intro only_intros) (auto intro!: only_intros split: net_ret.split)

lemma local_runs_simps [simp]:
  "local_runs [] = 0" "local_runs (x # e) = (if is_submit (fst x) then 1 else 0) + local_runs e"
  "local_runs (a @ b) = local_runs a + local_runs b"
  by (auto simp: local_runs_def split: prod.split)

lemma local_runs_none: "\<forall>(c, r) \<in> set e. \<not> is_submit c \<Longrightarrow> local_runs e = 0"
  by (auto simp: local_runs_def filter_empty_conv)

lemma emits_submit_local: "emits (submit_local req) (\<lambda>_ e. \<exists>r. e = [(Submit_job req, r)])"
  unfolding submit_local_def by (rule emits_call_bindm, rule emits_retm) auto

lemma emits_submit:
  "emits (submit fuel sd env st uuid req)
     (\<lambda>_. runs_once (with_job_id uuid req) (pending_ttl_secs (max_wait_ms (with_job_id uuid req))))"
proof -
  let ?req = "with_job_id uuid req" and ?ttl = "pending_ttl_secs (max_wait_ms (with_job_id uuid req))"
  have here: "emits (bindm (submit_local ?req) (\<lambda>resp. retm (Some resp))) (\<lambda>_ e'. runs_once ?req ?ttl (e @ e'))"
    if "local_runs e = 0" "\<not> in_cluster ?req ?ttl e" for e
    by (rule emits_bindm_with[OF emits_submit_local], rule emits_retm)
      (use that in \<open>auto simp: runs_once_def in_cluster_def\<close>)
  have there: "emits (bindm (wait_for fuel sd jid d) (\<lambda>res. retm (f res))) (\<lambda>_ e'. runs_once ?req ?ttl (e @ e'))"
    if "local_runs e = 0" for e jid d f
    by (rule emits_bindm_with[OF only_wait_for[unfolded only_def]], rule emits_retm)
      (use that in \<open>auto simp: runs_once_def local_runs_none\<close>)
  have queue: "emits (bindm (enqueue sd env ?req ?ttl) (\<lambda>out.
       if out = RedisDown then bindm (submit_local ?req) (\<lambda>resp. retm (Some resp))
       else bindm (wait_for fuel sd jid d) (\<lambda>res. retm (f res)))) (\<lambda>_ e. runs_once ?req ?ttl ((Now, t) # e))"
    for jid d f t
  proof (rule emits_bindm_with[OF emits_conj[OF emits_enqueue only_enqueue[unfolded only_def]]])
    fix out e
    assume "enqueued sd env ?req ?ttl out e \<and> (\<forall>(c, r) \<in> set e. \<not> is_submit c)"
    then have "local_runs ((Now, t) # e) = 0" "out = RedisDown \<longrightarrow> \<not> in_cluster ?req ?ttl ((Now, t) # e)"
      by (auto simp: local_runs_none enqueued_def in_cluster_def Let_def)
    then show "emits (if out = RedisDown then bindm (submit_local ?req) (\<lambda>resp. retm (Some resp))
        else bindm (wait_for fuel sd jid d) (\<lambda>res. retm (f res)))
      (\<lambda>_ e'. runs_once ?req ?ttl ((Now, t) # e @ e'))"
      using here[of "(Now, t) # e"] there[of "(Now, t) # e" jid d f] by simp
  qed
  show ?thesis
    unfolding submit_def Let_def
    using here[of "[]"] by (auto intro!: emits_retm emits_call_bindm queue split: sum.split)
qed

section \<open>Properties\<close>

text \<open>
  C15: a submission goes on exactly when its language is supported and enabled and it is within
  all limits. Both submit handlers answer any other one with 400 or 403 at once, without a
  single call to Redis or to the pool.
\<close>

theorem submissions_validated:
  "(validate_submission st req = Inr () \<longleftrightarrow> acceptable st req) \<and>
   (\<not> acceptable st req \<longrightarrow> (\<exists>code body. code \<in> {400, 403} \<and>
      submit fuel sd env st uuid req net tr = (Some (code, body), tr) \<and>
      submit_async sd env st uuid req net tr = ((code, body), tr)))"
proof -
  have "\<exists>code body. code \<in> {400, 403} \<and>
      submit fuel sd env st uuid req net tr = (Some (code, body), tr) \<and>
      submit_async sd env st uuid req net tr = ((code, body), tr)" if "\<not> acceptable st req"
  proof -
    have "validate_submission st req \<noteq> Inr ()" using that by (simp add: validate_submission_ok)
    then obtain code body where "validate_submission st req = Inl (code, body)"
      by (cases "validate_submission st req") auto
    then show ?thesis
      using validate_submission_err[of st req] by (auto simp: submit_def submit_async_def retm_def)
  qed
  then show ?thesis by (simp add: validate_submission_ok)
qed

definition sample_state :: ApiState where
  "sample_state =
     \<lparr> st_workers = 2, st_pool = pool_new 2, st_redis_url = None, st_languages = None, st_bus = True \<rparr>"

theorem submissions_validated_witness:
  "\<exists>code body. code \<in> {400, 403} \<and>
     submit 1 sample_serde (\<lambda>_. None) sample_state ''u'' (new_request ''j'' ''c'' [] 1 1 []) (\<lambda>_ _. Done) [] =
       (Some (code, body), [])"
  using submissions_validated[of sample_state "new_request ''j'' ''c'' [] 1 1 []" 1 sample_serde "\<lambda>_. None" "''u''"
      "\<lambda>_ _. Done" "[]"]
  by (auto simp: acceptable_def within_limits_def new_request_def)

text \<open>
  C6: a synchronous submission is never run twice as far as the server answers. It is run on the
  local pool at most once, and not at all when the job was queued in the cluster or found to
  be in flight there already: a wait that times out never falls back to the local pool.
\<close>

theorem no_double_execution:
  assumes "submit fuel sd env st uuid req net tr = (resp, tr')"
  shows "\<exists>e. tr' = tr @ e \<and> local_runs e \<le> 1 \<and>
    (in_cluster (with_job_id uuid req) (max_wait_ms (with_job_id uuid req) div 1000 + 60) e \<longrightarrow> local_runs e = 0)"
  using emits_run[OF emits_submit assms] by (simp add: runs_once_def pending_ttl_secs_def)

definition busy_net :: net where
  "busy_net h call = (case call of Piped p \<Rightarrow> Claim 0 None | Now \<Rightarrow> Time 0 | _ \<Rightarrow> Text None)"

theorem no_double_execution_witness:
  "\<exists>resp e req. submit 1 (sample_serde\<lparr>job_to_json := (\<lambda>_. Some ''{}'')\<rparr>) (\<lambda>_. None) sample_state ''u'' req
     busy_net [] = (resp, e) \<and> in_cluster req 660 e \<and> local_runs e = 0"
proof -
  let ?req = "new_request ''j'' ''c'' [] 1 1 [\<lparr> input = [], expected_output = None \<rparr>]"
  let ?sd = "sample_serde\<lparr>job_to_json := (\<lambda>_. Some ''{}'')\<rparr>"
  let ?run = "submit 1 ?sd (\<lambda>_. None) sample_state ''u'' ?req busy_net []"
  have id: "with_job_id ''u'' ?req = ?req" and wait: "max_wait_ms ?req = 600000"
    and jid: "JobRequest.job_id ?req = ''j''"
    by (simp_all add: with_job_id_def new_request_def max_wait_ms_def)
  have "from_str ''c'' = Some C_lang" using from_str_as_str[of C_lang] by simp
  then have "validate_submission sample_state ?req = Inr ()"
    by (simp add: validate_submission_ok acceptable_def within_limits_def new_request_def sample_state_def
        MAX_SOURCE_BYTES_def MAX_TEST_CASES_def MAX_TESTCASE_BYTES_def)
  then have "(Piped (enqueue_pipe ''j'' 660), Claim 0 None) \<in> set (snd ?run)"
    by (simp add: submit_def id wait enqueue_def wait_for_def try_result_run run_simps busy_net_def sample_state_def
        pending_ttl_secs_def bindm_def[of "bindm _ _"] jid Let_def)
  then have cl: "in_cluster ?req 660 (snd ?run)" by (auto simp: in_cluster_def new_request_def)
  have run: "?run = (fst ?run, snd ?run)" by simp
  have "local_runs (snd ?run) = 0"
    using no_double_execution[OF run] cl by (auto simp: id wait)
  with run cl show ?thesis by blast
qed

text \<open>
  C13: a synchronous submission is always answered. With a clock that does not go back and at
  most \<open>k\<close> wake-ups by the bell, \<open>submit\<close> ends within one iteration per two seconds of the
  longest wait, with 200 and a result, or with one of the errors 400, 403, 500, 503 and 504.
\<close>

theorem submit_answers:
  assumes "clock_sound net" "bells_bounded k net"
    and "(unat (max_wait_ms (with_job_id uuid req)) + 1999) div 2000 + k < fuel"
  shows "\<exists>code body e. submit fuel sd env st uuid req net tr = (Some (code, body), tr @ e) \<and>
    (code = 200 \<and> (\<exists>result. body = J_result result) \<or> code \<in> {400, 403, 500, 503, 504})"
proof (cases "validate_submission st req")
  case (Inl resp)
  then show ?thesis
    using validate_submission_err[OF Inl] by (cases resp) (auto simp: submit_def run_simps)
next
  case (Inr u)
  let ?req = "with_job_id uuid req"
  have here: "\<exists>code body e. bindm (submit_local ?req) (\<lambda>resp. retm (Some resp)) net h = (Some (code, body), h @ e) \<and>
      (code = 200 \<and> (\<exists>result. body = J_result result) \<or> code \<in> {400, 403, 500, 503, 504})" for h
    by (auto simp: submit_local_def bindm_def callm_def retm_def Let_def split: sum.split)
  show ?thesis
  proof (cases "st_bus st")
    case True
    let ?t = "net tr Now" and ?w = "max_wait_ms ?req"
    obtain out tr1 where run: "enqueue sd env ?req (pending_ttl_secs ?w) net (tr @ [(Now, ?t)]) = (out, tr1)" by fastforce
    then obtain e where e: "tr1 = tr @ (Now, ?t) # e" using emits_run[OF emits_enqueue run] by auto
    obtain res e' where w: "wait_for fuel sd (JobRequest.job_id ?req) (net_time ?t + unat ?w) net tr1 = (Some res, tr1 @ e')"
      using wait_for_within[OF assms] unfolding e by blast
    show ?thesis
      using True Inr run w here[of tr1] e
      by (cases res) (auto simp: submit_def Let_def bindm_def callm_def retm_def)
  next
    case False
    then show ?thesis using Inr here[of tr] by (simp add: submit_def Let_def)
  qed
qed

theorem submit_answers_witness:
  "\<exists>code body e. submit 302 sample_serde (\<lambda>_. None) sample_state ''u'' (new_request ''j'' ''c'' [] 1 1 []) idle_net [] =
     (Some (code, body), e)"
  using submit_answers[of idle_net 0 "''u''" "new_request ''j'' ''c'' [] 1 1 []" 302 sample_serde "\<lambda>_. None" sample_state "[]"]
  by (auto simp: clock_sound_def bells_bounded_def idle_net_def max_wait_ms_def with_job_id_def new_request_def)

text \<open>
  For a validated request the deadline of the gateway is computed without overflow: it is
  three times the time limit of all its test cases and a minute more, but at least ten
  minutes, and the pending marker outlives it.
\<close>

lemma max_wait_covers:
  assumes "within_limits req"
  shows "unat (max_wait_ms req) =
      max (unat (JobRequest.time_limit_ms req) * length (test_cases req) * 3 + 60000) 600000 \<and>
    unat (max_wait_ms req) < unat (pending_ttl_secs (max_wait_ms req)) * 1000"
proof -
  let ?w = "unat (max_wait_ms req)"
  have eq: "?w = max (unat (JobRequest.time_limit_ms req) * length (test_cases req) * 3 + 60000) 600000"
    by (rule max_wait_exact[OF assms])
  have "unat (JobRequest.time_limit_ms req) * length (test_cases req) \<le> 60000 * 100"
    using assms by (intro mult_le_mono) (simp_all add: within_limits_def MAX_TEST_CASES_def)
  then have "unat (JobRequest.time_limit_ms req) * length (test_cases req) * 3 + 60000 \<le> 18060000" by linarith
  then have "?w \<le> 18060000" unfolding eq by (rule max.boundedI) simp
  then have "?w div 1000 + 60 < 2 ^ LENGTH(64)" using div_le_dividend[of ?w 1000] by simp
  then have "unat (max_wait_ms req div 1000 + 60) = ?w div 1000 + 60"
    using unat_add_lem[of "max_wait_ms req div 1000" 60] by (simp add: unat_div)
  then have "?w < unat (max_wait_ms req div 1000 + 60) * 1000"
    using div_mult_mod_eq[of ?w 1000] mod_less_divisor[of 1000 ?w] by simp
  then show ?thesis using eq by (simp add: pending_ttl_secs_def)
qed

lemma max_wait_covers_witness:
  "unat (max_wait_ms (new_request ''j'' ''c'' [] 60000 1 (replicate 100 \<lparr> input = [], expected_output = None \<rparr>))) = 18060000"
  using max_wait_covers[of "new_request ''j'' ''c'' [] 60000 1 (replicate 100 \<lparr> input = [], expected_output = None \<rparr>)"]
  by (simp add: within_limits_def new_request_def MAX_SOURCE_BYTES_def MAX_TEST_CASES_def MAX_TESTCASE_BYTES_def)

text \<open>
  The numbers of workers that \<open>/health\<close> reports add up, from the heartbeats, from the
  consumers of the group or from the local pool, whatever Redis answers: idle and busy workers
  are the total.
\<close>

lemma health_adds_up:
  assumes "health st uptime net tr = (h, tr')" "busy_workers (st_pool st) \<le> st_workers st"
  shows "unat (h_idle_workers h) + unat (h_busy_workers h) = unat (h_total_workers h)"
proof -
  have loc: "adds_up (st_workers st, idle_workers (st_workers st) (st_pool st), busy_workers (st_pool st))"
    using assms(2) by (simp add: adds_up_def idle_workers_def unat_saturating_sub word_le_nat_alt)
  have "emits (node_stats st) (\<lambda>r _. adds_up r)"
    unfolding node_stats_def Let_def
    by (auto intro!: emits_retm loc emits_cluster_stats split: option.split)
  then have "emits (health st uptime) (\<lambda>h _. adds_up (h_total_workers h, h_idle_workers h, h_busy_workers h))"
    unfolding health_def by (rule emits_bindm_with) (auto intro!: emits_retm)
  from emits_run[OF this assms(1)] show ?thesis by (simp add: adds_up_def)
qed

lemma health_adds_up_witness:
  "unat (h_idle_workers (fst (health sample_state 0 (\<lambda>_ _. Done) []))) +
   unat (h_busy_workers (fst (health sample_state 0 (\<lambda>_ _. Done) []))) = 2"
  using health_adds_up[of sample_state 0 "\<lambda>_ _. Done" "[]"]
  by (simp add: health_def node_stats_def sample_state_def pool_new_def bindm_def retm_def)

end
