(* ===== verification/Websocket.thy ===== *)
theory Websocket
  imports Handlers
begin

text \<open>
  The WebSocket endpoints, \<open>src/api/websocket.rs\<close>: \<open>/ws/execute\<close> runs a job on the local pool and
  streams its progress, \<open>/ws/result\<close> pushes the result of a job of the cluster. The frames come
  from the peer one call at a time; \<open>json_text\<close> is \<open>serde_json::Value::to_string\<close>. Loops over
  frames and events end with the peer or the job and take fuel.

  In \<open>/ws/result\<close> a \<open>select!\<close> runs the wait against the peer leaving: the call \<open>Ws_closed\<close> answers
  after how many rounds of the wait the peer leaves, if it does; a wait that has not ended by
  then is cancelled.
\<close>

section \<open>Running a job\<close>

definition send_text :: "string \<Rightarrow> unit net_m" where
  "send_text s = execm (Ws_send (Text_frame s))"

fun stream_progress :: "nat \<Rightarrow> serde \<Rightarrow> unit net_m" where
  "stream_progress 0 sd = retm ()"
| "stream_progress (Suc fuel) sd =
     bindm (callm Progress_next) (\<lambda>e.
     case net_event e of
       None \<Rightarrow> retm ()
     | Some event \<Rightarrow>
         (case event_to_json sd event of
            Some json \<Rightarrow>
              bindm (callm (Ws_send (Text_frame json))) (\<lambda>r.
                if net_ok r then stream_progress fuel sd else retm ())
          | None \<Rightarrow> stream_progress fuel sd))"

text \<open>The checks of the socket, in its order; \<open>None\<close> lets the request pass.\<close>

definition socket_error :: "ApiState \<Rightarrow> JobRequest \<Rightarrow> json option" where
  "socket_error st req =
     (case from_str (JobRequest.language req) of
        None \<Rightarrow>
          Some (error_body (''Unsupported language: '' @ JobRequest.language req)
            [(''supported'', J_arr (map J_str all_canonical_names))])
      | Some lang \<Rightarrow>
          if (case st_languages st of Some whitelist \<Rightarrow> lang \<notin> whitelist | None \<Rightarrow> False)
          then Some (error_body
                 (''Language '' @ [CHR 0x27] @ JobRequest.language req @ [CHR 0x27] @
                  '' is disabled on this judge instance'')
                 [(''enabled_languages'',
                   J_arr (map J_str (sorted_list_of_set (as_str ` the (st_languages st)))))])
          else (case validate req of Inl msg \<Rightarrow> Some (error_body msg []) | Inr _ \<Rightarrow> None))"

definition handle_text :: "nat \<Rightarrow> serde \<Rightarrow> (json \<Rightarrow> string) \<Rightarrow> ApiState \<Rightarrow> string \<Rightarrow> unit net_m" where
  "handle_text fuel sd json_text st txt =
     (case job_of_json sd txt of
        Inl e \<Rightarrow> send_text (json_text (error_body (''Failed to parse request: '' @ e) []))
      | Inr req \<Rightarrow>
          (case socket_error st req of
             Some body \<Rightarrow> send_text (json_text body)
           | None \<Rightarrow> thenm (execm (Spawn_submit req)) (stream_progress fuel sd)))"

fun handle_socket :: "nat \<Rightarrow> serde \<Rightarrow> (json \<Rightarrow> string) \<Rightarrow> ApiState \<Rightarrow> unit net_m" where
  "handle_socket 0 sd json_text st = retm ()"
| "handle_socket (Suc fuel) sd json_text st =
     bindm (callm Ws_next) (\<lambda>i.
     case net_input i of
       Frame (Text_frame txt) \<Rightarrow> handle_text fuel sd json_text st txt
     | Frame Close_frame \<Rightarrow> retm ()
     | Frame Other_frame \<Rightarrow> handle_socket fuel sd json_text st
     | Broken \<Rightarrow> retm ()
     | Ended \<Rightarrow> retm ())"

section \<open>Pushing a result\<close>

definition send_result :: "serde \<Rightarrow> JobResult \<Rightarrow> unit net_m" where
  "send_result sd result =
     (case result_to_json sd result of Some json \<Rightarrow> send_text json | None \<Rightarrow> retm ())"

definition close_socket :: "unit net_m" where
  "close_socket = execm (Ws_send Close_frame)"

text \<open>The rounds of the wait before the peer leaves; \<open>None\<close> when it stays.\<close>

definition left_after :: "net_ret \<Rightarrow> nat option" where
  "left_after r = (case r of Count n \<Rightarrow> Some n | _ \<Rightarrow> None)"

text \<open>The body before the final close; \<open>False\<close> is running out of fuel.\<close>

definition push_result ::
  "nat \<Rightarrow> serde \<Rightarrow> (json \<Rightarrow> string) \<Rightarrow> ApiState \<Rightarrow> string \<Rightarrow> bool net_m" where
  "push_result fuel sd json_text st jid =
     (if \<not> st_bus st
      then thenm (send_text (json_text (error_body ''result push requires the Redis cluster'' []))) (retm True)
      else bindm (try_result sd jid) (\<lambda>res.
        case res of
          Some result \<Rightarrow> thenm (send_result sd result) (retm True)
        | None \<Rightarrow>
            bindm (is_pending jid) (\<lambda>pending.
            if \<not> pending
            then thenm (send_text (json_text (error_body ''unknown or expired job_id''
                   [(''job_id'', J_str jid)]))) (retm True)
            else bindm (callm Now) (\<lambda>t.
              bindm (callm Ws_closed) (\<lambda>gone.
              bindm (wait_for (case left_after gone of Some n \<Rightarrow> n | None \<Rightarrow> fuel) sd jid
                       (net_time t + 600000)) (\<lambda>res.
                case res of
                  None \<Rightarrow> retm (left_after gone \<noteq> None)
                | Some (Some result) \<Rightarrow> thenm (send_result sd result) (retm True)
                | Some None \<Rightarrow> thenm (send_text (json_text (error_body
                    ''timed out waiting for result'' [(''job_id'', J_str jid)]))) (retm True)))))))"

definition handle_result_socket ::
  "nat \<Rightarrow> serde \<Rightarrow> (json \<Rightarrow> string) \<Rightarrow> ApiState \<Rightarrow> string \<Rightarrow> bool net_m" where
  "handle_result_socket fuel sd json_text st jid =
     bindm (push_result fuel sd json_text st jid) (\<lambda>ended.
       if ended then thenm close_socket (retm True) else retm False)"

section \<open>Facts\<close>

text \<open>The socket refuses what the REST handlers refuse, with the same body.\<close>

lemma socket_error_rest:
  "socket_error st req = (case validate_submission st req of Inl resp \<Rightarrow> Some (snd resp) | Inr _ \<Rightarrow> None)"
  by (auto simp: socket_error_def validate_submission_def split: option.split sum.split)

definition spawns :: "ApiState \<Rightarrow> net_call \<Rightarrow> bool" where
  "spawns st call \<longleftrightarrow> (\<forall>req. call = Spawn_submit req \<longrightarrow> acceptable st req)"

lemma spawns_simps [simp]:
  "spawns st Ws_next" "spawns st Progress_next" "spawns st (Ws_send f)"
  "spawns st (Spawn_submit req) \<longleftrightarrow> acceptable st req"
  by (simp_all add: spawns_def)

lemma only_progress: "only (spawns st) (stream_progress fuel sd)"
  by (induction fuel) (auto intro!: only_intros)

lemma only_handle_text: "only (spawns st) (handle_text fuel sd json_text st txt)"
proof -
  have "acceptable st req" if "socket_error st req = None" for req
    using that validate_submission_ok[of st req]
    by (cases "validate_submission st req") (auto simp: socket_error_rest)
  then show ?thesis
    unfolding handle_text_def send_text_def
    by (auto intro!: only_intros only_progress split: sum.split option.split)
qed

lemma only_handle_socket: "only (spawns st) (handle_socket fuel sd json_text st)"
proof (induction fuel)
  case (Suc fuel)
  then show ?case
    by (auto intro!: only_intros only_handle_text split: ws_input.split ws_frame.split)
qed auto

text \<open>A history of \<open>/ws/result\<close> that ends with the only close, after at most one text.\<close>

fun is_text :: "net_call \<Rightarrow> bool" where
  "is_text (Ws_send (Text_frame s)) = True"
| "is_text _ = False"

fun is_close :: "net_call \<Rightarrow> bool" where
  "is_close (Ws_send Close_frame) = True"
| "is_close _ = False"

definition frames_sent :: "(net_call \<Rightarrow> bool) \<Rightarrow> net_trace \<Rightarrow> nat" where
  "frames_sent P e = length (filter (P \<circ> fst) e)"

lemma frames_sent_simps [simp]:
  "frames_sent P [] = 0" "frames_sent P (x # e) = (if P (fst x) then 1 else 0) + frames_sent P e"
  "frames_sent P (a @ b) = frames_sent P a + frames_sent P b"
  by (simp_all add: frames_sent_def)

definition quiet :: "net_trace \<Rightarrow> bool" where
  "quiet e \<longleftrightarrow> frames_sent is_text e \<le> 1 \<and> frames_sent is_close e = 0"

lemma only_silent_wait:
  "only (\<lambda>c. \<not> is_text c \<and> \<not> is_close c) (wait_for fuel sd jid deadline)"
proof -
  let ?P = "\<lambda>c. \<not> is_text c \<and> \<not> is_close c"
  have got: "only ?P (try_result sd jid)" unfolding try_result_def by (auto intro!: only_intros)
  have poll: "only ?P (poll_until fuel sd jid deadline)" for fuel
    by (induction fuel) (auto intro!: only_intros got)
  have "only ?P (wait_loop fuel sd jid deadline)"
    by (induction fuel) (auto intro!: only_intros got poll)
  then show ?thesis unfolding wait_for_def by (intro only_intros got)
qed

lemma quiet_wait: "emits (wait_for fuel sd jid deadline) (\<lambda>_ e. frames_sent is_text e = 0 \<and> frames_sent is_close e = 0)"
  using only_silent_wait[unfolded only_def] by (rule emits_conseq) (auto simp: frames_sent_def filter_empty_conv)

lemma emits_send_text: "emits (thenm (send_text t) (retm b)) (\<lambda>_ e. frames_sent is_text e = 1 \<and> frames_sent is_close e = 0)"
  unfolding send_text_def by (auto intro!: emits_thenm emits_execm emits_retm)

lemma emits_send_result: "emits (thenm (send_result sd r) (retm b)) (\<lambda>_. quiet)"
  by (cases "result_to_json sd r")
    (auto simp: send_result_def quiet_def intro!: emits_thenm emits_retm emits_conseq[OF emits_send_text])

lemma emits_push_result: "emits (push_result fuel sd json_text st jid) (\<lambda>_. quiet)"
proof -
  have said: "emits (thenm (send_text t) (retm b)) (\<lambda>_. quiet)" for t b
    by (rule emits_conseq[OF emits_send_text]) (simp add: quiet_def)
  have waited: "emits (bindm (wait_for n sd jid d) f) (\<lambda>_. quiet)" if "\<And>x. emits (f x) (\<lambda>_. quiet)" for n d and f :: "_ \<Rightarrow> bool net_m"
    by (rule emits_bindm_with[OF quiet_wait], rule emits_conseq[OF that]) (simp add: quiet_def)
  have push: "quiet ((c, r) # e)" if "quiet e" "\<not> is_text c" "\<not> is_close c" for c r e
    using that by (simp add: quiet_def)
  have ended: "emits (retm b) (\<lambda>_. quiet)" for b by (rule emits_retm) (simp add: quiet_def)
  have step: "emits (bindm (callm c) f) (\<lambda>_. quiet)" if "\<And>r. emits (f r) (\<lambda>_. quiet)" "\<not> is_text c" "\<not> is_close c"
    for c and f :: "_ \<Rightarrow> bool net_m"
    by (rule emits_call_bindm, rule emits_conseq[OF that(1)]) (simp add: push that)
  show ?thesis
    unfolding push_result_def try_result_def is_pending_def bindm_assoc bindm_retm
    by (auto intro!: said waited ended step emits_send_result split: option.split)
qed

lemma push_result_ends:
  assumes "clock_sound net" "bells_bounded k net" "300 + k < fuel"
  shows "fst (push_result fuel sd json_text st jid net tr)"
proof -
  have ends: "fst (wait_for fuel sd jid (net_time t + 600000) net (h @ [(Now, t), (Ws_closed, g)])) \<noteq> None" for h t g
    using wait_for_within[OF assms(1,2), of 600000 fuel sd jid t h "[(Ws_closed, g)]"] assms(3) by auto
  have waited: "fst (bindm (wait_for (case left_after g of Some n \<Rightarrow> n | None \<Rightarrow> fuel) sd jid (net_time t + 600000)) (\<lambda>res.
       case res of None \<Rightarrow> retm (left_after g \<noteq> None)
       | Some (Some result) \<Rightarrow> thenm (send_result sd result) (retm True)
       | Some None \<Rightarrow> thenm (send_text late) (retm True)) net (h @ [(Now, t), (Ws_closed, g)]))" for h t g late
    using ends[of t h g] by (cases "left_after g") (auto simp: bindm_def thenm_def retm_def split: prod.split option.split)
  have then_True: "fst (thenm m (retm True) net h)" for m :: "unit net_m" and h
    by (simp add: thenm_def bindm_def retm_def split: prod.split)
  show ?thesis
    unfolding push_result_def is_pending_def bindm_assoc bindm_retm
    using waited[where h = "tr @ [_, _]"]
    by (cases "Option.bind (net_text (net tr (Cmd (GET (result_key jid))))) (result_of_json sd)")
      (simp_all add: try_result_run run_simps then_True del: not_None_eq)
qed

section \<open>Properties\<close>

text \<open>
  C16: the WebSocket starts no job that the REST interface would refuse: every request it submits
  to the pool has a supported and enabled language and is within all limits, and the two
  interfaces refuse the same requests with the same message.
\<close>

theorem socket_validated:
  assumes "handle_socket fuel sd json_text st net tr = (u, tr')"
  shows "(\<exists>e. tr' = tr @ e \<and> (\<forall>req r. (Spawn_submit req, r) \<in> set e \<longrightarrow> acceptable st req)) \<and>
    (\<forall>req body. socket_error st req = Some body \<longleftrightarrow> (\<exists>code. validate_submission st req = Inl (code, body)))"
proof -
  obtain e where "tr' = tr @ e" "\<forall>(c, r) \<in> set e. spawns st c"
    using emits_run[OF only_handle_socket[unfolded only_def] assms] by blast
  then have "\<exists>e. tr' = tr @ e \<and> (\<forall>req r. (Spawn_submit req, r) \<in> set e \<longrightarrow> acceptable st req)"
    by (fastforce simp: spawns_def)
  moreover have "socket_error st req = Some body \<longleftrightarrow> (\<exists>code. validate_submission st req = Inl (code, body))" for req body
    by (cases "validate_submission st req") (auto simp: socket_error_rest)
  ultimately show ?thesis by blast
qed

theorem socket_validated_witness:
  "\<exists>e. handle_socket 2 sample_serde (\<lambda>_. []) sample_state (\<lambda>_ _. Input (Frame (Text_frame ''{}''))) [] = ((), e) \<and>
     (\<forall>req r. (Spawn_submit req, r) \<in> set e \<longrightarrow> acceptable sample_state req)"
proof -
  let ?run = "handle_socket 2 sample_serde (\<lambda>_. []) sample_state (\<lambda>_ _. Input (Frame (Text_frame ''{}''))) []"
  have run: "?run = ((), snd ?run)" by (cases ?run) simp
  then show ?thesis using socket_validated[OF run] by (intro exI[of _ "snd ?run"]) auto
qed

text \<open>
  C24: \<open>/ws/result\<close> always ends by closing the socket. With a clock that does not go back and at
  most \<open>k\<close> wake-ups by the bell, 300 rounds of two seconds and one per wake-up are enough for
  its ten-minute deadline; whether the peer stays or leaves, the last frame it sends is the
  only close, after at most one text.
\<close>

theorem result_socket_closes:
  assumes "clock_sound net" "bells_bounded k net" "300 + k < fuel"
  shows "\<exists>e r. handle_result_socket fuel sd json_text st jid net tr = (True, tr @ e @ [(Ws_send Close_frame, r)]) \<and>
    frames_sent is_close e = 0 \<and> frames_sent is_text e \<le> 1"
proof -
  obtain b h where run: "push_result fuel sd json_text st jid net tr = (b, h)" by fastforce
  moreover from this have "b" using push_result_ends[OF assms, of sd json_text st jid tr] by simp
  moreover obtain e where "h = tr @ e" "quiet e" using emits_run[OF emits_push_result run] by blast
  ultimately show ?thesis
    by (simp add: handle_result_socket_def close_socket_def bindm_def[of "push_result _ _ _ _ _"] run_simps quiet_def)
qed

theorem result_socket_closes_witness:
  "\<exists>e r. handle_result_socket 301 sample_serde (\<lambda>_. []) sample_state ''j'' idle_net [] =
     (True, e @ [(Ws_send Close_frame, r)])"
proof -
  have "clock_sound idle_net" "bells_bounded 0 idle_net"
    by (simp_all add: clock_sound_def bells_bounded_def idle_net_def)
  from result_socket_closes[OF this, of 301 sample_serde "\<lambda>_. []" sample_state "''j''" "[]"]
  show ?thesis by auto
qed

end
