(* ===== verification/Api_Auth.thy ===== *)
theory Api_Auth
  imports Akiro_Prelude
begin

unbundle bit_operations_syntax

text \<open>
  Authentication and routing of the HTTP interface, \<open>src/api/mod.rs\<close>: the comparison of
  secrets, the normalisation of the configured one, the middleware, the CORS policy and the
  route table. The \<open>http\<close> crate is an argument: \<open>to_str\<close> is \<open>HeaderValue::to_str().ok()\<close> and
  \<open>parse_header\<close> the parsing of a header value. A header map is the list of its entries with
  lower-case names, as the crate normalises them; \<open>get\<close> returns the first.
\<close>

section \<open>Secrets\<close>

definition byte_of :: "char \<Rightarrow> u8" where
  "byte_of c = of_char c"

definition secret_eq :: "bytes \<Rightarrow> bytes \<Rightarrow> bool" where
  "secret_eq provided expected =
     (if length provided \<noteq> length expected then False
      else fold (\<lambda>(a, b) diff. diff OR (byte_of a XOR byte_of b)) (zip provided expected) 0 = 0)"

definition normalize_secret :: "string option \<Rightarrow> string option" where
  "normalize_secret secret =
     (case secret of Some s \<Rightarrow> if trim s \<noteq> [] then Some s else None | None \<Rightarrow> None)"

definition require_auth_enabled :: "env \<Rightarrow> bool" where
  "require_auth_enabled env =
     (case env ''JUDGE_REQUIRE_AUTH'' of
        Some v \<Rightarrow> to_ascii_lowercase (trim v) \<in> {''1'', ''true'', ''yes'', ''on''}
      | None \<Rightarrow> False)"

section \<open>The middleware\<close>

type_synonym headers = "(string \<times> bytes) list"

definition provided_secret :: "(bytes \<Rightarrow> string option) \<Rightarrow> headers \<Rightarrow> string option" where
  "provided_secret to_str headers =
     (case Option.bind (map_of headers ''x-judge-secret'') to_str of
        Some s \<Rightarrow> Some s
      | None \<Rightarrow>
          Option.bind (Option.bind (map_of headers ''authorization'') to_str) (strip_prefix ''Bearer ''))"

text \<open>\<open>True\<close>: the request goes on to its handler; \<open>False\<close>: it is answered with 401.\<close>

definition auth_middleware :: "(bytes \<Rightarrow> string option) \<Rightarrow> string option \<Rightarrow> headers \<Rightarrow> bool" where
  "auth_middleware to_str secret headers =
     (case secret of
        Some expected_secret \<Rightarrow>
          (case provided_secret to_str headers of
             Some p \<Rightarrow> secret_eq p expected_secret
           | None \<Rightarrow> False)
      | None \<Rightarrow> True)"

section \<open>Routes\<close>

datatype handler = Submit | Submit_async | Get_result | Ws_execute | Ws_result | Health | Metrics_page

record route =
  http_method :: string
  pattern :: string
  route_handler :: handler

definition protected_routes :: "route list" where
  "protected_routes =
     [\<lparr> http_method = ''POST'', pattern = ''/api/v1/submit'', route_handler = Submit \<rparr>,
      \<lparr> http_method = ''POST'', pattern = ''/api/v1/submit/async'', route_handler = Submit_async \<rparr>,
      \<lparr> http_method = ''GET'', pattern = ''/api/v1/result/:job_id'', route_handler = Get_result \<rparr>,
      \<lparr> http_method = ''GET'', pattern = ''/api/v1/ws/execute'', route_handler = Ws_execute \<rparr>,
      \<lparr> http_method = ''GET'', pattern = ''/api/v1/ws/result/:job_id'', route_handler = Ws_result \<rparr>]"

definition public_routes :: "route list" where
  "public_routes =
     [\<lparr> http_method = ''GET'', pattern = ''/health'', route_handler = Health \<rparr>,
      \<lparr> http_method = ''GET'', pattern = ''/metrics'', route_handler = Metrics_page \<rparr>]"

datatype api_answer = Unauthorized | Handled handler

text \<open>The answer to a request that matches a route, with the secret the operator configured.\<close>

definition dispatch ::
  "(bytes \<Rightarrow> string option) \<Rightarrow> string option \<Rightarrow> route \<Rightarrow> headers \<Rightarrow> api_answer" where
  "dispatch to_str configured r headers =
     (let secret = normalize_secret configured in
      if r \<in> set protected_routes \<and> \<not> auth_middleware to_str secret headers
      then Unauthorized else Handled (route_handler r))"

section \<open>Cross-origin requests\<close>

datatype cors = Permissive | Allow_origins "bytes list"

definition build_cors_layer :: "(string \<Rightarrow> bytes option) \<Rightarrow> env \<Rightarrow> cors" where
  "build_cors_layer parse_header env =
     (case env ''JUDGE_CORS_ALLOW_ORIGIN'' of
        Some v \<Rightarrow>
          if trim v = ''*'' then Permissive
          else if trim v \<noteq> []
          then Allow_origins (List.map_filter (\<lambda>o'. parse_header (trim o')) (split_on (CHR '','') v))
          else Permissive
      | None \<Rightarrow> Permissive)"

section \<open>Facts\<close>

lemma unat_byte_of: "unat (byte_of c) = of_char c"
proof -
  have "unat (of_nat (of_char c) :: u8) = of_char c mod 2 ^ LENGTH(8)" by (rule unat_of_nat)
  then have "unat (of_nat (of_char c) :: u8) = of_char c mod 256" by simp
  then show ?thesis by (simp only: of_nat_of_char of_char_mod_256 byte_of_def)
qed

lemma byte_of_eq: "byte_of a = byte_of b \<longleftrightarrow> a = b"
  by (metis unat_byte_of of_char_eq_iff)

lemma xor_eq_zero: "x XOR y = 0 \<longleftrightarrow> x = (y :: u8)"
proof
  assume "x XOR y = 0"
  then have "(x XOR y) XOR y = y" by simp
  then show "x = y" by (simp add: xor.assoc)
qed simp

lemma fold_diff_0:
  "length p = length e \<Longrightarrow>
   fold (\<lambda>(a, b) diff. diff OR (byte_of a XOR byte_of b)) (zip p e) d = 0 \<longleftrightarrow> d = 0 \<and> p = e"
  by (induction p e arbitrary: d rule: list_induct2) (simp_all add: or_eq_0_iff xor_eq_zero byte_of_eq conj_assoc)

lemma secret_eq_iff: "secret_eq p e \<longleftrightarrow> p = e"
  by (auto simp: secret_eq_def fold_diff_0)

section \<open>Properties\<close>

text \<open>
  The constant-time comparison decides equality: it accepts exactly the configured secret.
\<close>

lemma secret_eq_correct: "secret_eq provided expected \<longleftrightarrow> provided = expected"
  by (rule secret_eq_iff)

text \<open>The credential of a request, stated on its headers.\<close>

definition carries :: "(bytes \<Rightarrow> string option) \<Rightarrow> headers \<Rightarrow> string \<Rightarrow> bool" where
  "carries to_str headers secret \<longleftrightarrow>
     (case map_of headers ''x-judge-secret'' of
        Some v \<Rightarrow> to_str v = Some secret | None \<Rightarrow> False) \<or>
     (\<forall>v. map_of headers ''x-judge-secret'' = Some v \<longrightarrow> to_str v = None) \<and>
     (\<exists>v. map_of headers ''authorization'' = Some v \<and> to_str v = Some (''Bearer '' @ secret))"

lemma provided_carries: "provided_secret to_str headers = Some secret \<longleftrightarrow> carries to_str headers secret"
  by (auto simp: provided_secret_def carries_def bind_eq_Some_conv bind_eq_None_conv split: option.splits)

lemma route_prefixes:
  "\<forall>r \<in> set protected_routes. take 8 (pattern r) = ''/api/v1/''"
  "\<forall>r \<in> set public_routes. pattern r \<in> {''/health'', ''/metrics''} \<and> take 8 (pattern r) \<noteq> ''/api/v1/''"
  by (simp_all add: protected_routes_def public_routes_def)

text \<open>
  C21: every endpoint under \<open>/api/v1\<close> is guarded. With a secret configured that is not blank, a
  request to one reaches its handler exactly when the first \<open>X-Judge-Secret\<close> header is the
  secret byte for byte, or, if that header is absent or not text, the first \<open>Authorization\<close>
  header is \<open>Bearer\<close>, a space and the secret. The only endpoints outside \<open>/api/v1\<close> are
  \<open>/health\<close> and \<open>/metrics\<close>, which answer every request.
\<close>

theorem api_guarded:
  assumes "trim secret \<noteq> []" "r \<in> set (protected_routes @ public_routes)"
  shows "dispatch to_str (Some secret) r headers =
      (if take 8 (pattern r) = ''/api/v1/'' \<and> \<not> carries to_str headers secret
       then Unauthorized else Handled (route_handler r)) \<and>
    (take 8 (pattern r) = ''/api/v1/'' \<or> pattern r \<in> {''/health'', ''/metrics''})"
proof -
  have guard: "auth_middleware to_str (Some secret) headers \<longleftrightarrow> carries to_str headers secret"
    by (auto simp: auth_middleware_def secret_eq_iff provided_carries[symmetric] split: option.split)
  have route: "r \<in> set protected_routes \<longleftrightarrow> take 8 (pattern r) = ''/api/v1/''"
    using assms(2) route_prefixes by auto
  have "take 8 (pattern r) = ''/api/v1/'' \<or> pattern r \<in> {''/health'', ''/metrics''}"
    using assms(2) route_prefixes by auto
  then show ?thesis
    unfolding dispatch_def Let_def normalize_secret_def option.case if_P[OF assms(1)] guard route by (intro conjI refl)
qed

theorem api_guarded_witness:
  "dispatch Some (Some ''s3cret'') (hd protected_routes) [(''x-judge-secret'', ''guess'')] = Unauthorized"
proof -
  have "trim ''s3cret'' = ''s3cret''" by (rule trim_id) (simp_all add: ws_edge_code)
  then show ?thesis
    using api_guarded[of "''s3cret''" "hd protected_routes" Some "[(''x-judge-secret'', ''guess'')]"]
    by (simp add: protected_routes_def carries_def)
qed

text \<open>
  A blank secret is no secret. Configuring the empty or an all-white-space secret behaves
  as configuring none, so no request is let in by sending a blank header while others are
  refused.
\<close>

lemma blank_secret_is_none:
  assumes "trim secret = []"
  shows "dispatch to_str (Some secret) r headers = dispatch to_str None r headers"
  using assms by (simp add: dispatch_def normalize_secret_def)

lemma blank_secret_is_none_witness:
  "dispatch Some (Some []) (hd protected_routes) [] = dispatch Some None (hd protected_routes) []"
  by (rule blank_secret_is_none) simp

end
