(* ===== verification/Startup.thy ===== *)
theory Startup
  imports Api_Auth Handlers
begin

text \<open>
  Start-up, \<open>src/main.rs\<close>: what a node runs, from its arguments and its environment. \<open>main\<close>
  either refuses to start or starts a list of tasks; the tasks themselves are the reaper, the
  pool, the router and the consumer of the other theories. \<open>clap\<close> fills the arguments and
  \<open>available_parallelism\<close> the number of cores; both are arguments here. The allocator, the
  log and the handling of signals are left out.
\<close>

section \<open>Data\<close>

datatype RunMode = Mode_Server | Mode_Worker | Mode_All

record Args =
  arg_mode :: RunMode
  arg_port :: "16 word"
  arg_secret :: "string option"
  arg_token :: "string option"
  arg_languages :: "string option"
  arg_workers :: "string option"
  arg_redis :: string

record http_server =
  srv_port :: "16 word"
  srv_secret :: "string option"
  srv_redis :: "string option"
  srv_languages :: "SupportedLanguage set option"

datatype task =
    Reap_children
  | Run_workers usize
  | Serve_http http_server
  | Consume RedisConsumer
  | Await_signal

section \<open>Operations\<close>

definition requested_workers :: "string option \<Rightarrow> usize option" where
  "requested_workers ws =
     (case ws of
        None \<Rightarrow> None
      | Some s \<Rightarrow> if s = ''auto'' \<or> s = [] then None else parse_u64 s)"

text \<open>The size of the pool; \<open>cores\<close> is \<open>None\<close> when the parallelism cannot be read.\<close>

definition pool_workers :: "usize option \<Rightarrow> usize option \<Rightarrow> usize" where
  "pool_workers cores requested =
     (case requested of
        Some n \<Rightarrow> n
      | None \<Rightarrow> (case cores of Some p \<Rightarrow> p | None \<Rightarrow> 4))"

definition run_server :: "usize \<Rightarrow> Args \<Rightarrow> string option \<Rightarrow> SupportedLanguage set option \<Rightarrow> task list" where
  "run_server n a secret langs =
     [Run_workers n,
      Serve_http \<lparr> srv_port = arg_port a, srv_secret = secret, srv_redis = None, srv_languages = langs \<rparr>]"

definition run_worker :: "string \<Rightarrow> usize \<Rightarrow> Args \<Rightarrow> task list" where
  "run_worker uuid n a = [Run_workers n, Consume (consumer_new uuid (arg_redis a) n None None)]"

definition run_all ::
  "string \<Rightarrow> usize \<Rightarrow> Args \<Rightarrow> string option \<Rightarrow> SupportedLanguage set option \<Rightarrow> task list" where
  "run_all uuid n a secret langs =
     [Run_workers n,
      Serve_http \<lparr> srv_port = arg_port a, srv_secret = secret, srv_redis = Some (arg_redis a),
                   srv_languages = langs \<rparr>,
      if n > 0 then Consume (consumer_new uuid (arg_redis a) n None None) else Await_signal]"

text \<open>The message has a dash in UTF-8.\<close>

definition missing_secret :: string where
  "missing_secret =
     ''JUDGE_REQUIRE_AUTH is set but no usable JUDGE_SECRET was provided (unset or empty) '' @
     [CHR 0xE2, CHR 0x80, CHR 0x94] @
     '' refusing to start an unauthenticated judge. Set JUDGE_SECRET to a non-empty value '' @
     ''(or unset JUDGE_REQUIRE_AUTH for local use).''"

definition main :: "env \<Rightarrow> usize option \<Rightarrow> string \<Rightarrow> Args \<Rightarrow> string + task list" where
  "main env cores uuid a =
     (let api_secret = normalize_secret (arg_secret a) in
      if require_auth_enabled env \<and> api_secret = None
      then Inl missing_secret
      else
        let enabled_languages = map_option parse_whitelist (arg_languages a);
            n = pool_workers cores (requested_workers (arg_workers a))
        in Inr (Reap_children #
             (case arg_mode a of
                Mode_Server \<Rightarrow> run_server n a api_secret enabled_languages
              | Mode_Worker \<Rightarrow> run_worker uuid n a
              | Mode_All \<Rightarrow> run_all uuid n a api_secret enabled_languages)))"

text \<open>The state of the handlers behind a server, with the secret of the middleware.\<close>

definition create_router :: "usize \<Rightarrow> pool \<Rightarrow> http_server \<Rightarrow> (string option \<times> ApiState) net_m" where
  "create_router n p srv =
     bindm (case srv_redis srv of Some u \<Rightarrow> bus_spawn u | None \<Rightarrow> retm False) (\<lambda>bus. retm
       (normalize_secret (srv_secret srv),
        \<lparr> st_workers = n, st_pool = p, st_redis_url = srv_redis srv, st_languages = srv_languages srv,
          st_bus = bus \<rparr>))"

section \<open>Facts\<close>

lemma normalize_secret_Some: "normalize_secret secret = Some s \<longleftrightarrow> secret = Some s \<and> trim s \<noteq> []"
  by (auto simp: normalize_secret_def split: option.splits if_splits)

lemma main_ok:
  "main env cores uuid a = Inr tasks \<Longrightarrow>
   require_auth_enabled env \<longrightarrow> normalize_secret (arg_secret a) \<noteq> None"
  by (auto simp: main_def Let_def split: if_splits)

lemma main_servers:
  "main env cores uuid a = Inr tasks \<Longrightarrow> Serve_http srv \<in> set tasks \<Longrightarrow>
   srv_secret srv = normalize_secret (arg_secret a) \<and>
   srv_languages srv = map_option parse_whitelist (arg_languages a) \<and>
   srv_redis srv = (if arg_mode a = Mode_All then Some (arg_redis a) else None)"
  by (auto simp: main_def Let_def run_server_def run_worker_def run_all_def split: if_splits RunMode.splits)

section \<open>Properties\<close>

text \<open>
  C10: with \<open>JUDGE_REQUIRE_AUTH\<close> set, a node starts exactly when its secret is not blank, and then
  every server it starts guards every endpoint under \<open>/api/v1\<close>: a request reaches its handler
  if and only if it carries that secret, whatever the mode.
\<close>

theorem required_auth_enforced:
  assumes "require_auth_enabled env"
  shows "((\<exists>tasks. main env cores uuid a = Inr tasks) \<longleftrightarrow>
      (\<exists>s. arg_secret a = Some s \<and> trim s \<noteq> [])) \<and>
    (\<forall>tasks srv r. main env cores uuid a = Inr tasks \<longrightarrow> Serve_http srv \<in> set tasks \<longrightarrow>
       r \<in> set (protected_routes @ public_routes) \<longrightarrow> take 8 (pattern r) = ''/api/v1/'' \<longrightarrow>
       dispatch to_str (srv_secret srv) r headers =
         (if provided_secret to_str headers = arg_secret a then Handled (route_handler r) else Unauthorized))"
proof -
  have "(\<exists>tasks. main env cores uuid a = Inr tasks) \<longleftrightarrow> (\<exists>s. normalize_secret (arg_secret a) = Some s)"
    using assms by (auto simp: main_def Let_def)
  moreover have "dispatch to_str (srv_secret srv) r headers =
      (if provided_secret to_str headers = arg_secret a then Handled (route_handler r) else Unauthorized)"
    if run: "main env cores uuid a = Inr tasks" "Serve_http srv \<in> set tasks"
      and r: "r \<in> set (protected_routes @ public_routes)" "take 8 (pattern r) = ''/api/v1/''" for tasks srv r
  proof -
    obtain s where s: "normalize_secret (arg_secret a) = Some s" using main_ok[OF run(1)] assms by blast
    have "r \<in> set protected_routes" using r by (auto simp: public_routes_def)
    moreover have "srv_secret srv = Some s" "arg_secret a = Some s" "normalize_secret (Some s) = Some s"
      using s main_servers[OF run] by (auto simp: normalize_secret_Some)
    ultimately show ?thesis
      by (auto simp: dispatch_def auth_middleware_def secret_eq_iff split: option.split)
  qed
  ultimately show ?thesis unfolding normalize_secret_Some by blast
qed

definition sample_args :: Args where
  "sample_args =
     \<lparr> arg_mode = Mode_All, arg_port = 8080, arg_secret = None, arg_token = None, arg_languages = None,
       arg_workers = Some ''0'', arg_redis = ''redis://r'' \<rparr>"

theorem required_auth_enforced_witness:
  "\<exists>tasks srv. main (\<lambda>_. Some ''1'') (Some 8) ''u'' (sample_args\<lparr>arg_secret := Some ''s3cret''\<rparr>) = Inr tasks \<and>
     Serve_http srv \<in> set tasks \<and> dispatch Some (srv_secret srv) (hd protected_routes) [] = Unauthorized"
proof -
  let ?a = "sample_args\<lparr>arg_secret := Some ''s3cret''\<rparr>" and ?env = "\<lambda>_. Some ''1''"
  have "trim ''1'' = ''1''" "trim ''s3cret'' = ''s3cret''" by (rule trim_id; simp add: ws_edge_code)+
  then have req: "require_auth_enabled ?env" and sec: "trim ''s3cret'' \<noteq> []"
    by (simp_all add: require_auth_enabled_def to_ascii_lowercase_def ascii_lower_def)
  note spec = required_auth_enforced[OF req, of "Some 8" "''u''" ?a Some "[]"]
  obtain tasks where run: "main ?env (Some 8) ''u'' ?a = Inr tasks" using spec sec by auto
  then obtain srv where "Serve_http srv \<in> set tasks"
    by (auto simp: main_def Let_def sample_args_def run_all_def split: if_splits)
  then show ?thesis
    using run spec by (intro exI conjI) (auto simp: protected_routes_def provided_secret_def)
qed

text \<open>
  Which tasks a node runs. Every node runs the reaper and one pool of the requested size, or
  of the number of cores when the count is absent, \<open>auto\<close> or not a number. The gateway serves
  HTTP, and uses Redis only in the mode \<open>all\<close>; in that mode a node without workers starts no
  consumer. In the mode \<open>worker\<close> the consumer starts even when the pool has no worker, and
  takes four jobs at a time.
\<close>

lemma startup_tasks:
  assumes "main env cores uuid a = Inr tasks"
  shows "(\<forall>n. Run_workers n \<in> set tasks \<longleftrightarrow> n = pool_workers cores (requested_workers (arg_workers a))) \<and>
    ((\<exists>srv. Serve_http srv \<in> set tasks) \<longleftrightarrow> arg_mode a \<noteq> Mode_Worker) \<and>
    (\<forall>srv. Serve_http srv \<in> set tasks \<longrightarrow> (srv_redis srv \<noteq> None \<longleftrightarrow> arg_mode a = Mode_All)) \<and>
    ((\<exists>c. Consume c \<in> set tasks) \<longleftrightarrow> arg_mode a = Mode_Worker \<or>
       arg_mode a = Mode_All \<and> pool_workers cores (requested_workers (arg_workers a)) \<noteq> 0) \<and>
    (\<forall>c. Consume c \<in> set tasks \<longrightarrow>
       num_workers c = pool_workers cores (requested_workers (arg_workers a)) \<and>
       (num_workers c = 0 \<longrightarrow> consumer_capacity c = 4))"
proof -
  let ?n = "pool_workers cores (requested_workers (arg_workers a))"
  have t: "tasks = Reap_children # (case arg_mode a of
      Mode_Server \<Rightarrow> run_server ?n a (normalize_secret (arg_secret a)) (map_option parse_whitelist (arg_languages a))
    | Mode_Worker \<Rightarrow> run_worker uuid ?n a
    | Mode_All \<Rightarrow> run_all uuid ?n a (normalize_secret (arg_secret a)) (map_option parse_whitelist (arg_languages a)))"
    using assms by (auto simp: main_def Let_def split: if_splits)
  show ?thesis
    unfolding t by (cases "arg_mode a")
      (auto simp: run_server_def run_worker_def run_all_def consumer_new_def consumer_capacity_def word_gt_0)
qed

lemma startup_tasks_witness:
  "\<exists>tasks c. main (\<lambda>_. None) (Some 8) ''u'' (sample_args\<lparr>arg_mode := Mode_Worker\<rparr>) = Inr tasks \<and>
     Consume c \<in> set tasks \<and> num_workers c = 0"
proof -
  let ?a = "sample_args\<lparr>arg_mode := Mode_Worker\<rparr>"
  have n: "pool_workers (Some 8) (requested_workers (arg_workers ?a)) = 0"
    using parse_u64_show_nat[of 0]
    by (simp add: sample_args_def requested_workers_def pool_workers_def show_nat.simps[of 0] digit_char_def char_of_def bit_iff_odd)
  obtain tasks where run: "main (\<lambda>_. None) (Some 8) ''u'' ?a = Inr tasks"
    by (simp add: main_def require_auth_enabled_def Let_def)
  then show ?thesis using startup_tasks[OF run] n by (auto simp: sample_args_def)
qed

end
