(* ===== verification/Spec2Isabelle.thy ===== *)
theory Spec2Isabelle
  imports Pipeline Sandbox Cluster Websocket Startup
begin

text \<open>
  Akiro is an online judge: it compiles and runs submitted programs in a sandbox against test
  cases and reports a verdict. This is the root of a library that models the Rust sources under
  \<open>src/src\<close>; each theory models one part of the program, with its operations in the order and
  with the names of the code, and proves what makes that part correct.

  \<^bold>\<open>How the program is put together.\<close> \<open>main.rs\<close> starts the reaper, a pool of workers and,
  depending on the mode, the HTTP gateway and the Redis consumer. A submission comes in over
  HTTP, over a WebSocket or from the Redis stream. The gateway either enqueues it in the cluster
  and waits for its result, or submits it to the local pool. A worker runs the pipeline: it writes
  the source, compiles it, and runs every test case in \<open>Sandbox::execute\<close>, which passes the
  admission gate, forks, confines the child (cgroup, namespaces, jail, privileges, seccomp,
  resource limits), supervises it until it exits or is killed, and reads its output.

  \<^bold>\<open>Theories and sources.\<close>
  \<^item> \<open>Akiro_Prelude\<close>: types, saturating and checked arithmetic on words, text (trimming, splitting,
    numbers, lossy UTF-8), the environment. \<open>Io_Trace\<close>: programs that call something outside the
    repository, as functions of its answers, and rules for what they do in every case.
    \<open>Os_Trace\<close> and \<open>Redis_Client\<close>: the calls to the kernel and to Redis, the clock, the peer of a
    WebSocket and \<open>serde\<close>.
  \<^item> \<open>Sandbox_Config\<close>, \<open>Sandbox_Result\<close>, \<open>Admission\<close>, \<open>Reaper\<close>, \<open>Cgroups\<close>, \<open>Supervisor\<close>, \<open>Fs_Isolation\<close>,
    \<open>Seccomp\<close>, \<open>Child\<close>, \<open>Sandbox\<close>: \<open>sandbox/config.rs\<close>, \<open>result.rs\<close>, \<open>admission.rs\<close>, \<open>reaper.rs\<close>,
    \<open>cgroups.rs\<close>, \<open>supervisor.rs\<close>, \<open>fs.rs\<close>, \<open>seccomp.rs\<close>, \<open>child.rs\<close> and \<open>mod.rs\<close>.
  \<^item> \<open>Job\<close>, \<open>Languages\<close>, \<open>Metrics\<close>, \<open>Pipeline\<close>, \<open>Pool\<close>: \<open>orchestrator/job.rs\<close>, \<open>languages/*.rs\<close>,
    \<open>metrics.rs\<close>, \<open>orchestrator/pipeline.rs\<close> and \<open>orchestrator/pool.rs\<close>.
  \<^item> \<open>Api_Auth\<close>, \<open>Handlers\<close>, \<open>Websocket\<close>, \<open>Result_Bus\<close>: \<open>api/mod.rs\<close>, \<open>handlers.rs\<close>, \<open>websocket.rs\<close> and
    \<open>result_bus.rs\<close>. \<open>Redis_Queue\<close>: \<open>queue/redis.rs\<close>. \<open>Startup\<close>: \<open>main.rs\<close>.
  \<^item> \<open>Cluster\<close>: the gateway of \<open>result_bus.rs\<close> and the workers and the sweep of \<open>queue/redis.rs\<close> as
    they interleave on one server, command by command.

  \<^bold>\<open>State and operations.\<close> A struct is a \<open>record\<close> with the fields of the code, an enum a \<open>datatype\<close>,
  a machine integer a word of its width. A function that only computes is a function; one that
  talks to the outside is a program of \<open>Io_Trace\<close>, every branch of an error included; what tasks
  do concurrently is an \<open>inductive\<close> step relation whose steps are the atomic accesses of the code:
  \<open>gate_step\<close> (admission), \<open>pool_step\<close> (submitters and workers), \<open>bus_step\<close> (waiters) and
  \<open>cluster_step\<close>. Rust's panics that end the process are left out; the release profile aborts.

  \<^bold>\<open>What is proved.\<close>
  \<^item> Pipeline: an accepted job has passed every test case within its limits; the verdict is that of
    the first failing test case and, when no sandbox returns an error, does not depend on the
    schedule; the events are well formed.
  \<^item> Sandbox: no program is executed before the limits of its cgroup are written and, in the child,
    every confinement step has succeeded (when the parent attaches the child to the cgroup is left
    open, as in the code); the jail fails closed, supervision ends with the process tree killed,
    and the output is bounded. The memory gate keeps its budget, never blocks for good, and serves
    the waiting executions in the order they came.
  \<^item> Pool: the counters are exact, no job is lost or answered twice, and every job is answered.
  \<^item> Gateway: with a secret every endpoint of the API is guarded, and a deployment that requires
    one does not start without; only valid submissions get in, over REST and over the WebSocket
    alike; a synchronous submission is answered in bounded time and never run twice; the
    registry of waiters refines the multiset of the waits in progress.
  \<^item> Cluster: what the gateway enqueues is what the consumer reads; a job in the stream stays
    deliverable or pending until its result has been stored, whatever crashes, unless it is trimmed
    or the server refuses to store the result; the sweep does not run a job whose result it can
    read.
  \<^item> Theorems with names such as \<open>registry_leaks\<close>, \<open>resubmission_loses_result\<close> or
    \<open>refused_set_loses_job\<close> state behaviour that the comments of the code rule out.
  \<^item> Below: the deadline of the gateway against the limits of the pipeline, a worker node without
    workers, and the confinement of the test runs of every language.

  \<^bold>\<open>Interfaces.\<close> \<open>language_runner\<close> is interpreted for the eighteen runners. What third-party code
  promises is a locale too: the semaphore of \<open>tokio\<close> (\<open>Admission\<close>), \<open>serde_codec\<close> (a value is read back
  as it was written) and \<open>redis_server\<close> (replies and changes of the data as documented; any
  command may be refused), each interpreted on a concrete instance.

  \<^bold>\<open>Parameters.\<close> The answers of the kernel and of Redis, the clock, the order in which sandboxes
  finish, the frames of a peer, random identifiers, the number of cores, the \<open>http\<close> and
  \<open>seccompiler\<close> crates and the environment variables are arguments.

  \<^bold>\<open>Bounds and fuel.\<close> The poll loop of the supervisor takes fuel; \<open>(wall + 4) div 5 + 202\<close>
  iterations are enough for polls 5 ms apart: the wall-clock limit and one second of grace. A wait
  for a result takes fuel; one iteration per two seconds before its deadline and one per wake-up
  are enough. The report of a result is tried 12 times and the first connection 11 times, by
  terminating recursions. The endless loops of the consumer, the sweep, the listener and the
  sockets are given by their body and a number of rounds; what is proved of them holds for every
  number.

  \<^bold>\<open>Not modelled.\<close> Logging and tracing; the internals of \<open>tokio\<close>, \<open>axum\<close>, \<open>serde\<close> and the \<open>redis\<close> crate;
  the extraction of HTTP bodies and their size limit; the allocator; signal handling and graceful
  shutdown; the stubs for other operating systems; the trait \<open>QueueConsumer\<close>, which nothing
  implements; \<open>benches/\<close> and the scripts. The timing of the constant-time comparison is not
  observable here, only its result.
\<close>

section \<open>Facts across components\<close>

text \<open>The wall-clock limits the runners set, for every language.\<close>

lemma runner_wall_limits:
  "wall_time_limit_ms (get_run_command (get_runner l) bin i t m) = wall_time_for t"
  "get_compile_command (get_runner l) src bin = Some c \<Longrightarrow>
     unat (wall_time_limit_ms c) \<le> 41000"
  by (cases l; simp add: runner_defs Let_def run_limits_def builder_simps)
    (cases l; auto simp: runner_defs Let_def compile_limits_def builder_simps unat_wall_time_for)

definition compile_wall_ms :: "env \<Rightarrow> SupportedLanguage \<Rightarrow> path \<Rightarrow> path \<Rightarrow> path \<Rightarrow> nat" where
  "compile_wall_ms env lang d src bin =
     (case get_compile_command (get_runner lang) src bin of
        Some c \<Rightarrow> unat (wall_time_limit_ms (compile_phase_config env d c))
      | None \<Rightarrow> 0)"

definition tests_wall_ms :: "env \<Rightarrow> SupportedLanguage \<Rightarrow> path \<Rightarrow> JobRequest \<Rightarrow> nat" where
  "tests_wall_ms env lang d req =
     (\<Sum>tc \<leftarrow> test_cases req. unat (wall_time_limit_ms (test_config env (get_runner lang) d req tc)))"

lemma compile_wall_bound: "compile_wall_ms env lang d src bin \<le> 41000"
  using runner_wall_limits(2)
  by (auto simp: compile_wall_ms_def compile_phase_config_def with_cpu_max_percent_def builder_simps Let_def split: option.split)

lemma tests_wall_exact:
  assumes "within_limits req"
  shows "tests_wall_ms env lang d req = length (test_cases req) * (2 * unat (JobRequest.time_limit_ms req) + 1000)"
proof -
  have "unat (wall_time_limit_ms (test_config env (get_runner lang) d req tc)) = 2 * unat (JobRequest.time_limit_ms req) + 1000" for tc
    using assms
    by (simp add: test_config_def with_cpu_max_percent_def builder_simps runner_wall_limits(1) unat_wall_time_for within_limits_def)
  then show ?thesis by (simp add: tests_wall_ms_def sum_list_triv)
qed

lemma deadline_arith:
  assumes "n \<le> 100"
  shows "41000 + n * (2 * t + 1000) \<le> max (t * n * 3 + 60000) (600000 :: nat)"
proof (cases "t \<le> 2000")
  case True
  then have "n * (2 * t + 1000) \<le> 100 * 5000" using assms by (intro mult_le_mono) simp_all
  then show ?thesis by simp
next
  case False
  then have "n * 1000 \<le> n * t" by (intro mult_le_mono) simp_all
  moreover have "n * (2 * t + 1000) = 2 * (n * t) + n * 1000" "t * n * 3 = 3 * (n * t)"
    by (simp_all add: algebra_simps)
  ultimately have "41000 + n * (2 * t + 1000) \<le> t * n * 3 + 60000" by linarith
  then show ?thesis by (rule max.coboundedI1)
qed

text \<open>The number of processes a test run may have, by language.\<close>

fun process_limit :: "SupportedLanguage \<Rightarrow> nat" where
  "process_limit Go = 8"
| "process_limit Java = 24"
| "process_limit Kotlin = 24"
| "process_limit CSharp = 16"
| "process_limit Scala = 16"
| "process_limit Sql = 16"
| "process_limit Ruby = 4"
| "process_limit Php = 4"
| "process_limit Haskell = 4"
| "process_limit Dart = 4"
| "process_limit JavaScript = 12"
| "process_limit TypeScript = 12"
| "process_limit _ = 2"

lemma max_pids_limit: "unat (max_pids (get_runner lang)) = process_limit lang"
  by (cases lang) (simp_all add: runner_defs)

text \<open>The configuration of a test run, as the sandbox gets it.\<close>

lemma test_config_fresh:
  fixes jail env lang d req tc
  defines "c \<equiv> with_fresh_jail jail (test_config env (get_runner lang) d req tc)"
  shows "profile c = ExecutionProfile.Run" "enable_fs_isolation c" "enable_network_isolation c" "workspace_dir c = Some d"
    "unat (pids_limit c) = process_limit lang" "SandboxConfig.time_limit_ms c = JobRequest.time_limit_ms req"
    "SandboxConfig.memory_limit_bytes c = JobRequest.memory_limit_bytes req"
    "fs_readonly_paths c = fs_readonly_paths (test_config env (get_runner lang) d req tc)"
  using tests_isolated[of env lang d req tc] max_pids_limit[of lang]
  by (simp_all add: c_def with_fresh_jail_def Let_def test_config_def with_cpu_max_percent_def builder_simps)

subsection \<open>A sample test run\<close>

definition sample_test_config :: SandboxConfig where
  "sample_test_config = test_config no_env (get_runner Ruby) ''/w'' (new_request ''j'' ''ruby'' [] 1000 1048576 []) \<lparr> input = [], expected_output = None \<rparr>"

lemma sample_jail:
  "\<exists>jail e. \<forall>tr. fs_setup ''j'' (Some ''/w'') n [''/usr'', ''/lib'', ''/lib64'', ''/bin'', ''/etc/alternatives''] (sample_os 0) tr =
     (Inr jail, tr @ e)"
proof -
  have cstr: "path_cstr p = Some p" if "\<forall>c \<in> set p. (of_char c :: nat) < 128" "CHR 0x00 \<notin> set p" for p
    using that by (simp add: path_cstr_def cstring_def from_utf8_lossy_ascii)
  show ?thesis
    by (simp add: fs_setup_def fs_steps_def make_root_private_def create_ephemeral_root_def
        setup_readonly_mounts_def required_dir_def bind_readonly_def setup_dev_def setup_proc_def
        setup_workspace_def pivot_into_new_root_def create_device_node_def mount_fs_def do_mount_def
        create_dir_def cstr path_join_def sample_os_def Sandbox.run_simps
        del: from_utf8_lossy.simps)
qed

lemma sample_test_simps:
  fixes c defines "c \<equiv> with_fresh_jail ''j'' sample_test_config"
  shows "enable_fs_isolation c" "enable_network_isolation c" "jail_id c = ''j''" "workspace_dir c = Some ''/w''"
    "fs_readonly_paths c = [''/usr'', ''/lib'', ''/lib64'', ''/bin'', ''/etc/alternatives'']"
    "work_dir c = Some ''/sandbox''" "profile c = ExecutionProfile.Run" "executable_path c = ''/usr/bin/ruby''"
  by (simp_all add: c_def with_fresh_jail_def sample_test_config_def test_config_def with_cpu_max_percent_def builder_simps run_limits_def new_config_def runner_defs)

lemma sample_jailed_child:
  "\<exists>prog av ev e. setup_child_process sample_seccompiler ''u'' (with_fresh_jail ''j'' sample_test_config) pipes (sample_os 0) tr =
     (Image_replaced, tr @ e @ [(Execve prog av ev, Ret 0)])"
proof -
  have "envp ''/sandbox/.gocache'' \<noteq> None"
    by (simp add: envp_def cstring_def path_join_def from_utf8_lossy_ascii del: from_utf8_lossy.simps)
  then obtain ev where ev: "envp ''/sandbox/.gocache'' = Some ev" by blast
  obtain jail ej where j: "\<And>tr. fs_setup ''j'' (Some ''/w'') (fs_workdir_size_bytes (with_fresh_jail ''j'' sample_test_config))
      [''/usr'', ''/lib'', ''/lib64'', ''/bin'', ''/etc/alternatives''] (sample_os 0) tr = (Inr jail, tr @ ej)"
    using sample_jail by blast
  have os: "sample_os 0 t c = (if c = Pipe then Fds 3 4 else if c \<in> {Getuid, Geteuid, Setuid 0} then Ret 65534 else Ret 0)" for t c
    by (simp add: sample_os_def)
  show ?thesis using ev j
    by (simp add: setup_child_process_def finish_with_def close_child_ends_def close_parent_ends_def
        redirect_stdio_def apply_resource_limits_def limit_def apply_environment_sanitization_def
        isolate_network_def unshare_def isolate_fs_def launch_def enter_work_dir_def gocache_dir_def
        confine_def drop_call_def verify_drop_def drop_jail_def install_def install_bpf_filter_def
        exec_program_def sample_test_simps map_err_def cstring_def path_join_def
        sample_seccompiler_def os Sandbox.run_simps ex_snoc
        del: from_utf8_lossy.simps)
qed
section \<open>Properties\<close>

text \<open>
  C14: the deadline of the gateway leaves time for the whole job. For every request that passes
  validation, in every language, the wall-clock limits of the compilation and of all its test
  runs, even one after the other, add up to no more than the longest wait of \<open>submit\<close>, and the
  pending marker is set to live longer than that wait.
\<close>

theorem deadline_covers_job:
  assumes "validate_submission st req = Inr ()"
  shows "compile_wall_ms env lang d src bin + tests_wall_ms env lang d req \<le> unat (max_wait_ms req) \<and>
    unat (max_wait_ms req) < unat (pending_ttl_secs (max_wait_ms req)) * 1000"
proof -
  have lim: "within_limits req" using assms by (simp add: validate_submission_ok acceptable_def)
  then have "length (test_cases req) \<le> 100" by (simp add: within_limits_def MAX_TEST_CASES_def)
  from deadline_arith[OF this]
  have "compile_wall_ms env lang d src bin + tests_wall_ms env lang d req \<le> unat (max_wait_ms req)"
    unfolding max_wait_exact[OF lim] tests_wall_exact[OF lim]
    using compile_wall_bound[of env lang d src bin] by (meson add_le_mono le_refl le_trans)
  then show ?thesis using max_wait_covers[OF lim] by blast
qed

theorem deadline_covers_job_witness:
  "tests_wall_ms no_env Java ''/tmp/t''
     (new_request ''j'' ''java'' [] 1000 1 [\<lparr> input = [], expected_output = None \<rparr>]) \<le> 600000"
proof -
  let ?req = "new_request ''j'' ''java'' [] 1000 1 [\<lparr> input = [], expected_output = None \<rparr>]"
  have "within_limits ?req"
    by (simp add: within_limits_def new_request_def MAX_SOURCE_BYTES_def MAX_TEST_CASES_def MAX_TESTCASE_BYTES_def)
  moreover have "from_str (JobRequest.language ?req) = Some Java"
    using from_str_as_str[of Java] by (simp add: new_request_def)
  ultimately have ok: "validate_submission sample_state ?req = Inr ()"
    by (simp add: validate_submission_ok acceptable_def sample_state_def)
  have "unat (max_wait_ms ?req) = 600000" by (simp add: max_wait_ms_def new_request_def)
  with deadline_covers_job[OF ok, of no_env Java "''/tmp/t''" "[]" "[]"] show ?thesis by simp
qed

text \<open>
  C34: a worker node without workers fails jobs instead of leaving them to others. In the mode
  \<open>worker\<close> the consumer is started even for a pool of size zero; it takes four jobs at a time,
  every answer the pool gives, in every reachable state, is an error, and each such answer is
  published as the final \<open>RuntimeError\<close> verdict of the submission.
\<close>

theorem empty_worker_node_fails_jobs:
  assumes "main env cores uuid a = Inr tasks" "arg_mode a = Mode_Worker"
    and "requested_workers (arg_workers a) = Some 0"
  shows "\<exists>c. Consume c \<in> set tasks \<and> consumer_capacity c = 4 \<and>
    (\<forall>p t ans. (pool_step env)\<^sup>*\<^sup>* (pool_new (unat (num_workers c))) p \<longrightarrow> (t, ans) \<in># answers p \<longrightarrow>
       (\<exists>msg. ans = Inl msg) \<and>
       (\<forall>req. reported req (Answered ans) = failed_result req \<and> verdict (failed_result req) = JudgeVerdict.RuntimeError))"
proof -
  let ?c = "consumer_new uuid (arg_redis a) 0 None None"
  have "Consume ?c \<in> set tasks"
    using assms by (auto simp: main_def Let_def run_worker_def pool_workers_def split: if_splits)
  moreover have "\<exists>msg. ans = Inl msg"
    if "(pool_step env)\<^sup>*\<^sup>* (pool_new (unat (num_workers ?c))) p" "(t, ans) \<in># answers p" for p t ans
    using no_workers_errors[of env p] that by (cases ans) (auto simp: consumer_new_def)
  ultimately show ?thesis
    by (intro exI[of _ ?c]) (fastforce simp: consumer_capacity_def consumer_new_def reported_def failed_result_def)
qed

theorem empty_worker_node_fails_jobs_witness:
  "\<exists>tasks c. main (\<lambda>_. None) (Some 8) ''u''
     (sample_args\<lparr>arg_mode := Mode_Worker, arg_workers := Some (show_nat 0)\<rparr>) = Inr tasks \<and>
     Consume c \<in> set tasks \<and> consumer_capacity c = 4"
proof -
  let ?a = "sample_args\<lparr>arg_mode := Mode_Worker, arg_workers := Some (show_nat 0)\<rparr>"
  have n: "requested_workers (arg_workers ?a) = Some 0"
    using parse_u64_show_nat[of 0] by (simp add: requested_workers_def show_nat.simps[of 0])
  obtain tasks where run: "main (\<lambda>_. None) (Some 8) ''u'' ?a = Inr tasks"
    by (simp add: main_def require_auth_enabled_def Let_def)
  show ?thesis using empty_worker_node_fails_jobs[OF run _ n] run by auto
qed

text \<open>
  C30: every test case runs confined and with the limits of the request, for every language.
  Whatever the kernel answers, an \<open>execve\<close> in a sandbox with the configuration of a test run is
  made by the child of \<open>fork\<close>. Before that \<open>fork\<close> the requested memory limit and the process
  limit of the language (2 for C, C++, Rust, Zig, Python and PyPy, 4 for Ruby, PHP, Haskell and
  Dart, 8 for Go, 12 for JavaScript and TypeScript, 16 for C#, Scala and SQL, 24 for Java and
  Kotlin) were written to the execution's cgroup. In the child, before the \<open>execve\<close>: the limit
  on CPU time from the requested time, the separate network, the jail with the job's directory
  as its workspace and the runner's read-only paths, the seccomp filter, and the dropped
  privileges.
\<close>

theorem tests_run_confined:
  assumes "sandbox_execute fuel env sc jail cgid cid w (test_config env' (get_runner lang) d req tc) os tr =
    (fin, tr @ e1 @ (Execve p a v, r) # e2)"
  shows "\<exists>before answer child. e1 = before @ (Fork, answer) # child \<and> ret_int answer = 0 \<and>
    wrote (path_join (path_join ''/sys/fs/cgroup/judge'' cgid) ''memory.max'')
      (show_nat (unat (JobRequest.memory_limit_bytes req))) before \<and>
    wrote (path_join (path_join ''/sys/fs/cgroup/judge'' cgid) ''pids.max'') (show_nat (process_limit lang)) before \<and>
    (let secs = max 1 ((JobRequest.time_limit_ms req + 999) div 1000) in done_ok (Setrlimit ''RLIMIT_CPU'' secs secs) child) \<and>
    done_ok (Unshare [''CLONE_NEWNET'', ''CLONE_NEWIPC'']) child \<and> done_ok (Unshare [''CLONE_NEWNS'']) child \<and>
    (\<exists>j pre mid post. child = pre @ mid @ post \<and>
       jail_ready j (Some d) (fs_readonly_paths (test_config env' (get_runner lang) d req tc)) mid) \<and>
    filtered child \<and> dropped child"
proof -
  obtain e0 f e3 where e: "e1 = e0 @ (Fork, f) # e3" "ret_int f = 0"
    and l: "cgroup_limited cgid (with_fresh_jail jail (test_config env' (get_runner lang) d req tc)) e0"
    and c: "confined (with_fresh_jail jail (test_config env' (get_runner lang) d req tc)) e3"
      using exec_child_confined[OF assms] unfolding child_confined_def by blast
  show ?thesis
    using e l c test_config_fresh(2,3)[of jail env' lang d req tc]
    unfolding cgroup_limited_def confined_def limited_def cpu_limit_secs_def jailed_def test_config_fresh Let_def
    by - (rule exI[of _ e0], rule exI[of _ f], rule exI[of _ e3], blast)
qed

theorem tests_run_confined_witness:
  "\<exists>fin a b child prog av ev. sandbox_execute 1 (\<lambda>_. None) sample_seccompiler ''j'' ''c'' ''u'' sample_observed
     sample_test_config (sample_os 0) [] = (fin, a @ b # child @ [(Execve prog av ev, Ret 0)]) \<and>
     wrote ''/sys/fs/cgroup/judge/c/memory.max'' (show_nat 1048576) a \<and>
     wrote ''/sys/fs/cgroup/judge/c/pids.max'' (show_nat 4) a \<and> filtered child \<and> dropped child"
proof -
  obtain fin e prog av ev where run: "sandbox_execute 1 (\<lambda>_. None) sample_seccompiler ''j'' ''c'' ''u''
      sample_observed sample_test_config (sample_os 0) [] = (fin, [] @ e @ (Execve prog av ev, Ret 0) # [])"
    using sample_execute_child_of[OF sample_jailed_child] by blast
  obtain a f child where e: "e = a @ (Fork, f) # child" "filtered child" "dropped child"
    "wrote ''/sys/fs/cgroup/judge/c/memory.max'' (show_nat 1048576) a"
    "wrote ''/sys/fs/cgroup/judge/c/pids.max'' (show_nat 4) a"
    using tests_run_confined[OF run[unfolded sample_test_config_def]] by (auto simp: path_join_def new_request_def)
  then show ?thesis using run by (intro exI[of _ fin] exI[of _ a] exI[of _ "(Fork, f)"] exI[of _ child]) auto
qed

end
